(* ===== verification/Prelude.thy ===== *)
theory Prelude
  imports Main "HOL-Library.Word" "HOL-Library.Sublist"
begin

text \<open>
  What the components share: the fault values that stand for the ways the C++ code can leave
  its defined behaviour, the C string and \<open>stdlib\<close> routines the sources call (on NUL-free
  character lists, a C string being the bytes in front of its terminator), decimal printing,
  the \<open>printf\<close> conversions \<open>%s\<close> and \<open>%d\<close>, and the generic list lemmas of the later
  theories.
\<close>

unbundle bit_operations_syntax

named_theorems str_simps \<open>C string routines, unfolded by the component proofs\<close>

named_theorems emit_defs \<open>definitions of the code emitters, unfolded by the proofs about generated text\<close>

type_synonym u8 = "8 word"
type_synonym u16 = "16 word"
type_synonym u32 = "32 word"
type_synonym u64 = "64 word"
type_synonym s32 = "32 word"
type_synonym s64 = "64 word"

section \<open>Faults\<close>

text \<open>
  Where the source asserts, dereferences a null pointer, reads past a buffer, writes past one or
  loops forever, the model returns the fault instead of a value. \<open>NotCompiled\<close> is for generated
  code that the C++ compiler rejects.
\<close>

datatype fault =
    AssertFail
  | ArgvOverflow
  | UnterminatedBuffer
  | NullDeref
  | ReadPastEnd
  | Diverges
  | NotCompiled

fun bind_fault :: "'e + 'a \<Rightarrow> ('a \<Rightarrow> 'e + 'b) \<Rightarrow> 'e + 'b" where
  "bind_fault (Inl e) f = Inl e"
| "bind_fault (Inr x) f = f x"

section \<open>Characters and C strings\<close>

definition code_of :: "char \<Rightarrow> nat" where
  "code_of c = (of_char c :: nat)"

definition nul :: char where
  "nul = CHR 0x00"

definition lf_char :: char where
  "lf_char = CHR 0x0A"

definition cr_char :: char where
  "cr_char = CHR 0x0D"

definition in_range :: "char \<Rightarrow> char \<Rightarrow> char \<Rightarrow> bool" where
  "in_range lo hi c \<longleftrightarrow> code_of lo \<le> code_of c \<and> code_of c \<le> code_of hi"

text \<open>ASCII \<open>c += 32\<close> and \<open>c -= 32\<close>.\<close>

definition char_add :: "char \<Rightarrow> nat \<Rightarrow> char" where
  "char_add c n = char_of (code_of c + n)"

definition char_sub :: "char \<Rightarrow> nat \<Rightarrow> char" where
  "char_sub c n = char_of (code_of c - n)"

definition ascii_lower :: "char \<Rightarrow> char" where
  "ascii_lower c = (if in_range CHR ''A'' CHR ''Z'' c then char_add c 32 else c)"

definition ascii_upper :: "char \<Rightarrow> char" where
  "ascii_upper c = (if in_range CHR ''a'' CHR ''z'' c then char_sub c 32 else c)"

text \<open>\<open>_stricmp(a, b) == 0\<close> (\<open>strcasecmp\<close> in the C locale).\<close>

definition stricmp0 :: "string \<Rightarrow> string \<Rightarrow> bool" where
  "stricmp0 a b \<longleftrightarrow> map ascii_lower a = map ascii_lower b"

text \<open>
  \<open>strchr\<close> splits a string at the first occurrence of a character: the part in front of it
  (what is left of the string once the code stores a NUL there) and the part after it.
\<close>

fun split_at :: "char \<Rightarrow> string \<Rightarrow> (string \<times> string) option" where
  "split_at c [] = None"
| "split_at c (x # xs) =
     (if x = c then Some ([], xs)
      else map_option (\<lambda>(a, b). (x # a, b)) (split_at c xs))"

text \<open>\<open>temp[0] = upcase(temp[0])\<close> on a NUL-terminated buffer.\<close>

fun map_first :: "(char \<Rightarrow> char) \<Rightarrow> string \<Rightarrow> string" where
  "map_first f [] = []"
| "map_first f (c # cs) = f c # cs"

text \<open>
  \<open>strncpy(buf, s, n)\<close> followed by a read of \<open>buf\<close> as a string: well defined only if the
  terminator was copied too.
\<close>

definition strncpy_buf :: "nat \<Rightarrow> string \<Rightarrow> fault + string" where
  "strncpy_buf n s = (if length s < n then Inr s else Inl UnterminatedBuffer)"

section \<open>Decimal numbers\<close>

definition digit_char :: "nat \<Rightarrow> char" where
  "digit_char d = char_of (48 + d)"

fun dec :: "nat \<Rightarrow> string" where
  "dec n = (if n < 10 then [digit_char n] else dec (n div 10) @ [digit_char (n mod 10)])"

declare dec.simps [simp del]

definition dec_int :: "int \<Rightarrow> string" where
  "dec_int i = (if i < 0 then CHR ''-'' # dec (nat (- i)) else dec (nat i))"

text \<open>\<open>isspace\<close> and \<open>isdigit\<close> of the C locale.\<close>

definition is_space :: "char \<Rightarrow> bool" where
  "is_space c \<longleftrightarrow> code_of c = 32 \<or> (9 \<le> code_of c \<and> code_of c \<le> 13)"

definition is_dec_digit :: "char \<Rightarrow> bool" where
  "is_dec_digit c \<longleftrightarrow> in_range CHR ''0'' CHR ''9'' c"

definition digit_value :: "char \<Rightarrow> nat" where
  "digit_value c =
     (if is_dec_digit c then code_of c - 48
      else if in_range CHR ''a'' CHR ''z'' c then code_of c - 87
      else if in_range CHR ''A'' CHR ''Z'' c then code_of c - 55
      else 36)"

text \<open>The value of the longest prefix of digits in base \<open>b\<close>.\<close>

fun digits_value :: "nat \<Rightarrow> nat \<Rightarrow> string \<Rightarrow> nat" where
  "digits_value b acc [] = acc"
| "digits_value b acc (c # cs) =
     (if digit_value c < b then digits_value b (acc * b + digit_value c) cs else acc)"

fun strip_sign :: "string \<Rightarrow> bool \<times> string" where
  "strip_sign [] = (False, [])"
| "strip_sign (c # cs) =
     (if c = CHR ''-'' then (True, cs) else if c = CHR ''+'' then (False, cs) else (False, c # cs))"

text \<open>The base and the digits that \<open>strtoll(s, nullptr, 0)\<close> reads.\<close>

definition base_prefix :: "string \<Rightarrow> nat \<times> string" where
  "base_prefix s =
     (case s of
        [] \<Rightarrow> (10, [])
      | c # cs \<Rightarrow>
          (if c \<noteq> CHR ''0'' then (10, s)
           else (case cs of
                   x # h # r \<Rightarrow>
                     (if (x = CHR ''x'' \<or> x = CHR ''X'') \<and> digit_value h < 16 then (16, h # r)
                      else (8, cs))
                 | _ \<Rightarrow> (8, cs))))"

definition clamp :: "int \<Rightarrow> int \<Rightarrow> int \<Rightarrow> int" where
  "clamp lo hi x = (if x < lo then lo else if hi < x then hi else x)"

definition signed_value :: "nat option \<Rightarrow> string \<Rightarrow> int" where
  "signed_value base s =
     (let (neg, r) = strip_sign (dropWhile is_space s);
          (b, ds) = (case base of Some b \<Rightarrow> (b, r) | None \<Rightarrow> base_prefix r);
          v = int (digits_value b 0 ds)
      in if neg then - v else v)"

definition strtoll0 :: "string \<Rightarrow> int" where
  "strtoll0 s = clamp (- (2 ^ 63)) (2 ^ 63 - 1) (signed_value None s)"

definition strtoull0 :: "string \<Rightarrow> nat" where
  "strtoull0 s =
     (let v = signed_value None s
      in if 2 ^ 64 \<le> \<bar>v\<bar> then 2 ^ 64 - 1 else nat (v mod 2 ^ 64))"

text \<open>
  \<open>atoi\<close> as the C libraries in use implement it: \<open>strtol\<close> (64-bit, saturating) cut to 32 bits.
\<close>

definition atoi :: "string \<Rightarrow> s32" where
  "atoi s = word_of_int (clamp (- (2 ^ 63)) (2 ^ 63 - 1) (signed_value (Some 10) s))"

section \<open>printf\<close>

text \<open>
  The conversions the sources use with \<open>printCode\<close> and \<open>stringFormat\<close>: \<open>%s\<close>, \<open>%d\<close> and
  \<open>%%\<close>. Arguments beyond the format's conversions are ignored, as in C. No format of the
  sources has more conversions than arguments.
\<close>

datatype arg = S string | D nat

fun arg_text :: "arg \<Rightarrow> string" where
  "arg_text (S s) = s"
| "arg_text (D n) = dec n"

fun vformat :: "string \<Rightarrow> arg list \<Rightarrow> string" where
  "vformat [] as = []"
| "vformat [c] as = [c]"
| "vformat (c # d # f) as =
     (if c \<noteq> CHR ''%'' then c # vformat (d # f) as
      else if d = CHR ''%'' then c # vformat f as
      else (case as of
              [] \<Rightarrow> vformat f []
            | a # as' \<Rightarrow> arg_text a @ vformat f as'))"

text \<open>\<open>vsnprintf(buf, n, f, as)\<close>: the text in \<open>buf\<close>, cut to \<open>n - 1\<close> bytes.\<close>

definition snprintf :: "nat \<Rightarrow> string \<Rightarrow> arg list \<Rightarrow> string" where
  "snprintf n f as = take (n - 1) (vformat f as)"

section \<open>Shared lemmas\<close>

lemma code_of_char_of [simp]: "n < 256 \<Longrightarrow> code_of (char_of n) = n"
  by (simp add: code_of_def)

lemma code_of_less [simp]: "code_of c < 256"
  by (simp add: code_of_def)

lemma code_of_inject [simp]: "code_of c = code_of d \<longleftrightarrow> c = d"
  by (simp add: code_of_def)

lemma split_at_None: "split_at c s = None \<longleftrightarrow> c \<notin> set s"
  by (induction s) auto

lemma split_at_Some: "split_at c s = Some (a, b) \<longleftrightarrow> s = a @ c # b \<and> c \<notin> set a"
  by (induction s arbitrary: a b) (auto simp: Cons_eq_append_conv split: if_splits)

lemma split_at_append [simp]: "c \<notin> set a \<Longrightarrow> split_at c (a @ c # b) = Some (a, b)"
  by (simp add: split_at_Some)

lemma length_map_first [simp]: "length (map_first f s) = length s"
  by (cases s) auto

lemma snprintf_short: "length (vformat f as) < n \<Longrightarrow> snprintf n f as = vformat f as"
  by (simp add: snprintf_def)

lemma length_snprintf: "0 < n \<Longrightarrow> length (snprintf n f as) < n"
  by (simp add: snprintf_def)

lemma snprintf_s [simp]: "length s < n \<Longrightarrow> snprintf n ''%s'' [S s] = s"
  by (simp add: snprintf_def)

lemma length_vformat:
  "length (vformat f as) \<le> length f + sum_list (map (\<lambda>a. length (arg_text a)) as)"
  by (induction f as rule: vformat.induct) (auto split: list.split)

lemma dec_nonempty [simp]: "dec n \<noteq> []"
  by (subst dec.simps) simp

lemma digit_char_is_digit: "d < 10 \<Longrightarrow> is_dec_digit (digit_char d)"
  by (simp add: is_dec_digit_def in_range_def digit_char_def) (simp add: code_of_def)

lemma digit_value_digit_char [simp]: "d < 10 \<Longrightarrow> digit_value (digit_char d) = d"
  by (simp add: digit_value_def digit_char_is_digit) (simp add: digit_char_def)

lemma dec_digits: "\<forall>c \<in> set (dec n). is_dec_digit c"
proof (induction n rule: dec.induct)
  case (1 n)
  then show ?case
    by (subst dec.simps) (auto simp: digit_char_is_digit)
qed

lemma digits_value_append:
  "\<forall>c \<in> set xs. digit_value c < b \<Longrightarrow>
   digits_value b acc (xs @ ys) = digits_value b (digits_value b acc xs) ys"
  by (induction xs arbitrary: acc) auto

lemma digit_value_less: "is_dec_digit c \<Longrightarrow> digit_value c < 10"
  by (auto simp: digit_value_def is_dec_digit_def in_range_def) (simp add: code_of_def)

lemma digits_value_dec [simp]: "digits_value 10 0 (dec n) = n"
proof (induction n rule: dec.induct)
  case (1 n)
  show ?case
  proof (cases "n < 10")
    case True
    then show ?thesis by (subst dec.simps) simp
  next
    case False
    have "digits_value 10 0 (dec (n div 10) @ [digit_char (n mod 10)]) = n"
      using 1 False dec_digits digit_value_less
      by (subst digits_value_append) auto
    with False show ?thesis by (subst dec.simps) simp
  qed
qed

lemma dec_inject [simp]: "dec m = dec n \<longleftrightarrow> m = n"
  by (metis digits_value_dec)

lemma dec_digit_range: "is_dec_digit c \<Longrightarrow> 48 \<le> code_of c \<and> code_of c \<le> 57"
  by (simp add: is_dec_digit_def in_range_def) (simp add: code_of_def)

lemma dec_front:
  "dropWhile is_space (dec n) = dec n" "strip_sign (dec n) = (False, dec n)"
proof -
  obtain c cs where s: "dec n = c # cs" by (cases "dec n") auto
  then have c: "48 \<le> code_of c" "code_of c \<le> 57"
    using dec_digits[of n] dec_digit_range[of c] by simp_all
  then have "\<not> is_space c" "c \<noteq> CHR ''-''" "c \<noteq> CHR ''+''"
    by (auto simp: is_space_def) (simp_all add: code_of_def)
  then show "dropWhile is_space (dec n) = dec n" "strip_sign (dec n) = (False, dec n)"
    by (simp_all add: s)
qed

lemma dec_first: "0 < n \<Longrightarrow> hd (dec n) \<noteq> CHR ''0''"
proof (induction n rule: dec.induct)
  case (1 n)
  show ?case
  proof (cases "n < 10")
    case True
    have "digit_value CHR ''0'' = 0" by code_simp
    then have "digit_char n \<noteq> CHR ''0''" using 1(2) True by (metis digit_value_digit_char less_irrefl)
    with True show ?thesis by (subst dec.simps) simp
  next
    case False
    then have "hd (dec (n div 10)) \<noteq> CHR ''0''" using 1 by simp
    with False show ?thesis by (subst dec.simps) simp
  qed
qed

lemma base_prefix_dec: "case base_prefix (dec n) of (b, ds) \<Rightarrow> digits_value b 0 ds = n"
proof (cases "n = 0")
  case True
  have "digit_char 0 = CHR ''0''" by code_simp
  then show ?thesis by (simp add: True dec.simps[of 0] base_prefix_def)
next
  case False
  obtain c cs where s: "dec n = c # cs" by (cases "dec n") auto
  with dec_first[of n] False have "c \<noteq> CHR ''0''" by simp
  then have "base_prefix (dec n) = (10, dec n)" by (simp add: base_prefix_def s)
  then show ?thesis by simp
qed

lemma signed_value_dec:
  "signed_value None (dec n) = int n" "signed_value None (CHR ''-'' # dec n) = - int n"
proof -
  obtain b ds where b: "base_prefix (dec n) = (b, ds)" by fastforce
  then have v: "digits_value b 0 ds = n" using base_prefix_dec[of n] by simp
  have "\<not> is_space CHR ''-''" by code_simp
  with b v show "signed_value None (dec n) = int n"
    "signed_value None (CHR ''-'' # dec n) = - int n"
    by (simp_all add: signed_value_def dec_front Let_def)
qed

lemma strtoll0_dec_int: "- (2 ^ 63) \<le> i \<Longrightarrow> i < 2 ^ 63 \<Longrightarrow> strtoll0 (dec_int i) = i"
  by (simp add: strtoll0_def dec_int_def signed_value_dec clamp_def)

lemma strtoull0_dec: "n < 2 ^ 64 \<Longrightarrow> strtoull0 (dec n) = n"
  by (simp add: strtoull0_def signed_value_dec)

lemma strtoll0_range: "- (2 ^ 63) \<le> strtoll0 s \<and> strtoll0 s < 2 ^ 63"
  by (simp add: strtoll0_def clamp_def)

lemma strtoull0_range: "strtoull0 s < 2 ^ 64"
  by (simp add: strtoull0_def Let_def nat_less_iff)

section \<open>Decimal text of a fixed width\<close>

fun pad_dec :: "nat \<Rightarrow> nat \<Rightarrow> string" where
  "pad_dec 0 v = []"
| "pad_dec (Suc k) v = pad_dec k (v div 10) @ [digit_char (v mod 10)]"

lemma length_pad_dec [simp]: "length (pad_dec k v) = k"
  by (induction k v rule: pad_dec.induct) auto

lemma pad_dec_add: "pad_dec (j + k) v = pad_dec j (v div 10 ^ k) @ pad_dec k (v mod 10 ^ k)"
proof (induction k arbitrary: v)
  case (Suc k)
  have "v mod (10 * 10 ^ k) div 10 = v div 10 mod 10 ^ k"
    by (simp add: mod_mult2_eq)
  moreover have "v mod (10 * 10 ^ k) mod 10 = v mod 10"
    by (simp add: mod_mult2_eq)
  ultimately show ?case
    by (simp add: Suc div_mult2_eq)
qed simp

lemma dec_pad: "v < 10 ^ Suc k \<Longrightarrow> k = 0 \<or> 10 ^ k \<le> v \<Longrightarrow> dec v = pad_dec (Suc k) v"
proof (induction k arbitrary: v)
  case 0
  then show ?case by (subst dec.simps) simp
next
  case (Suc k)
  from Suc.prems have v: "10 ^ k \<le> v div 10" "v div 10 < 10 ^ Suc k"
    by (simp_all add: less_eq_div_iff_mult_less_eq less_mult_imp_div_less mult.commute)
  have "10 \<le> v"
    using Suc.prems by (simp add: order_trans[OF _ Suc.prems(2)[simplified]])
  then have "dec v = dec (v div 10) @ [digit_char (v mod 10)]"
    by (subst dec.simps) simp
  also have "dec (v div 10) = pad_dec (Suc k) (v div 10)"
    by (rule Suc.IH) (use v in auto)
  finally show ?case by simp
qed

lemma dec_split: "0 < v div 10 ^ k \<Longrightarrow> dec v = dec (v div 10 ^ k) @ pad_dec k (v mod 10 ^ k)"
proof (induction k arbitrary: v)
  case (Suc k)
  have "v div 10 ^ Suc k = v div 10 div 10 ^ k" by (simp add: div_mult2_eq)
  with Suc.prems have pos: "0 < v div 10 div 10 ^ k" by simp
  then have "10 \<le> v" by (cases "v < 10") auto
  then have "dec v = dec (v div 10) @ [digit_char (v mod 10)]" by (subst dec.simps) simp
  also have "dec (v div 10) = dec (v div 10 div 10 ^ k) @ pad_dec k (v div 10 mod 10 ^ k)"
    by (rule Suc.IH[OF pos])
  finally show ?case
    using pad_dec_add[of k 1 "v mod 10 ^ Suc k"] by (simp add: div_mult2_eq mod_mult2_eq)
qed simp

section \<open>Signed words\<close>

lemma unat_minus_negative:
  fixes i :: "'a :: len word"
  assumes "sint i < 0"
  shows "unat (- i) = nat (- sint i)"
proof -
  have "uint (- i) = take_bit LENGTH('a) (- sint i)"
  proof -
    have "- i = word_of_int (- sint i)" by simp
    then show ?thesis by (metis uint_word_of_int_eq)
  qed
  moreover have "- sint i \<le> 2 ^ (LENGTH('a) - 1)"
    using sint_greater_eq[of i] by simp
  then have "- sint i < 2 ^ LENGTH('a)"
    by (rule le_less_trans) (simp add: power_strict_increasing_iff)
  ultimately have "uint (- i) = - sint i"
    using assms by (simp add: take_bit_int_eq_self)
  then show ?thesis by (simp add: unat_eq_nat_uint)
qed

lemma unat_nonnegative:
  fixes i :: "'a :: len word"
  assumes "\<not> sint i < 0"
  shows "unat i = nat (sint i)"
proof -
  have "sint i < 2 ^ LENGTH('a)"
    by (rule less_le_trans[OF sint_less]) (simp add: power_increasing)
  then have "uint i = sint i"
    using assms uint_sint[of i] by (simp add: take_bit_int_eq_self)
  then show ?thesis by (simp add: unat_eq_nat_uint)
qed

end
