(* ===== verification/CodeSink.thy ===== *)
theory CodeSink
  imports Prelude
begin

text \<open>
  \<open>CodePrinter\<close> (src/src/CreateDOM.cpp): the buffered writer every emitter prints through, with
  its column arithmetic, its 4096-byte line buffer and its write-if-changed \<open>finalize\<close>. The
  emitters only ever talk to a printer through \<open>printCode\<close> and \<open>linefeed\<close>, so the model of an
  emitter is the list of its calls (type \<open>code\<close>), and running the list on a printer is
  \<open>run_code\<close>. The locale \<open>code_sink\<close> is that interface: it promises that a call appends blanks
  and the text, and its lemmas carry lexical facts from a call list to the printed text.
\<close>

section \<open>State and operations\<close>

record CodePrinter =
  mLastLineFeed :: nat
  mOutput :: string
  mDestFileName :: string
  mFinalized :: bool

definition new_printer :: "string \<Rightarrow> CodePrinter" where
  "new_printer destFileName =
     \<lparr>mLastLineFeed = 0, mOutput = [], mDestFileName = destFileName, mFinalized = False\<rparr>"

definition doTell :: "CodePrinter \<Rightarrow> nat" where
  "doTell cp = length (mOutput cp)"

definition doPrintf :: "string \<Rightarrow> arg list \<Rightarrow> CodePrinter \<Rightarrow> CodePrinter" where
  "doPrintf fmt args cp = cp\<lparr>mOutput := mOutput cp @ snprintf 8192 fmt args\<rparr>"

fun repeat_printf :: "nat \<Rightarrow> string \<Rightarrow> CodePrinter \<Rightarrow> CodePrinter" where
  "repeat_printf 0 s cp = cp"
| "repeat_printf (Suc n) s cp = repeat_printf n s (doPrintf s [] cp)"

definition indent_to :: "nat \<Rightarrow> CodePrinter \<Rightarrow> CodePrinter" where
  "indent_to indent cp =
     (if indent = 0 then cp
      else
        (let currentPos = doTell cp - mLastLineFeed cp;
             indentLocation = indent * 4
         in if currentPos < indentLocation then
              (let nextTab = currentPos mod 4;
                   cp1 = repeat_printf nextTab '' '' cp;
                   currentPos' = currentPos + nextTab
               in if currentPos' < indentLocation then
                    (let indentCount = indentLocation - currentPos';
                         tabCount = indentCount div 4
                     in repeat_printf tabCount ''    '' cp1)
                  else cp1)
            else doPrintf '' '' [] cp))"

text \<open>The part of \<open>printCode\<close> after its own \<open>vsnprintf\<close>: \<open>buffer\<close> is the formatted text.\<close>

definition printCode_buf :: "nat \<Rightarrow> string \<Rightarrow> CodePrinter \<Rightarrow> CodePrinter" where
  "printCode_buf indent buffer cp =
     (let cp1 = doPrintf ''%s'' [S buffer] (indent_to indent cp)
      in if lf_char \<in> set buffer then cp1\<lparr>mLastLineFeed := doTell cp1\<rparr> else cp1)"

definition printCode :: "nat \<Rightarrow> string \<Rightarrow> arg list \<Rightarrow> CodePrinter \<Rightarrow> CodePrinter" where
  "printCode indent fmt args cp = printCode_buf indent (snprintf 4096 fmt args) cp"

definition linefeed :: "CodePrinter \<Rightarrow> CodePrinter" where
  "linefeed cp = printCode 0 [lf_char] [] cp"

text \<open>
  \<open>finalize\<close> and the files it works on: a file system maps names to contents, and \<open>writable\<close>
  says which names \<open>fopen(name, "wb")\<close> opens. An existing file can be read. \<open>dirs\<close> collects the
  names the program has passed to \<open>mkdir\<close>, \<open>writes\<close> the names it has opened for writing.
\<close>

record world =
  files :: "string \<rightharpoonup> string"
  writable :: "string \<Rightarrow> bool"
  dirs :: "string list"
  writes :: "string list"

definition needSave :: "CodePrinter \<Rightarrow> world \<Rightarrow> bool" where
  "needSave cp w =
     (case files w (mDestFileName cp) of
        None \<Rightarrow> True
      | Some old \<Rightarrow> \<not> (length old = length (mOutput cp) \<and> old = mOutput cp))"

definition finalize :: "CodePrinter \<Rightarrow> world \<Rightarrow> CodePrinter \<times> world" where
  "finalize cp w =
     (let cp' = cp\<lparr>mFinalized := True\<rparr>
      in if mDestFileName cp = [] then (cp', w)
         else if mOutput cp = [] then (cp', w)
         else if needSave cp w \<and> writable w (mDestFileName cp)
              then (cp', w\<lparr>files := (files w)(mDestFileName cp \<mapsto> mOutput cp),
                            writes := writes w @ [mDestFileName cp]\<rparr>)
              else (cp', w))"

text \<open>The destructor asserts that \<open>finalize\<close> ran.\<close>

definition destroy_printer :: "CodePrinter \<Rightarrow> fault + unit" where
  "destroy_printer cp = (if mFinalized cp then Inr () else Inl AssertFail)"

section \<open>Call lists\<close>

datatype pcall = PrintCode nat string | Abort fault

type_synonym code = "pcall list"

definition pc :: "nat \<Rightarrow> string \<Rightarrow> arg list \<Rightarrow> pcall" where
  "pc indent fmt args = PrintCode indent (snprintf 4096 fmt args)"

definition lf :: pcall where
  "lf = PrintCode 0 [lf_char]"

fun run_with :: "(nat \<Rightarrow> string \<Rightarrow> 's \<Rightarrow> 's) \<Rightarrow> code \<Rightarrow> 's \<Rightarrow> fault + 's" where
  "run_with put [] s = Inr s"
| "run_with put (PrintCode n t # cs) s = run_with put cs (put n t s)"
| "run_with put (Abort e # cs) s = Inl e"

definition run_code :: "code \<Rightarrow> CodePrinter \<Rightarrow> fault + CodePrinter" where
  "run_code = run_with printCode_buf"

text \<open>The text of a call list: what it prints, the padding aside.\<close>

fun code_text :: "code \<Rightarrow> string" where
  "code_text [] = []"
| "code_text (PrintCode n t # cs) = t @ code_text cs"
| "code_text (Abort e # cs) = []"

fun no_abort :: "code \<Rightarrow> bool" where
  "no_abort [] = True"
| "no_abort (PrintCode n t # cs) = no_abort cs"
| "no_abort (Abort e # cs) = False"

text \<open>A left-to-right scan of a text, and the scan of a call list.\<close>

fun scan :: "('q \<Rightarrow> char \<Rightarrow> 'q option) \<Rightarrow> 'q \<Rightarrow> string \<Rightarrow> 'q option" where
  "scan d q [] = Some q"
| "scan d q (c # cs) = (case d q c of None \<Rightarrow> None | Some q' \<Rightarrow> scan d q' cs)"

fun scan_code :: "('q \<Rightarrow> char \<Rightarrow> 'q option) \<Rightarrow> 'q \<Rightarrow> code \<Rightarrow> 'q option" where
  "scan_code d q [] = Some q"
| "scan_code d q (PrintCode n t # cs) =
     (case scan d q t of None \<Rightarrow> None | Some q' \<Rightarrow> scan_code d q' cs)"
| "scan_code d q (Abort e # cs) = None"

lemma run_with_append:
  "run_with put (xs @ ys) s = bind_fault (run_with put xs s) (run_with put ys)"
  by (induction put xs s rule: run_with.induct) auto

lemma run_code_append: "run_code (xs @ ys) s = bind_fault (run_code xs s) (run_code ys)"
  by (simp add: run_code_def run_with_append)

lemma no_abort_append [simp]: "no_abort (xs @ ys) \<longleftrightarrow> no_abort xs \<and> no_abort ys"
  by (induction xs rule: no_abort.induct) auto

lemma no_abort_concat [simp]: "no_abort (concat xss) \<longleftrightarrow> (\<forall>xs \<in> set xss. no_abort xs)"
  by (induction xss) auto

lemma no_abort_pc [simp]: "no_abort (pc n f as # cs) = no_abort cs"
  by (simp add: pc_def)

lemma no_abort_lf [simp]: "no_abort (lf # cs) = no_abort cs"
  by (simp add: lf_def)

lemma run_with_no_abort: "(\<exists>s'. run_with put cs s = Inr s') \<longleftrightarrow> no_abort cs"
  by (induction put cs s rule: run_with.induct) auto

lemma code_text_append: "no_abort xs \<Longrightarrow> code_text (xs @ ys) = code_text xs @ code_text ys"
  by (induction xs rule: no_abort.induct) auto

lemma scan_append:
  "scan d q (xs @ ys) = (case scan d q xs of None \<Rightarrow> None | Some q' \<Rightarrow> scan d q' ys)"
  by (induction d q xs rule: scan.induct) (auto split: option.splits)

lemma scan_code_append:
  "scan_code d q (xs @ ys) =
     (case scan_code d q xs of None \<Rightarrow> None | Some q' \<Rightarrow> scan_code d q' ys)"
  by (induction d q xs rule: scan_code.induct) (auto split: option.splits)

lemma scan_replicate: "d q c = Some q \<Longrightarrow> scan d q (replicate k c) = Some q"
  by (induction k) auto

section \<open>What one call prints\<close>

text \<open>The number of blanks \<open>indent_to\<close> prints at a given column.\<close>

definition padding :: "nat \<Rightarrow> nat \<Rightarrow> nat" where
  "padding indent cur =
     (if indent = 0 then 0
      else if indent * 4 \<le> cur then 1
      else cur mod 4 + (indent * 4 - (cur + cur mod 4)) div 4 * 4)"

definition column :: "CodePrinter \<Rightarrow> nat" where
  "column cp = doTell cp - mLastLineFeed cp"

lemma doPrintf_blank: "s = replicate k CHR '' '' \<Longrightarrow> k < 5 \<Longrightarrow>
  doPrintf s [] cp = cp\<lparr>mOutput := mOutput cp @ s\<rparr>"
proof -
  have fmt: "vformat (replicate k CHR '' '') [] = replicate k CHR '' ''" for k
  proof (induction k)
    case (Suc k)
    then show ?case by (cases k) auto
  qed simp
  show "s = replicate k CHR '' '' \<Longrightarrow> k < 5 \<Longrightarrow>
    doPrintf s [] cp = cp\<lparr>mOutput := mOutput cp @ s\<rparr>"
    by (simp add: doPrintf_def snprintf_def fmt)
qed

lemma blank_strings: "'' '' = replicate 1 CHR '' ''" "''    '' = replicate 4 CHR '' ''"
  by (simp_all add: numeral_eq_Suc)

lemma repeat_printf_blank:
  "s = replicate k CHR '' '' \<Longrightarrow> k < 5 \<Longrightarrow>
   repeat_printf n s cp = cp\<lparr>mOutput := mOutput cp @ replicate (n * k) CHR '' ''\<rparr>"
proof (induction n arbitrary: cp)
  case (Suc n)
  then show ?case
    by (simp add: doPrintf_blank[OF refl] replicate_add)
qed simp

lemmas repeat_blank =
  repeat_printf_blank[OF blank_strings(1)] repeat_printf_blank[OF blank_strings(2)]
  doPrintf_blank[OF blank_strings(1)]

lemma indent_to_output:
  "indent_to n cp = cp\<lparr>mOutput := mOutput cp @ replicate (padding n (column cp)) CHR '' ''\<rparr>"
  by (simp add: indent_to_def padding_def column_def Let_def repeat_blank replicate_add)

lemma printCode_buf_output:
  assumes "length t < 8192"
  shows "mOutput (printCode_buf n t cp) =
    mOutput cp @ replicate (padding n (column cp)) CHR '' '' @ t"
  using assms by (simp add: printCode_buf_def doPrintf_def indent_to_output Let_def)

lemma printCode_buf_frame [simp]:
  "mDestFileName (printCode_buf n t cp) = mDestFileName cp"
  "mFinalized (printCode_buf n t cp) = mFinalized cp"
  by (simp_all add: printCode_buf_def doPrintf_def indent_to_output Let_def)

section \<open>The interface of a sink\<close>

text \<open>
  What the emitters rely on: a call appends blanks and then the text. \<open>put\<close> is only promised to
  do so for the texts a 4096-byte buffer can hold.
\<close>

fun bounded :: "code \<Rightarrow> bool" where
  "bounded [] = True"
| "bounded (PrintCode n t # cs) = (length t < 4096 \<and> bounded cs)"
| "bounded (Abort e # cs) = bounded cs"

definition solid :: "string \<Rightarrow> string" where
  "solid t = filter (\<lambda>c. c \<noteq> CHR '' '') t"

locale code_sink =
  fixes put :: "nat \<Rightarrow> string \<Rightarrow> 's \<Rightarrow> 's" and contents :: "'s \<Rightarrow> string"
  assumes put_contents:
    "length t < 4096 \<Longrightarrow> \<exists>k. contents (put n t s) = contents s @ replicate k CHR '' '' @ t"
begin

lemma put_appends:
  assumes "bounded (PrintCode n t # cs)"
  obtains k where "contents (put n t s) = contents s @ replicate k CHR '' '' @ t"
  using assms put_contents[of t n s] by auto

lemma output_extends:
  "bounded cs \<Longrightarrow> run_with put cs s = Inr s' \<Longrightarrow> prefix (contents s) (contents s')"
proof (induction cs arbitrary: s)
  case (Cons c cs)
  show ?case
  proof (cases c)
    case (PrintCode n t)
    then obtain k where "contents (put n t s) = contents s @ replicate k CHR '' '' @ t"
      using Cons.prems put_appends by blast
    moreover have "prefix (contents (put n t s)) (contents s')"
      using Cons PrintCode by simp
    ultimately show ?thesis by (metis prefixI prefix_order.trans)
  qed (use Cons in simp)
qed simp

text \<open>A scan that ignores blanks sees the printed text as it sees the call list.\<close>

lemma scan_output:
  assumes blank: "\<And>q. d q CHR '' '' = Some q"
  shows "bounded cs \<Longrightarrow> run_with put cs s = Inr s' \<Longrightarrow> scan d q0 (contents s) = Some q \<Longrightarrow>
    scan d q0 (contents s') = scan_code d q cs"
proof (induction cs arbitrary: s q)
  case (Cons c cs)
  show ?case
  proof (cases c)
    case (PrintCode n t)
    then obtain k where k: "contents (put n t s) = contents s @ replicate k CHR '' '' @ t"
      using Cons.prems put_appends by blast
    have step: "scan d q0 (contents (put n t s)) = scan d q t"
      by (simp add: k scan_append Cons.prems blank scan_replicate)
    have run: "run_with put cs (put n t s) = Inr s'"
      using Cons.prems PrintCode by simp
    show ?thesis
    proof (cases "scan d q t")
      case None
      have "prefix (contents (put n t s)) (contents s')"
        using Cons.prems PrintCode run by (intro output_extends) auto
      then obtain r where "contents s' = contents (put n t s) @ r" by (auto elim: prefixE)
      with None step PrintCode show ?thesis by (simp add: scan_append)
    next
      case (Some q')
      with Cons PrintCode run step show ?thesis by simp
    qed
  qed (use Cons in simp)
qed simp

text \<open>Blanks aside, the contents are the concatenation of the texts.\<close>

lemma solid_output:
  "bounded cs \<Longrightarrow> run_with put cs s = Inr s' \<Longrightarrow>
   solid (contents s') = solid (contents s) @ solid (code_text cs)"
proof (induction cs arbitrary: s)
  case (Cons c cs)
  show ?case
  proof (cases c)
    case (PrintCode n t)
    then obtain k where "contents (put n t s) = contents s @ replicate k CHR '' '' @ t"
      using Cons.prems put_appends by blast
    moreover have "solid (contents s') = solid (contents (put n t s)) @ solid (code_text cs)"
      using Cons PrintCode by simp
    ultimately show ?thesis by (simp add: PrintCode solid_def)
  qed (use Cons in simp)
qed (simp add: solid_def)

end

interpretation printer: code_sink printCode_buf mOutput
  by unfold_locales (use printCode_buf_output in fastforce)

lemma bounded_append [simp]: "bounded (xs @ ys) \<longleftrightarrow> bounded xs \<and> bounded ys"
  by (induction xs rule: bounded.induct) auto

lemma bounded_pc [simp]: "bounded (pc n f as # cs) = bounded cs"
  by (simp add: pc_def length_snprintf)

lemma bounded_lf [simp]: "bounded (lf # cs) = bounded cs"
  by (simp add: lf_def)

lemma bounded_concat [simp]: "bounded (concat xss) \<longleftrightarrow> (\<forall>xs \<in> set xss. bounded xs)"
  by (induction xss) auto

section \<open>Where a call's text starts, and what \<open>finalize\<close> leaves on disk\<close>

lemma padding_below:
  assumes "q < n" "r < 4"
  shows "padding n (4 * q + r) =
    (if even r then 4 * (n - q) - r else if r = 3 \<and> n = q + 1 then 3 else 4 * (n - q) - 2 - r)"
proof -
  obtain m where n: "n = q + 1 + m" using assms(1) by (auto dest: less_imp_Suc_add)
  have "r = 0 \<or> r = 1 \<or> r = 2 \<or> r = 3" using assms(2) by auto
  moreover have "(4 * m + 2) div 4 = m" "(4 * m - 2) div 4 = m - 1"
    by (cases m; simp)+
  ultimately show ?thesis unfolding n by (cases m) (auto simp: padding_def)
qed

lemma padding_column:
  assumes "cur < 4 * n"
  shows "padding n cur =
    (if even cur then 4 * n - cur else if cur + 1 = 4 * n then 3 else 4 * n - 2 - cur)"
proof -
  define q r where qr: "q = cur div 4" "r = cur mod 4"
  then have cur: "cur = 4 * q + r" and r: "r < 4" and q: "q < n"
    using assms by auto
  have "4 * q + r + 1 = 4 * n \<longleftrightarrow> r = 3 \<and> n = q + 1" using r q by arith
  with padding_below[OF q r] q r show ?thesis
    unfolding cur by (auto simp: diff_mult_distrib2)
qed

text \<open>
  C19. Text printed with indent \<open>n\<close> on a line that has not reached column \<open>4 * n\<close> starts exactly
  there if the line has even length; behind an odd length it starts two columns early, or two
  columns late when only one column was left: the tab arithmetic adds \<open>currentPos % 4\<close> blanks
  where \<open>4 - currentPos % 4\<close> are missing.
\<close>
theorem printCode_start_column:
  assumes "length t < 8192" "column cp < 4 * n"
  shows "mOutput (printCode_buf n t cp) = mOutput cp @ replicate
      (if even (column cp) then 4 * n - column cp
       else if column cp + 1 = 4 * n then 3 else 4 * n - 2 - column cp) CHR '' '' @ t"
  using assms by (simp add: printCode_buf_output padding_column)

theorem printCode_start_column_witness:
  "mOutput (printCode_buf 1 ''x'' (new_printer ''f'')) = ''    x''"
  using printCode_start_column[of "''x''" "new_printer ''f''" 1]
  by (simp add: column_def doTell_def new_printer_def numeral_eq_Suc)

lemma needSave_iff: "needSave cp w \<longleftrightarrow> files w (mDestFileName cp) \<noteq> Some (mOutput cp)"
  by (auto simp: needSave_def split: option.splits)

text \<open>
  C17. After \<open>finalize\<close> a named printer with output has its text in its file whenever the file can
  be opened, and a file that is not written keeps its contents; it is opened for writing only when
  its contents differ from the output. No other file changes.
\<close>
theorem finalize_file:
  "files (snd (finalize cp w)) f =
     (if f = mDestFileName cp \<and> f \<noteq> [] \<and> mOutput cp \<noteq> [] \<and> writable w f
      then Some (mOutput cp) else files w f) \<and>
   writes (snd (finalize cp w)) =
     (if mDestFileName cp \<noteq> [] \<and> mOutput cp \<noteq> [] \<and> writable w (mDestFileName cp) \<and>
         files w (mDestFileName cp) \<noteq> Some (mOutput cp)
      then writes w @ [mDestFileName cp] else writes w)"
  by (auto simp: finalize_def needSave_iff Let_def)

text \<open>
  C18. A printer's text is what its callers printed: blanks aside, running the calls \<open>cs\<close> on a new
  printer leaves the texts of the calls, in order.
\<close>
theorem printed_text:
  assumes "bounded cs" "run_code cs (new_printer f) = Inr cp"
  shows "solid (mOutput cp) = solid (code_text cs)"
  using printer.solid_output[of cs "new_printer f" cp] assms
  by (simp add: run_code_def new_printer_def solid_def)

theorem printed_text_witness:
  "case run_code [pc 0 ''{'' [], pc 2 ''%s;'' [S ''x''], lf] (new_printer ''f'') of
     Inr cp \<Rightarrow> solid (mOutput cp) = ''{x;\<newline>'' | Inl e \<Rightarrow> False"
proof -
  let ?cs = "[pc 0 ''{'' [], pc 2 ''%s;'' [S ''x''], lf]"
  have "\<exists>cp. run_code ?cs (new_printer ''f'') = Inr cp"
    by (simp add: run_code_def run_with_no_abort)
  then obtain cp where cp: "run_code ?cs (new_printer ''f'') = Inr cp" by blast
  have "bounded ?cs" by simp
  from printed_text[OF this cp] cp show ?thesis
    by (simp add: solid_def pc_def lf_def snprintf_def lf_char_def)
qed

end
