(* ===== verification/DomModel.thy ===== *)
theory DomModel
  imports CodeSink
begin

text \<open>
  The data the generator works on (src/src/CreateDOM.cpp): \<open>MemberVariable\<close>, \<open>Object\<close> and
  \<open>DOM\<close> with the fields of the C++ classes (fields an \<open>Object\<close> shares with a
  \<open>MemberVariable\<close> carry the suffix \<open>O\<close>), the type-name tables, the member and class name
  helpers, and \<open>DOM::importComplete\<close> with the lookup table it builds. The locale \<open>type_table\<close>
  is the interface the emitters use to ask about a type name.
\<close>

section \<open>Types\<close>

datatype OptionalType = required | optional | optional_deserialize

datatype StandardType =
    st_none
  | u64_type | u32_type | u16_type | u8_type
  | i64_type | i32_type | i16_type | i8_type
  | float_type | double_type | bool_type | string_type

record MemberVariable =
  mIsArray :: bool
  mIsPointer :: bool
  mIsString :: bool
  mNeedsReflection :: bool
  mIsOptional :: OptionalType
  mIsMap :: bool
  mSerializeEnumAsInteger :: bool
  mMapType :: string
  mMember :: string
  mAlias :: string
  mType :: string
  mInheritsFrom :: string
  mProtoType :: string
  mEngineSpecific :: string
  mDefaultValue :: string
  mMinValue :: string
  mMaxValue :: string
  mShortDescription :: string
  mLongDescription :: string
  mQualifiedDefaultValue :: string

definition new_member :: MemberVariable where
  "new_member =
     \<lparr>mIsArray = False, mIsPointer = False, mIsString = False, mNeedsReflection = False,
      mIsOptional = required, mIsMap = False, mSerializeEnumAsInteger = False, mMapType = [],
      mMember = [], mAlias = [], mType = [], mInheritsFrom = [], mProtoType = [],
      mEngineSpecific = [], mDefaultValue = [], mMinValue = [], mMaxValue = [],
      mShortDescription = [], mLongDescription = [], mQualifiedDefaultValue = []\<rparr>"

record Object =
  mName :: string
  mTypeO :: string
  mInheritsFromO :: string
  mMultipleInherticance :: string
  mEngineSpecificO :: string
  mDefaultValueO :: string
  mAliasO :: string
  mShortDescriptionO :: string
  mLongDescriptionO :: string
  mChildren :: "string list"
  mClone :: bool
  mAssignment :: bool
  mNeedsReflectionO :: bool
  mIsEnum :: bool
  mIsClass :: bool
  mItems :: "MemberVariable list"

definition new_object :: Object where
  "new_object =
     \<lparr>mName = [], mTypeO = [], mInheritsFromO = [], mMultipleInherticance = [],
      mEngineSpecificO = [], mDefaultValueO = [], mAliasO = [], mShortDescriptionO = [],
      mLongDescriptionO = [], mChildren = [], mClone = False, mAssignment = False,
      mNeedsReflectionO = False, mIsEnum = False, mIsClass = False, mItems = []\<rparr>"

text \<open>\<open>mObjectMap\<close> holds pointers into \<open>mObjects\<close>; a pointer is the index it points at.\<close>

record DOM =
  mPlainOldData :: bool
  mNamespace :: string
  mDestDirD :: string
  mFilename :: string
  mURL :: string
  mExportXML :: string
  mObjects :: "Object list"
  mObjectMap :: "string \<rightharpoonup> nat"

definition new_dom :: DOM where
  "new_dom =
     \<lparr>mPlainOldData = False, mNamespace = [], mDestDirD = [], mFilename = [], mURL = [],
      mExportXML = [], mObjects = [], mObjectMap = Map.empty\<rparr>"

type_synonym ClassEnumMap = "string \<rightharpoonup> bool"

section \<open>Type names\<close>

definition getStandardType :: "string \<Rightarrow> StandardType" where
  "getStandardType type =
     (if type = ''u64'' then u64_type
      else if type = ''u32'' then u32_type
      else if type = ''u16'' then u16_type
      else if type = ''u8'' then u8_type
      else if type = ''i64'' then i64_type
      else if type = ''i32'' then i32_type
      else if type = ''i16'' then i16_type
      else if type = ''i8'' then i8_type
      else if type = ''float'' then float_type
      else if type = ''double'' then double_type
      else if type = ''bool'' then bool_type
      else if type = ''string'' then string_type
      else st_none)"

text \<open>The accessor name (\<open>None\<close> is the null pointer) and the flag \<open>isNumeric\<close>.\<close>

fun deserializeTypeName :: "StandardType \<Rightarrow> string option \<times> bool" where
  "deserializeTypeName st_none = (None, True)"
| "deserializeTypeName u64_type = (Some ''GetUint64'', True)"
| "deserializeTypeName u32_type = (Some ''GetUint'', True)"
| "deserializeTypeName u16_type = (Some ''GetUint16'', True)"
| "deserializeTypeName u8_type = (Some ''GetUint8'', True)"
| "deserializeTypeName i64_type = (Some ''GetInt64'', True)"
| "deserializeTypeName i32_type = (Some ''GetInt32'', True)"
| "deserializeTypeName i16_type = (Some ''GetInt16'', True)"
| "deserializeTypeName i8_type = (Some ''GetInt8'', True)"
| "deserializeTypeName float_type = (Some ''GetFloat'', False)"
| "deserializeTypeName double_type = (Some ''GetDouble'', False)"
| "deserializeTypeName bool_type = (Some ''GetBool'', False)"
| "deserializeTypeName string_type = (Some ''GetString'', False)"

definition isStandardType :: "string \<Rightarrow> bool" where
  "isStandardType type \<longleftrightarrow>
     type = ''u64'' \<or> type = ''u32'' \<or> type = ''u16'' \<or> type = ''u8'' \<or>
     type = ''i64'' \<or> type = ''i32'' \<or> type = ''i16'' \<or> type = ''i8'' \<or>
     type = ''float'' \<or> type = ''double'' \<or> type = ''bool''"

definition getCppTypeString :: "string \<Rightarrow> bool \<Rightarrow> string" where
  "getCppTypeString type isDef =
     (if type = ''string'' then (if isDef then ''std::string'' else ''const char *'')
      else if type = ''u8'' then ''uint8_t''
      else if type = ''u16'' then ''uint16_t''
      else if type = ''u32'' then ''uint32_t''
      else if type = ''u64'' then ''uint64_t''
      else if type = ''i8'' then ''int8_t''
      else if type = ''i16'' then ''int16_t''
      else if type = ''i32'' then ''int32_t''
      else if type = ''i64'' then ''int64_t''
      else type)"

definition getPROTOTypeString :: "string \<Rightarrow> string" where
  "getPROTOTypeString type =
     (if type = ''string'' then ''string''
      else if type = ''u8'' then ''uint32''
      else if type = ''u16'' then ''uint32''
      else if type = ''u32'' then ''uint32''
      else if type = ''u64'' then ''uint64''
      else if type = ''i8'' then ''int32''
      else if type = ''i16'' then ''int32''
      else if type = ''i32'' then ''int32''
      else if type = ''i64'' then ''int64''
      else type)"

text \<open>
  The name helpers print into static 512-byte buffers. A member name parsed from a CSV row has at
  most 510 bytes (\<open>CsvReader.parse_invariant\<close>), so the \<open>strncpy\<close> of
  \<open>getMemberName\<close> copies all of it.
\<close>

definition getClassNameString :: "string \<Rightarrow> bool \<Rightarrow> string" where
  "getClassNameString name isDef = (if isDef then snprintf 512 ''%sDef'' [S name] else name)"

definition upcase_first :: "string \<Rightarrow> string" where
  "upcase_first = map_first ascii_upper"

definition lowercase_first :: "string \<Rightarrow> string" where
  "lowercase_first = map_first ascii_lower"

definition getMemberName :: "string \<Rightarrow> bool \<Rightarrow> bool \<Rightarrow> string" where
  "getMemberName name isDef isMap =
     (if isDef then snprintf 512 ''m%s'' [S (upcase_first name)]
      else if isMap then snprintf 512 ''_%s'' [S name]
      else name)"

section \<open>Reflection\<close>

definition classNeedsReflection :: "string \<Rightarrow> string list \<Rightarrow> bool" where
  "classNeedsReflection className needsReflection \<longleftrightarrow> className \<in> set needsReflection"

definition needsReflection :: "MemberVariable \<Rightarrow> bool" where
  "needsReflection m \<longleftrightarrow> mIsArray m \<or> mIsPointer m \<or> mIsString m"

definition memberNeedsReflection :: "string list \<Rightarrow> MemberVariable \<Rightarrow> MemberVariable" where
  "memberNeedsReflection needsReflectionClasses m =
     m\<lparr>mNeedsReflection :=
        (if mIsPointer m \<or> mIsString m then True else mType m \<in> set needsReflectionClasses)\<rparr>"

text \<open>\<open>MemberVariable::init\<close>: the qualified default goes through a 512-byte buffer.\<close>

definition init_member :: "MemberVariable \<Rightarrow> MemberVariable" where
  "init_member m =
     (if mDefaultValue m \<noteq> []
      then m\<lparr>mQualifiedDefaultValue := snprintf 512 ''%s::%s'' [S (mType m), S (mDefaultValue m)]\<rparr>
      else m)"

definition computeNeedsReflection :: "string list \<Rightarrow> Object \<Rightarrow> Object \<times> string list" where
  "computeNeedsReflection needs ob =
     (let flag = list_ex needsReflection (mItems ob)
      in (ob\<lparr>mNeedsReflectionO := flag\<rparr>, if flag then needs @ [mName ob] else needs))"

definition computeReflectionMembers :: "string list \<Rightarrow> Object \<Rightarrow> Object" where
  "computeReflectionMembers needs ob =
     ob\<lparr>mItems := map (memberNeedsReflection needs) (mItems ob)\<rparr>"

section \<open>Completing an import\<close>

fun reflect_objects :: "string list \<Rightarrow> Object list \<Rightarrow> Object list \<times> string list" where
  "reflect_objects needs [] = ([], needs)"
| "reflect_objects needs (ob # obs) =
     (let (ob', needs') = computeNeedsReflection needs ob;
          (obs', needs'') = reflect_objects needs' obs
      in (ob' # obs', needs''))"

text \<open>The inner loop over \<open>j\<close>: the last matching base with a base of its own wins.\<close>

definition multiple_inheritance :: "Object list \<Rightarrow> Object \<Rightarrow> Object" where
  "multiple_inheritance obs i =
     (if mInheritsFromO i \<noteq> [] then
        fold (\<lambda>j i. if mInheritsFromO i = mName j \<and> mInheritsFromO j \<noteq> []
                    then i\<lparr>mMultipleInherticance := mInheritsFromO j\<rparr> else i) obs i
      else i)"

definition set_kind :: "Object \<Rightarrow> Object" where
  "set_kind i =
     (let i1 = (if stricmp0 (mTypeO i) ''Enum'' then i\<lparr>mIsEnum := True\<rparr> else i)
      in if stricmp0 (mTypeO i1) ''Class'' then i1\<lparr>mIsClass := True\<rparr> else i1)"

fun index_objects :: "nat \<Rightarrow> Object list \<Rightarrow> (string \<rightharpoonup> nat) \<Rightarrow> (string \<rightharpoonup> nat)" where
  "index_objects n [] m = m"
| "index_objects n (ob # obs) m = index_objects (Suc n) obs (m(mName ob \<mapsto> n))"

definition importComplete :: "DOM \<Rightarrow> DOM" where
  "importComplete dm =
     (let (obs1, needs) = reflect_objects [] (mObjects dm);
          obs2 = map (computeReflectionMembers needs) obs1;
          obs3 = map (multiple_inheritance obs2) obs2;
          obs4 = map set_kind obs3
      in dm\<lparr>mObjects := obs4, mObjectMap := index_objects 0 obs4 (mObjectMap dm)\<rparr>)"

definition findObject :: "DOM \<Rightarrow> string \<Rightarrow> Object option" where
  "findObject dm name =
     (case mObjectMap dm name of
        None \<Rightarrow> None
      | Some k \<Rightarrow> if k < length (mObjects dm) then Some (mObjects dm ! k) else None)"

definition typeInfo :: "DOM \<Rightarrow> string \<Rightarrow> Object option" where
  "typeInfo dm typeName = findObject dm typeName"

definition isEnumType :: "DOM \<Rightarrow> string \<Rightarrow> bool" where
  "isEnumType dm typeName =
     (case findObject dm typeName of None \<Rightarrow> False | Some type \<Rightarrow> mIsEnum type)"

definition isClassType :: "DOM \<Rightarrow> string \<Rightarrow> bool" where
  "isClassType dm typeName =
     (case findObject dm typeName of None \<Rightarrow> False | Some type \<Rightarrow> mIsClass type)"

text \<open>The map \<open>DOM::saveSerialize\<close> and \<open>DOM::saveDeserialize\<close> build.\<close>

definition classEnumMap :: "Object list \<Rightarrow> ClassEnumMap" where
  "classEnumMap obs = fold (\<lambda>i m. m(mName i \<mapsto> mIsEnum i)) obs Map.empty"

section \<open>The interface of a type table\<close>

text \<open>
  What the emitters ask a \<open>DOM\<close>: the object a type name stands for. Of several objects of one
  name the last one declared counts.
\<close>

definition named :: "string \<Rightarrow> Object \<Rightarrow> bool" where
  "named n = (\<lambda>ob. mName ob = n)"

lemma find_SomeD: "find P xs = Some x \<Longrightarrow> x \<in> set xs \<and> P x"
  by (induction xs) (auto split: if_splits)

locale type_table =
  fixes find_type :: "'t \<Rightarrow> string \<Rightarrow> Object option"
    and declared :: "'t \<Rightarrow> Object list"
    and complete :: "'t \<Rightarrow> bool"
  assumes find_last: "complete t \<Longrightarrow> find_type t n = find (named n) (rev (declared t))"
begin

lemma found_iff: "complete t \<Longrightarrow> find_type t n \<noteq> None \<longleftrightarrow> n \<in> mName ` set (declared t)"
  by (auto simp: find_last find_None_iff named_def image_iff)

lemma found_named: "complete t \<Longrightarrow> find_type t n = Some ob \<Longrightarrow> ob \<in> set (declared t) \<and> mName ob = n"
  by (auto simp: find_last named_def dest!: find_SomeD)

lemma found_distinct:
  assumes "complete t" "distinct (map mName (declared t))" "ob \<in> set (declared t)"
  shows "find_type t (mName ob) = Some ob"
proof -
  obtain ob' where ob': "find_type t (mName ob) = Some ob'"
    using found_iff[OF assms(1), of "mName ob"] assms(3) by auto
  with found_named[OF assms(1) this] assms show ?thesis
    by (auto simp: distinct_map inj_on_def)
qed

lemma enum_map_lookup:
  assumes "complete t"
  shows "classEnumMap (declared t) n = map_option mIsEnum (find_type t n)"
proof -
  have "fold (\<lambda>i m. m(mName i \<mapsto> mIsEnum i)) obs m n =
      (case find (named n) (rev obs) of None \<Rightarrow> m n | Some ob \<Rightarrow> Some (mIsEnum ob))" for obs m
    by (induction obs rule: rev_induct) (auto simp: named_def)
  then show ?thesis
    using assms by (simp add: classEnumMap_def find_last split: option.splits)
qed

end

definition indexed :: "DOM \<Rightarrow> bool" where
  "indexed dm \<longleftrightarrow> mObjectMap dm = index_objects 0 (mObjects dm) Map.empty"

lemma find_append: "find P (xs @ ys) = (case find P xs of None \<Rightarrow> find P ys | Some x \<Rightarrow> Some x)"
  by (induction xs) auto

lemma index_objects_lookup:
  "(case index_objects k obs m n of
      None \<Rightarrow> find (named n) (rev obs) = None \<and> m n = None
    | Some j \<Rightarrow>
        (case find (named n) (rev obs) of
           None \<Rightarrow> m n = Some j
         | Some ob \<Rightarrow> k \<le> j \<and> j < k + length obs \<and> ob = obs ! (j - k)))"
proof (induction obs arbitrary: k m)
  case (Cons ob obs)
  have "case index_objects (Suc k) obs (m(mName ob \<mapsto> k)) n of
      None \<Rightarrow> find (named n) (rev obs) = None \<and> (m(mName ob \<mapsto> k)) n = None
    | Some j \<Rightarrow>
        (case find (named n) (rev obs) of
           None \<Rightarrow> (m(mName ob \<mapsto> k)) n = Some j
         | Some ob' \<Rightarrow> Suc k \<le> j \<and> j < Suc k + length obs \<and> ob' = obs ! (j - Suc k))"
    by (rule Cons)
  then show ?case
    by (auto simp: find_append named_def nth_Cons' split: option.splits if_splits)
qed (auto split: option.splits)

lemma findObject_last:
  assumes "indexed dm"
  shows "findObject dm n = find (named n) (rev (mObjects dm))"
  using assms index_objects_lookup[where k = 0 and obs = "mObjects dm" and m = Map.empty and n = n]
  by (auto simp: findObject_def indexed_def split: option.splits)

interpretation types: type_table findObject mObjects indexed
  by unfold_locales (rule findObject_last)

section \<open>What an import computes\<close>

text \<open>The result, object by object.\<close>

definition reflecting_names :: "Object list \<Rightarrow> string list" where
  "reflecting_names obs = map mName (filter (\<lambda>ob. list_ex needsReflection (mItems ob)) obs)"

definition completed :: "Object list \<Rightarrow> Object \<Rightarrow> Object" where
  "completed obs ob =
     ob\<lparr>mNeedsReflectionO := list_ex needsReflection (mItems ob),
        mItems := map (\<lambda>i. i\<lparr>mNeedsReflection :=
          mIsPointer i \<or> mIsString i \<or> mType i \<in> set (reflecting_names obs)\<rparr>) (mItems ob),
        mMultipleInherticance :=
          (case find (\<lambda>j. mName j = mInheritsFromO ob \<and> mInheritsFromO j \<noteq> []) (rev obs) of
             Some j \<Rightarrow> if mInheritsFromO ob \<noteq> [] then mInheritsFromO j else mMultipleInherticance ob
           | None \<Rightarrow> mMultipleInherticance ob),
        mIsEnum := mIsEnum ob \<or> stricmp0 (mTypeO ob) ''Enum'',
        mIsClass := mIsClass ob \<or> stricmp0 (mTypeO ob) ''Class''\<rparr>"

definition flagged :: "Object \<Rightarrow> Object" where
  "flagged ob = ob\<lparr>mNeedsReflectionO := list_ex needsReflection (mItems ob)\<rparr>"

lemma reflect_objects_eq:
  "reflect_objects needs obs = (map flagged obs, needs @ reflecting_names obs)"
  by (induction needs obs rule: reflect_objects.induct)
    (auto simp: computeNeedsReflection_def flagged_def reflecting_names_def Let_def)

lemma multiple_inheritance_eq:
  "multiple_inheritance obs i =
     (case find (\<lambda>j. mName j = mInheritsFromO i \<and> mInheritsFromO j \<noteq> []) (rev obs) of
        Some j \<Rightarrow> if mInheritsFromO i \<noteq> [] then i\<lparr>mMultipleInherticance := mInheritsFromO j\<rparr> else i
      | None \<Rightarrow> i)"
proof -
  have step: "mInheritsFromO i = b \<Longrightarrow>
      fold (\<lambda>j i. if mInheritsFromO i = mName j \<and> mInheritsFromO j \<noteq> []
         then i\<lparr>mMultipleInherticance := mInheritsFromO j\<rparr> else i) obs i =
      (case find (\<lambda>j. mName j = b \<and> mInheritsFromO j \<noteq> []) (rev obs) of
         Some j \<Rightarrow> i\<lparr>mMultipleInherticance := mInheritsFromO j\<rparr> | None \<Rightarrow> i)" for b
    by (induction obs rule: rev_induct) (auto split: option.splits)
  show ?thesis
    using step[OF refl] by (auto simp: multiple_inheritance_def split: option.splits)
qed

lemma find_map_rev:
  "(\<And>x. P (f x) = P x) \<Longrightarrow> find P (rev (map f xs)) = map_option f (find P (rev xs))"
  by (induction xs rule: rev_induct) auto

lemma import_objects:
  "mObjects (importComplete dm) = map (completed (mObjects dm)) (mObjects dm)"
proof -
  let ?obs = "mObjects dm"
  define f where "f = (\<lambda>ob. computeReflectionMembers (reflecting_names ?obs) (flagged ob))"
  have f: "mName (f ob) = mName ob" "mInheritsFromO (f ob) = mInheritsFromO ob" for ob
    by (simp_all add: f_def computeReflectionMembers_def flagged_def)
  have objs: "mObjects (importComplete dm) =
      map (\<lambda>ob. set_kind (multiple_inheritance (map f ?obs) (f ob))) ?obs"
    by (simp add: importComplete_def reflect_objects_eq Let_def f_def comp_def)
  have "set_kind (multiple_inheritance (map f ?obs) (f ob)) = completed ?obs ob" for ob
    unfolding multiple_inheritance_eq
    by (subst find_map_rev) (auto simp: f set_kind_def completed_def f_def computeReflectionMembers_def
        flagged_def memberNeedsReflection_def Let_def split: option.splits)
  with objs show ?thesis by simp
qed

lemma index_objects_add: "index_objects k obs m = m ++ index_objects k obs Map.empty"
proof (induction obs arbitrary: k m)
  case (Cons ob obs)
  have IH: "index_objects (Suc k) obs m' = m' ++ index_objects (Suc k) obs Map.empty" for m'
    by (rule Cons)
  let ?F = "index_objects (Suc k) obs Map.empty"
  have "index_objects k (ob # obs) m = m(mName ob \<mapsto> k) ++ ?F"
    by (simp only: index_objects.simps IH[of "m(mName ob \<mapsto> k)"])
  also have "\<dots> = m ++ ([mName ob \<mapsto> k] ++ ?F)"
    by (rule ext) (simp add: map_add_def split: option.split)
  also have "[mName ob \<mapsto> k] ++ ?F = index_objects k (ob # obs) Map.empty"
    by (simp only: index_objects.simps IH[of "[mName ob \<mapsto> k]"])
  finally show ?case .
qed simp

lemma import_indexed: "mObjectMap dm = Map.empty \<Longrightarrow> indexed (importComplete dm)"
  by (simp add: importComplete_def indexed_def Let_def split: prod.splits)

text \<open>
  C5. After an import a type name stands for the last object declared under it, and for nothing
  when no object has the name.
\<close>
theorem findObject_after_import:
  assumes "mObjectMap dm = Map.empty"
  shows "findObject (importComplete dm) n = find (named n) (rev (mObjects (importComplete dm)))"
  using import_indexed[OF assms] by (rule types.find_last)

text \<open>
  C8. The map the serializers consult and the type table agree: a name is in it exactly when it is
  declared, with the flag that \<open>isEnumType\<close> reads.
\<close>
theorem class_enum_map_agrees:
  assumes "mObjectMap dm = Map.empty"
  shows "classEnumMap (mObjects (importComplete dm)) n =
    (if findObject (importComplete dm) n = None then None
     else Some (isEnumType (importComplete dm) n))"
  using types.enum_map_lookup[OF import_indexed[OF assms], of n]
  by (auto simp: isEnumType_def split: option.splits)


lemma completed_completed:
  "completed (map (completed obs) obs) (completed obs ob) = completed obs ob"
proof -
  have own: "list_ex needsReflection (mItems (completed obs ob)) = list_ex needsReflection (mItems ob)"
    "mName (completed obs ob) = mName ob" "mInheritsFromO (completed obs ob) = mInheritsFromO ob" for ob
    by (simp_all add: completed_def list_ex_iff needsReflection_def)
  have names: "reflecting_names (map (completed obs) obs) = reflecting_names obs"
    by (simp add: reflecting_names_def filter_map comp_def own)
  have bases: "find (\<lambda>j. mName j = b \<and> mInheritsFromO j \<noteq> []) (rev (map (completed obs) obs)) =
      map_option (completed obs) (find (\<lambda>j. mName j = b \<and> mInheritsFromO j \<noteq> []) (rev obs))" for b
    by (rule find_map_rev) (simp add: own)
  show ?thesis
    by (subst (1) completed_def, subst (5) completed_def)
      (simp add: names bases own, auto simp: completed_def list_ex_iff needsReflection_def
        split: option.splits)
qed

text \<open>
  C9. Completing an import twice changes nothing: \<open>parseCSV\<close> may run again on what it has built.
\<close>
theorem import_idempotent:
  assumes "mObjectMap dm = Map.empty"
  shows "importComplete (importComplete dm) = importComplete dm"
proof -
  have import: "importComplete d = d\<lparr>mObjects := map (completed (mObjects d)) (mObjects d),
      mObjectMap := index_objects 0 (map (completed (mObjects d)) (mObjects d)) (mObjectMap d)\<rparr>" for d
    using import_objects[of d] by (simp add: importComplete_def Let_def split: prod.splits)
  have twice: "map (completed (map (completed obs) obs)) (map (completed obs) obs) =
      map (completed obs) obs" for obs
    by (simp add: completed_completed)
  define obs where "obs = map (completed (mObjects dm)) (mObjects dm)"
  define d where "d = dm\<lparr>mObjects := obs, mObjectMap := index_objects 0 obs Map.empty\<rparr>"
  have "importComplete dm = d"
    unfolding import[of dm] d_def obs_def assms by simp
  moreover have "m ++ m = m" for m :: "string \<rightharpoonup> nat"
    by (rule ext) (simp add: map_add_def split: option.split)
  then have "importComplete d = d"
    using index_objects_add[of 0 obs "index_objects 0 obs Map.empty"] twice[of "mObjects dm"]
    unfolding import[of d] by (simp add: d_def flip: obs_def)
  ultimately show ?thesis by simp
qed

text \<open>A schema on which the hypotheses hold.\<close>

definition demo_types :: DOM where
  "demo_types = new_dom\<lparr>mObjects :=
     [new_object\<lparr>mName := ''Color'', mTypeO := ''Enum''\<rparr>,
      new_object\<lparr>mName := ''Shape'', mTypeO := ''Class''\<rparr>,
      new_object\<lparr>mName := ''Color'', mTypeO := ''Class''\<rparr>]\<rparr>"

lemma demo_types_empty: "mObjectMap demo_types = Map.empty"
  by (simp add: demo_types_def new_dom_def)

theorem findObject_after_import_witness:
  "map_option mTypeO (findObject (importComplete demo_types) ''Color'') = Some ''Class''"
  unfolding findObject_after_import[OF demo_types_empty] import_objects
  by (simp add: demo_types_def completed_def named_def)

theorem class_enum_map_agrees_witness:
  "classEnumMap (mObjects (importComplete demo_types)) ''Vec4'' =
    (if findObject (importComplete demo_types) ''Vec4'' = None then None
     else Some (isEnumType (importComplete demo_types) ''Vec4''))"
  by (rule class_enum_map_agrees[OF demo_types_empty])

theorem import_idempotent_witness:
  "importComplete (importComplete demo_types) = importComplete demo_types"
  by (rule import_idempotent[OF demo_types_empty])

end
