(* ===== verification/CsvReader.thy ===== *)
theory CsvReader
  imports DomModel
begin

text \<open>
  \<open>CreateDOMDef::parseCSV\<close> and \<open>CreateDOMDef::processArgs\<close> (src/src/CreateDOM.cpp): the
  in-place scanner that cuts a file into rows of at most \<open>MAX_ARGV\<close> fields, and the row handler
  that builds the \<open>DOM\<close>. The scanner stores a NUL behind every field and never reads behind its
  position again, so a field pointer is modelled by the characters in front of that NUL. A
  129th field is a write past \<open>argv\<close>: the fault \<open>ArgvOverflow\<close>.
\<close>

section \<open>The scanner\<close>

definition max_argv :: nat where
  "max_argv = 128"

definition is_lf :: "char \<Rightarrow> bool" where
  "is_lf c \<longleftrightarrow> c = lf_char \<or> c = cr_char"

definition is_delim :: "char \<Rightarrow> bool" where
  "is_delim c \<longleftrightarrow> c = CHR '','' \<or> is_lf c"

definition quote :: char where
  "quote = CHR 0x22"

text \<open>
  One field: the text it denotes, and the input from its delimiter on (\<open>[]\<close> at the end of the
  data). Characters between a closing quote and the delimiter are skipped.
\<close>

definition scan_field :: "string \<Rightarrow> string \<times> string" where
  "scan_field s =
     (case s of
        [] \<Rightarrow> ([], [])
      | c # r \<Rightarrow>
          (if c = quote then
             (let body = takeWhile (\<lambda>c. c \<noteq> quote) r;
                  rest = drop 1 (dropWhile (\<lambda>c. c \<noteq> quote) r)
              in (body, dropWhile (\<lambda>c. \<not> is_delim c) rest))
           else (takeWhile (\<lambda>c. \<not> is_delim c) s, dropWhile (\<lambda>c. \<not> is_delim c) s)))"

lemma scan_field_length: "length (snd (scan_field s)) \<le> length s"
proof (cases s)
  case (Cons c r)
  let ?rest = "drop 1 (dropWhile (\<lambda>c. c \<noteq> quote) r)"
  have "length (dropWhile (\<lambda>c. \<not> is_delim c) ?rest) \<le> length ?rest"
    by (rule length_dropWhile_le)
  also have "\<dots> \<le> length (dropWhile (\<lambda>c. c \<noteq> quote) r)"
    by simp
  also have "\<dots> \<le> length r"
    by (rule length_dropWhile_le)
  finally have quoted: "length (dropWhile (\<lambda>c. \<not> is_delim c) ?rest) \<le> length r" .
  have plain: "length (dropWhile (\<lambda>c. \<not> is_delim c) s) \<le> length s"
    by (rule length_dropWhile_le)
  show ?thesis
  proof (cases "c = quote")
    case True
    with quoted Cons show ?thesis by (simp add: scan_field_def Let_def)
  next
    case False
    with plain Cons show ?thesis by (simp add: scan_field_def)
  qed
qed (simp add: scan_field_def)

text \<open>
  One row: \<open>None\<close> when the data ends before a line feed (the row is then not processed), else its
  fields, and the input behind it.
\<close>

function scan_row :: "string list \<Rightarrow> string \<Rightarrow> fault + (string list option \<times> string)" where
  "scan_row argv s =
     (if length argv = max_argv then Inl ArgvOverflow
      else
        (let (f, r) = scan_field s;
             argv' = argv @ [f]
         in case r of
              [] \<Rightarrow> Inr (None, [])
            | c # r' \<Rightarrow> if is_lf c then Inr (Some argv', r') else scan_row argv' r'))"
  by pat_completeness auto
termination
proof (relation "measure (length \<circ> snd)", goal_cases)
  case (2 argv s x f r argv' c r')
  then show ?case using scan_field_length[of s] by (metis comp_apply in_measure length_Cons
        less_le_trans lessI snd_conv)
qed simp

declare scan_row.simps [simp del]

lemma scan_row_shorter: "scan_row argv s = Inr (Some a, r) \<Longrightarrow> length r < length s"
proof (induction argv s rule: scan_row.induct)
  case (1 argv s)
  obtain f t where ft: "scan_field s = (f, t)" by fastforce
  with scan_field_length[of s] have len: "length t \<le> length s" by simp
  from "1.prems" have room: "length argv \<noteq> max_argv"
    by (auto simp: scan_row.simps[of argv s])
  show ?case
  proof (cases t)
    case Nil
    with "1.prems" ft room show ?thesis by (simp add: scan_row.simps[of argv s])
  next
    case (Cons c t')
    show ?thesis
    proof (cases "is_lf c")
      case True
      with "1.prems" ft room Cons len show ?thesis by (simp add: scan_row.simps[of argv s])
    next
      case False
      with "1.prems" ft room Cons have "scan_row (argv @ [f]) t' = Inr (Some a, r)"
        by (simp add: scan_row.simps[of argv s])
      with "1.IH" room ft Cons False have "length r < length t'" by auto
      with len Cons show ?thesis by simp
    qed
  qed
qed

text \<open>The loop over the rows; \<open>h\<close> is \<open>processArgs\<close> and \<open>eof\<close> reads \<open>mEndOfFile\<close>.\<close>

function csv_loop ::
  "('s \<Rightarrow> string list \<Rightarrow> fault + 's) \<Rightarrow> ('s \<Rightarrow> bool) \<Rightarrow> 's \<Rightarrow> string \<Rightarrow> fault + 's"
where
  "csv_loop h eof st s =
     (if s = [] \<or> eof st then Inr st
      else
        (let s1 = dropWhile is_lf s
         in if s1 = [] then Inr st
            else (case scan_row [] s1 of
                    Inl e \<Rightarrow> Inl e
                  | Inr (None, r) \<Rightarrow> Inr st
                  | Inr (Some argv, r) \<Rightarrow>
                      (case h st argv of
                         Inl e \<Rightarrow> Inl e
                       | Inr st' \<Rightarrow> csv_loop h eof st' r))))"
  by pat_completeness auto
termination
proof (relation "measure (\<lambda>(h, eof, st, s). length s)", goal_cases)
  case (2 h eof st s s1 b a r argv st')
  then have "length r < length (dropWhile is_lf s)"
    by (auto dest: scan_row_shorter)
  then show ?case by (simp add: order_less_le_trans[OF _ length_dropWhile_le])
qed simp

declare csv_loop.simps [simp del]

section \<open>The row handler\<close>

record CreateDOMDef =
  mEndOfFile :: bool
  mHaveObject :: bool
  mCurrentObject :: Object
  mDOM :: DOM
  mDestDir :: string

definition create :: "string \<Rightarrow> CreateDOMDef" where
  "create destDir =
     \<lparr>mEndOfFile = False, mHaveObject = False, mCurrentObject = new_object, mDOM = new_dom,
      mDestDir = destDir\<rparr>"

definition getBool :: "string \<Rightarrow> bool" where
  "getBool str \<longleftrightarrow> atoi str \<noteq> 0 \<or> stricmp0 str ''true''"

text \<open>The copy loop into \<open>tempValue\<close>: \<open>n\<close> is the room left in front of \<open>eos\<close>.\<close>

fun copy_name :: "nat \<Rightarrow> string \<Rightarrow> OptionalType \<Rightarrow> string \<times> OptionalType" where
  "copy_name n [] opt = ([], opt)"
| "copy_name 0 (c # cs) opt = ([], opt)"
| "copy_name (Suc n) (c # cs) opt =
     (if c = CHR ''?'' then copy_name (Suc n) cs optional
      else if c = CHR ''!'' then copy_name (Suc n) cs optional_deserialize
      else (let (t, opt') = copy_name n cs opt in (c # t, opt')))"

text \<open>
  \<open>[key:type]\<close> at the front of a copied name: the member name, whether it is a map, and the key
  type. A bracket with no colon or no closing bracket is an assertion failure.
\<close>

definition map_name :: "string \<Rightarrow> fault + (string \<times> bool \<times> string)" where
  "map_name tempValue =
     (case tempValue of
        [] \<Rightarrow> Inr ([], False, [])
      | c # rest \<Rightarrow>
          (if c \<noteq> CHR ''['' then Inr (tempValue, False, [])
           else (case split_at CHR '':'' rest of
                   None \<Rightarrow> Inl AssertFail
                 | Some (memberName, colon) \<Rightarrow>
                     (case split_at CHR '']'' colon of
                        None \<Rightarrow> Inl AssertFail
                      | Some (mapType, _) \<Rightarrow> Inr (memberName, True, mapType)))))"

text \<open>The 512-byte \<open>type\<close> buffer: cut at the first \<open>!\<close>, undefined when no terminator fits.\<close>

definition type_field :: "string \<Rightarrow> fault + (string \<times> bool)" where
  "type_field s =
     (case split_at CHR ''!'' (take 512 s) of
        Some (a, _) \<Rightarrow> Inr (a, True)
      | None \<Rightarrow> (if length s < 512 then Inr (s, False) else Inl UnterminatedBuffer))"

text \<open>The columns of a member row behind its name, as the nested \<open>argc\<close> tests read them.\<close>

definition member_columns :: "string list \<Rightarrow> MemberVariable \<Rightarrow> MemberVariable" where
  "member_columns argv di =
     (let argc = length argv;
          di = (if 4 \<le> argc then
                  (if prefix ''PROTO:'' (argv ! 3)
                   then di\<lparr>mProtoType := drop 6 (argv ! 3)\<rparr>
                   else di\<lparr>mInheritsFrom := argv ! 3\<rparr>)
                else di);
          di = (if 5 \<le> argc then di\<lparr>mEngineSpecific := argv ! 4\<rparr> else di);
          di = (if 6 \<le> argc then di\<lparr>mDefaultValue := argv ! 5\<rparr> else di);
          di = (if 7 \<le> argc then di\<lparr>mMinValue := argv ! 6\<rparr> else di);
          di = (if 8 \<le> argc then di\<lparr>mMaxValue := argv ! 7\<rparr> else di);
          di = (if 9 \<le> argc then di\<lparr>mAlias := argv ! 8\<rparr> else di);
          di = (if 10 \<le> argc then di\<lparr>mShortDescription := argv ! 9\<rparr> else di)
      in if 11 \<le> argc then di\<lparr>mLongDescription := argv ! 10\<rparr> else di)"

definition member_of_row :: "string list \<Rightarrow> fault + MemberVariable" where
  "member_of_row argv =
     (let dataItemName = argv ! 1;
          pointer = split_at CHR ''*'' dataItemName;
          array = split_at CHR ''['' (tl dataItemName);
          name = (case array of
                    Some (a, _) \<Rightarrow> hd dataItemName # a
                  | None \<Rightarrow> (case pointer of Some (p, _) \<Rightarrow> p | None \<Rightarrow> dataItemName));
          (tempValue, opt) = copy_name 510 name required
      in bind_fault (map_name tempValue) (\<lambda>(memberName, isMap, mapType).
           let di = new_member\<lparr>mIsOptional := opt, mIsMap := isMap, mMapType := mapType,
                      mMember := memberName, mIsArray := array \<noteq> None,
                      mIsPointer := pointer \<noteq> None\<rparr>
           in if 3 \<le> length argv then
                bind_fault (type_field (argv ! 2)) (\<lambda>(type, asInteger).
                  Inr (init_member (member_columns argv
                    (di\<lparr>mSerializeEnumAsInteger := asInteger, mType := type,
                        mIsString := type = ''string''\<rparr>))))
              else Inr (init_member di)))"

text \<open>The columns of an object row.\<close>

definition object_columns :: "string list \<Rightarrow> Object \<Rightarrow> Object" where
  "object_columns argv ob =
     (let argc = length argv;
          ob = ob\<lparr>mName := argv ! 0\<rparr>;
          ob = (if 3 \<le> argc then ob\<lparr>mTypeO := argv ! 2\<rparr> else ob);
          ob = (if 4 \<le> argc then ob\<lparr>mInheritsFromO := argv ! 3\<rparr> else ob);
          ob = (if 5 \<le> argc then ob\<lparr>mEngineSpecificO := argv ! 4\<rparr> else ob);
          ob = (if 6 \<le> argc then
                  (if stricmp0 (argv ! 5) ''CLONE'' then ob\<lparr>mClone := True\<rparr>
                   else if stricmp0 (argv ! 5) ''ASSIGNMENT'' then ob\<lparr>mAssignment := True\<rparr>
                   else ob)
                else ob);
          ob = (if 9 \<le> argc then ob\<lparr>mAliasO := argv ! 8\<rparr> else ob);
          ob = (if 10 \<le> argc then ob\<lparr>mShortDescriptionO := argv ! 9\<rparr> else ob)
      in if 11 \<le> argc then ob\<lparr>mLongDescriptionO := argv ! 10\<rparr> else ob)"

definition add_child :: "string \<Rightarrow> string \<Rightarrow> Object \<Rightarrow> Object" where
  "add_child base child j =
     (if mName j = base then j\<lparr>mChildren := mChildren j @ [child]\<rparr> else j)"

definition object_row :: "string list \<Rightarrow> CreateDOMDef \<Rightarrow> CreateDOMDef" where
  "object_row argv st =
     (let st1 = (if mHaveObject st
                 then st\<lparr>mDOM := (mDOM st)\<lparr>mObjects := mObjects (mDOM st) @ [mCurrentObject st]\<rparr>,
                         mCurrentObject := new_object\<rparr>
                 else st);
          ob = object_columns argv (mCurrentObject st1);
          obs = mObjects (mDOM st1);
          obs' = (if 4 \<le> length argv
                  then map (add_child (argv ! 3) (argv ! 0)) obs else obs)
      in st1\<lparr>mHaveObject := True, mCurrentObject := ob, mDOM := (mDOM st1)\<lparr>mObjects := obs'\<rparr>\<rparr>)"

definition member_row :: "string list \<Rightarrow> CreateDOMDef \<Rightarrow> fault + CreateDOMDef" where
  "member_row argv st =
     bind_fault (member_of_row argv) (\<lambda>di.
       Inr (st\<lparr>mCurrentObject :=
              (mCurrentObject st)\<lparr>mItems := mItems (mCurrentObject st) @ [di]\<rparr>\<rparr>))"

definition processArgs :: "CreateDOMDef \<Rightarrow> string list \<Rightarrow> fault + CreateDOMDef" where
  "processArgs st argv =
     (let argc = length argv;
          a0 = argv ! 0;
          setting = (\<lambda>f. Inr (if 2 \<le> argc then st\<lparr>mDOM := f (argv ! 1) (mDOM st)\<rparr> else st))
      in if mEndOfFile st then Inr st
         else if stricmp0 a0 ''EOF'' then Inr (st\<lparr>mEndOfFile := True\<rparr>)
         else if stricmp0 a0 ''Filename'' then setting (\<lambda>v d. d\<lparr>mFilename := v\<rparr>)
         else if stricmp0 a0 ''Namespace'' then setting (\<lambda>v d. d\<lparr>mNamespace := v\<rparr>)
         else if stricmp0 a0 ''POD'' then setting (\<lambda>v d. d\<lparr>mPlainOldData := getBool v\<rparr>)
         else if stricmp0 a0 ''ExportXML'' then setting (\<lambda>v d. d\<lparr>mExportXML := v\<rparr>)
         else if stricmp0 a0 ''URL'' then setting (\<lambda>v d. d\<lparr>mURL := v\<rparr>)
         else if stricmp0 a0 ''ObjectName'' then Inr st
         else if a0 \<noteq> [] then Inr (object_row argv st)
         else if 2 \<le> argc \<and> argv ! 1 \<noteq> [] then member_row argv st
         else Inr st)"

section \<open>Reading a file\<close>

definition flush_object :: "CreateDOMDef \<Rightarrow> CreateDOMDef" where
  "flush_object st =
     (if mHaveObject st
      then st\<lparr>mDOM := (mDOM st)\<lparr>mObjects := mObjects (mDOM st) @ [mCurrentObject st]\<rparr>,
              mCurrentObject := new_object, mHaveObject := False\<rparr>
      else st)"

text \<open>The argument is the file's contents, \<open>None\<close> when it cannot be opened.\<close>

definition parseCSV :: "string option \<Rightarrow> CreateDOMDef \<Rightarrow> fault + CreateDOMDef" where
  "parseCSV file st =
     (case file of
        None \<Rightarrow> Inr st
      | Some data \<Rightarrow>
          bind_fault
            (if data \<noteq> []
             then csv_loop processArgs mEndOfFile (st\<lparr>mEndOfFile := False\<rparr>)
                    (takeWhile (\<lambda>c. c \<noteq> nul) data)
             else Inr st)
            (\<lambda>st. let st = flush_object st
                  in Inr (st\<lparr>mDOM := importComplete (mDOM st)\<rparr>)))"

section \<open>Printed rows\<close>

text \<open>
  A row as a spreadsheet exports it, every field quoted. The fields of \<open>quotable\<close> rows hold any
  characters but the quote and NUL.
\<close>

definition print_field :: "string \<Rightarrow> string" where
  "print_field f = quote # f @ [quote]"

fun print_row :: "string list \<Rightarrow> string" where
  "print_row [] = [lf_char]"
| "print_row [f] = print_field f @ [lf_char]"
| "print_row (f # g # fs) = print_field f @ CHR '','' # print_row (g # fs)"

definition print_rows :: "string list list \<Rightarrow> string" where
  "print_rows rows = concat (map print_row rows)"

definition quotable :: "string \<Rightarrow> bool" where
  "quotable f \<longleftrightarrow> quote \<notin> set f \<and> nul \<notin> set f"

definition good_row :: "string list \<Rightarrow> bool" where
  "good_row fs \<longleftrightarrow> fs \<noteq> [] \<and> length fs \<le> max_argv \<and> (\<forall>f \<in> set fs. quotable f)"

lemma delim_simps [simp]:
  "is_lf lf_char" "is_delim lf_char" "is_delim CHR '',''" "\<not> is_lf CHR '',''"
  "\<not> is_lf quote" "\<not> is_delim quote" "lf_char \<noteq> quote" "quote \<noteq> lf_char"
  by (simp_all add: is_lf_def is_delim_def lf_char_def cr_char_def quote_def)

lemma is_delim_lf: "is_lf c \<Longrightarrow> is_delim c"
  by (simp add: is_delim_def)

lemma scan_field_quoted:
  assumes "quotable f" "is_delim c"
  shows "scan_field (print_field f @ c # r) = (f, c # r)"
proof -
  have notin: "\<And>x. x \<in> set f \<Longrightarrow> x \<noteq> quote"
    using assms(1) by (auto simp: quotable_def)
  then have "takeWhile (\<lambda>c. c \<noteq> quote) (f @ quote # c # r) = f"
    "dropWhile (\<lambda>c. c \<noteq> quote) (f @ quote # c # r) = quote # c # r"
    by simp_all
  with assms(2) show ?thesis
    by (simp add: scan_field_def print_field_def)
qed

lemma scan_row_print:
  assumes "fs \<noteq> []" "\<forall>f \<in> set fs. quotable f" "length argv \<le> max_argv"
  shows "scan_row argv (print_row fs @ rest) =
    (if length argv + length fs \<le> max_argv then Inr (Some (argv @ fs), rest)
     else Inl ArgvOverflow)"
  using assms
proof (induction fs arbitrary: argv rule: print_row.induct)
  case (2 f)
  then show ?case
    by (cases "length argv = max_argv")
      (simp_all add: scan_row.simps[of argv] scan_field_quoted)
next
  case (3 f g fs)
  show ?case
  proof (cases "length argv < max_argv")
    case True
    have "scan_row argv (print_row (f # g # fs) @ rest) =
        scan_row (argv @ [f]) (print_row (g # fs) @ rest)"
      using 3(3) True by (simp add: scan_row.simps[of argv] scan_field_quoted)
    also have "\<dots> = (if length (argv @ [f]) + length (g # fs) \<le> max_argv
        then Inr (Some ((argv @ [f]) @ g # fs), rest) else Inl ArgvOverflow)"
      using 3(3) True by (intro 3(1)) auto
    finally show ?thesis by simp
  next
    case False
    with 3(4) have "length argv = max_argv" by simp
    then show ?thesis by (simp add: scan_row.simps[of argv])
  qed
qed simp

lemma print_row_first: "fs \<noteq> [] \<Longrightarrow> \<exists>r. print_row fs = quote # r"
  by (cases fs rule: print_row.cases) (auto simp: print_field_def)

lemma csv_loop_row:
  assumes "good_row fs" "\<not> eof st"
  shows "csv_loop h eof st (print_row fs @ rest) =
    bind_fault (h st fs) (\<lambda>st'. csv_loop h eof st' rest)"
proof -
  obtain r where r: "print_row fs = quote # r"
    using assms(1) print_row_first by (auto simp: good_row_def)
  have "scan_row [] (print_row fs @ rest) = Inr (Some fs, rest)"
    using assms(1) scan_row_print[of fs "[]" rest] by (simp add: good_row_def)
  with assms(2) r show ?thesis
    by (subst csv_loop.simps) (auto split: sum.splits)
qed

lemma csv_loop_Nil [simp]: "csv_loop h eof st [] = Inr st"
  by (simp add: csv_loop.simps)

lemma csv_loop_eof: "eof st \<Longrightarrow> csv_loop h eof st s = Inr st"
  by (simp add: csv_loop.simps)

text \<open>A last line with no line feed behind it.\<close>

lemma dropWhile_cases: "dropWhile P s = [] \<or> \<not> P (hd (dropWhile P s))"
  using hd_dropWhile by blast

lemma scan_field_rest:
  "suffix (snd (scan_field s)) s \<and>
   (snd (scan_field s) = [] \<or> is_delim (hd (snd (scan_field s))))"
proof (cases s)
  case (Cons c r)
  let ?rest = "drop 1 (dropWhile (\<lambda>c. c \<noteq> quote) r)"
  have "suffix ?rest r"
    using suffix_drop suffix_dropWhile suffix_order.trans by blast
  then have "suffix (dropWhile (\<lambda>c. \<not> is_delim c) ?rest) s"
    using Cons suffix_dropWhile suffix_order.trans by (metis suffix_ConsI)
  moreover have "suffix (dropWhile (\<lambda>c. \<not> is_delim c) s) s"
    by (rule suffix_dropWhile)
  ultimately show ?thesis
    using dropWhile_cases[of "\<lambda>c. \<not> is_delim c" ?rest] dropWhile_cases[of "\<lambda>c. \<not> is_delim c" s] Cons
    by (auto simp: scan_field_def Let_def)
qed (simp add: scan_field_def)

definition commas :: "string \<Rightarrow> nat" where
  "commas s = length (filter (\<lambda>c. c = CHR '','') s)"

lemma scan_row_unterminated:
  assumes "\<forall>c \<in> set s. \<not> is_lf c" "length argv + commas s < max_argv"
  shows "scan_row argv s = Inr (None, [])"
  using assms
proof (induction argv s rule: scan_row.induct)
  case (1 argv s)
  obtain f t where ft: "scan_field s = (f, t)" by fastforce
  with scan_field_rest[of s] obtain p where s: "s = p @ t" and t: "t = [] \<or> is_delim (hd t)"
    by (auto elim: suffixE)
  show ?case
  proof (cases t)
    case Nil
    with 1(3) ft show ?thesis by (simp add: scan_row.simps[of argv s])
  next
    case (Cons c t')
    with t s 1(2) have c: "c = CHR '',''" "\<not> is_lf c" by (auto simp: is_delim_def)
    have step: "scan_row argv s = scan_row (argv @ [f]) t'"
      using 1(3) ft Cons c by (simp add: scan_row.simps[of argv s])
    have "scan_row (argv @ [f]) t' = Inr (None, [])"
      using 1(2,3) s Cons c ft
      by (intro 1(1)[of "(f, t)" f t "argv @ [f]" c t']) (auto simp: commas_def)
    with step show ?thesis by simp
  qed
qed

section \<open>The interface of a row handler\<close>

text \<open>
  What \<open>parseCSV\<close> relies on: a handler that has seen the end marker ignores every further row.
  Reading printed rows is then the same as folding the handler over them.
\<close>

fun fold_rows :: "('s \<Rightarrow> string list \<Rightarrow> fault + 's) \<Rightarrow> 's \<Rightarrow> string list list \<Rightarrow> fault + 's" where
  "fold_rows h st [] = Inr st"
| "fold_rows h st (r # rs) = bind_fault (h st r) (\<lambda>st'. fold_rows h st' rs)"

lemma fold_rows_append:
  "fold_rows h st (xs @ ys) = bind_fault (fold_rows h st xs) (\<lambda>st'. fold_rows h st' ys)"
  by (induction h st xs rule: fold_rows.induct) (auto split: sum.splits, case_tac "h st r", auto)

locale row_handler =
  fixes handle :: "'s \<Rightarrow> string list \<Rightarrow> fault + 's" and ended :: "'s \<Rightarrow> bool"
  assumes ended_ignores: "ended st \<Longrightarrow> handle st argv = Inr st"
begin

lemma ended_fold: "ended st \<Longrightarrow> fold_rows handle st rows = Inr st"
  by (induction rows) (auto simp: ended_ignores)

lemma loop_rows:
  "\<forall>r \<in> set rows. good_row r \<Longrightarrow>
   csv_loop handle ended st (print_rows rows @ rest) =
     bind_fault (fold_rows handle st rows) (\<lambda>st'. csv_loop handle ended st' rest)"
proof (induction rows arbitrary: st)
  case (Cons r rows)
  show ?case
  proof (cases "ended st")
    case True
    then show ?thesis by (simp add: csv_loop_eof ended_ignores ended_fold del: fold_rows.simps)
  next
    case False
    with Cons show ?thesis
      by (cases "handle st r") (simp_all add: print_rows_def csv_loop_row)
  qed
qed (simp add: print_rows_def)

lemma loop_reads_rows:
  "\<forall>r \<in> set rows. good_row r \<Longrightarrow>
   csv_loop handle ended st (print_rows rows) = fold_rows handle st rows"
  using loop_rows[of rows st "[]"] by (cases "fold_rows handle st rows") simp_all

text \<open>What every row preserves, the file preserves.\<close>

lemma loop_invariant:
  assumes "\<And>st argv st'. P st \<Longrightarrow> handle st argv = Inr st' \<Longrightarrow> P st'"
  shows "P st \<Longrightarrow> csv_loop handle ended st s = Inr st' \<Longrightarrow> P st'"
proof (induction "length s" arbitrary: s st rule: less_induct)
  case less
  define s1 where "s1 = dropWhile is_lf s"
  show ?case
  proof (cases "s = [] \<or> ended st \<or> s1 = [] \<or> (\<exists>r. scan_row [] s1 = Inr (None, r))")
    case True
    then have "csv_loop handle ended st s = Inr st"
      by (subst csv_loop.simps) (auto simp: s1_def Let_def)
    with less.prems show ?thesis by simp
  next
    case False
    then have unfolded: "csv_loop handle ended st s = (case scan_row [] s1 of
          Inl e \<Rightarrow> Inl e
        | Inr (None, r) \<Rightarrow> Inr st
        | Inr (Some argv, r) \<Rightarrow>
            (case handle st argv of Inl e \<Rightarrow> Inl e | Inr st1 \<Rightarrow> csv_loop handle ended st1 r))"
      by (subst csv_loop.simps) (simp add: s1_def[symmetric] Let_def)
    obtain argv r where row: "scan_row [] s1 = Inr (Some argv, r)"
      using less.prems(2) False unfolded
      by (cases "scan_row [] s1") (auto split: option.splits prod.splits)
    with less.prems(2) unfolded obtain st1 where "handle st argv = Inr st1"
      by (cases "handle st argv") auto
    with less.prems(2) unfolded row have step: "scan_row [] s1 = Inr (Some argv, r)"
      "handle st argv = Inr st1" "csv_loop handle ended st1 r = Inr st'"
      by auto
    have "length r < length s1" by (rule scan_row_shorter[OF step(1)])
    then have "length r < length s"
      by (simp add: s1_def order_less_le_trans[OF _ length_dropWhile_le])
    from less.hyps[OF this _ step(3)] less.prems(1) step(2) assms show ?thesis by blast
  qed
qed

text \<open>Nothing behind the end marker matters, whatever the bytes.\<close>

lemma loop_stops:
  assumes "\<forall>r \<in> set rows. good_row r" "fold_rows handle st rows = Inr st'" "ended st'"
  shows "csv_loop handle ended st (print_rows rows @ garbage) = Inr st'"
  using assms loop_rows[OF assms(1)] by (simp add: csv_loop_eof)

lemma loop_drops_tail:
  assumes "\<forall>r \<in> set rows. good_row r" "\<forall>c \<in> set tail. \<not> is_lf c" "commas tail < max_argv"
  shows "csv_loop handle ended st (print_rows rows @ tail) = fold_rows handle st rows"
proof -
  have "dropWhile is_lf tail = tail"
    using assms(2) by (cases tail) auto
  then have "csv_loop handle ended st' tail = Inr st'" for st'
    using scan_row_unterminated[of tail "[]"] assms(2,3) by (subst csv_loop.simps) simp
  then show ?thesis
    using loop_rows[OF assms(1)] by (cases "fold_rows handle st rows") simp_all
qed

end

interpretation rows: row_handler processArgs mEndOfFile
  by unfold_locales (simp add: processArgs_def)

section \<open>Properties of the reader\<close>

text \<open>
  C3. Reading a file of quoted rows feeds exactly these rows, in order, to the row handler: the
  scanner loses no field and no character of one.
\<close>
theorem csv_reads_rows:
  assumes "\<forall>r \<in> set rws. good_row r"
  shows "csv_loop processArgs mEndOfFile st (print_rows rws) = fold_rows processArgs st rws"
  using assms by (rule rows.loop_reads_rows)

text \<open>
  A row whose first cell spells EOF in any case ends the import: the state behind it does not
  depend on the rest of the file, whatever its bytes.
\<close>
theorem csv_stops_at_eof:
  assumes "\<forall>r \<in> set rws. good_row r" "fold_rows processArgs st rws = Inr st'"
    "good_row (e # cells)" "stricmp0 e ''EOF''"
  shows "csv_loop processArgs mEndOfFile st (print_rows rws @ print_row (e # cells) @ garbage) =
    Inr (if mEndOfFile st' then st' else st'\<lparr>mEndOfFile := True\<rparr>)"
proof -
  have "processArgs st' (e # cells) =
      Inr (if mEndOfFile st' then st' else st'\<lparr>mEndOfFile := True\<rparr>)"
    using assms(4) by (simp add: processArgs_def)
  then have "fold_rows processArgs st (rws @ [e # cells]) =
      Inr (if mEndOfFile st' then st' else st'\<lparr>mEndOfFile := True\<rparr>)"
    using assms(2) by (simp add: fold_rows_append)
  from rows.loop_stops[OF _ this, of garbage]
  have "csv_loop processArgs mEndOfFile st (print_rows (rws @ [e # cells]) @ garbage) =
      Inr (if mEndOfFile st' then st' else st'\<lparr>mEndOfFile := True\<rparr>)"
    using assms(1,3) by simp
  then show ?thesis by (simp only: print_rows_def map_append concat_append append.assoc list.map concat.simps append_Nil2)
qed

text \<open>
  C13. A last line that no line feed ends is dropped: the import gives what the lines in front of
  it give.
\<close>
theorem csv_drops_unterminated_line:
  assumes "\<forall>r \<in> set rws. good_row r" "\<forall>c \<in> set line. \<not> is_lf c" "commas line < max_argv"
  shows "csv_loop processArgs mEndOfFile st (print_rows rws @ line) =
    csv_loop processArgs mEndOfFile st (print_rows rws)"
  using assms rows.loop_drops_tail rows.loop_reads_rows by metis

text \<open>
  C10. A row with more than 128 fields makes the scanner store a pointer behind the end of
  \<open>argv\<close>; rows of up to 128 fields never do.
\<close>
theorem csv_argv_overflow:
  assumes "fs \<noteq> []" "\<forall>f \<in> set fs. quotable f"
  shows "scan_row [] (print_row fs @ rest) =
    (if length fs \<le> 128 then Inr (Some fs, rest) else Inl ArgvOverflow)"
  using scan_row_print[OF assms, of "[]" rest] by (simp add: max_argv_def)

text \<open>Concrete rows on which the hypotheses hold.\<close>

definition demo_rows :: "string list list" where
  "demo_rows = [[''Filename'', ''schema''], [''Color'', [], ''Enum'']]"

definition demo_fields :: "string list" where
  "demo_fields = replicate 129 ''x''"

lemma demo_rows_good: "\<forall>r \<in> set demo_rows. good_row r"
  by (simp add: demo_rows_def good_row_def quotable_def max_argv_def quote_def nul_def)

lemma demo_fold: "\<exists>st'. fold_rows processArgs (create ''out'') demo_rows = Inr st'"
proof -
  have "case fold_rows processArgs (create ''out'') demo_rows of Inr _ \<Rightarrow> True | Inl _ \<Rightarrow> False"
    by code_simp
  then show ?thesis by (cases "fold_rows processArgs (create ''out'') demo_rows") auto
qed

theorem csv_reads_rows_witness:
  "csv_loop processArgs mEndOfFile (create ''out'') (print_rows demo_rows) =
    fold_rows processArgs (create ''out'') demo_rows"
  by (rule csv_reads_rows[OF demo_rows_good])

theorem csv_stops_at_eof_witness:
  "\<exists>st'. csv_loop processArgs mEndOfFile (create ''out'')
     (print_rows demo_rows @ print_row [''eof''] @ ''no rows at all'') =
       Inr (if mEndOfFile st' then st' else st'\<lparr>mEndOfFile := True\<rparr>)"
proof -
  obtain st' where st': "fold_rows processArgs (create ''out'') demo_rows = Inr st'"
    using demo_fold by blast
  have "good_row [''eof'']" "stricmp0 ''eof'' ''EOF''"
    by (simp add: good_row_def quotable_def max_argv_def quote_def nul_def) code_simp
  with csv_stops_at_eof[OF demo_rows_good st'] show ?thesis by blast
qed

theorem csv_drops_unterminated_line_witness:
  "csv_loop processArgs mEndOfFile (create ''out'') (print_rows demo_rows @ '',Green'') =
    csv_loop processArgs mEndOfFile (create ''out'') (print_rows demo_rows)"
  by (rule csv_drops_unterminated_line[OF demo_rows_good])
    (simp_all add: is_lf_def lf_char_def cr_char_def commas_def max_argv_def)

theorem csv_argv_overflow_witness:
  "scan_row [] (print_row demo_fields @ []) = Inl ArgvOverflow"
proof -
  have f: "demo_fields \<noteq> []" "\<forall>f \<in> set demo_fields. quotable f" "\<not> length demo_fields \<le> 128"
    by (simp_all add: demo_fields_def quotable_def quote_def nul_def)
  show ?thesis using csv_argv_overflow[OF f(1,2), of "[]"] f(3) by simp
qed

text \<open>What the buffers bound.\<close>

lemma copy_name_length: "length (fst (copy_name n s opt)) \<le> n"
  by (induction n s opt rule: copy_name.induct) (auto split: prod.splits)

lemma split_at_length: "split_at c s = Some (a, b) \<Longrightarrow> length a < length s \<and> length b < length s"
  by (auto simp: split_at_Some)

lemma map_name_length:
  assumes "map_name s = Inr (a, b, c)"
  shows "length a \<le> length s \<and> length c \<le> length s"
proof (cases s)
  case (Cons x r)
  show ?thesis
  proof (cases "x = CHR ''[''")
    case True
    with assms Cons obtain m k where 1: "split_at CHR '':'' r = Some (m, k)"
      by (auto simp: map_name_def split: option.splits)
    with assms Cons True obtain t u where 2: "split_at CHR '']'' k = Some (t, u)"
      by (auto simp: map_name_def split: option.splits)
    from 1 2 assms Cons True have "a = m" "c = t" by (simp_all add: map_name_def)
    with split_at_length[OF 1] split_at_length[OF 2] Cons show ?thesis by simp
  next
    case False
    with assms Cons show ?thesis by (auto simp: map_name_def)
  qed
qed (use assms in \<open>simp add: map_name_def\<close>)

lemma type_field_length: "type_field s = Inr (a, b) \<Longrightarrow> length a < 512"
proof (cases "split_at CHR ''!'' (take 512 s)")
  case None
  then show "type_field s = Inr (a, b) \<Longrightarrow> length a < 512"
    by (auto simp: type_field_def split: if_splits)
next
  case (Some p)
  obtain x y where p: "p = (x, y)" by fastforce
  with split_at_length[of "CHR ''!''" "take 512 s"] Some have "length x < 512" by fastforce
  moreover have "type_field s = Inr (x, True)" using Some p by (simp add: type_field_def)
  ultimately show "type_field s = Inr (a, b) \<Longrightarrow> length a < 512" by simp
qed

lemma member_columns_names [simp]:
  "mMember (member_columns argv di) = mMember di" "mType (member_columns argv di) = mType di"
  "mMapType (member_columns argv di) = mMapType di"
  by (simp_all add: member_columns_def Let_def)

lemma init_member_names [simp]:
  "mMember (init_member di) = mMember di" "mType (init_member di) = mType di"
  "mMapType (init_member di) = mMapType di"
  by (simp_all add: init_member_def)

lemma bind_fault_Inr: "bind_fault m f = Inr y \<longleftrightarrow> (\<exists>x. m = Inr x \<and> f x = Inr y)"
  by (cases m) auto

lemma row_member_name_bound:
  assumes "member_of_row argv = Inr i"
  shows "length (mMember i) \<le> 510 \<and> length (mMapType i) \<le> 510 \<and> length (mType i) < 512"
proof -
  let ?ok = "\<lambda>a c. length a \<le> 510 \<and> length c \<le> 510"
  define N where "N = (case split_at CHR ''['' (tl (argv ! 1)) of
      Some (a, _) \<Rightarrow> hd (argv ! 1) # a
    | None \<Rightarrow> (case split_at CHR ''*'' (argv ! 1) of Some (p, _) \<Rightarrow> p | None \<Rightarrow> argv ! 1))"
  obtain tv opt where tv: "copy_name 510 N required = (tv, opt)" by fastforce
  with copy_name_length[of 510 N required] have len: "length tv \<le> 510" by simp
  obtain a b c where abc: "map_name tv = Inr (a, b, c)"
    using assms tv unfolding member_of_row_def Let_def N_def[symmetric]
    by (cases "map_name tv") auto
  then have names: "?ok a c" using map_name_length[OF abc] len by simp
  show ?thesis
  proof (cases "3 \<le> length argv")
    case True
    then obtain t x where t: "type_field (argv ! 2) = Inr (t, x)"
      using assms tv abc unfolding member_of_row_def Let_def N_def[symmetric]
      by (cases "type_field (argv ! 2)") auto
    have "mMember i = a \<and> mMapType i = c \<and> mType i = t"
      using assms tv abc t True unfolding member_of_row_def Let_def N_def[symmetric] by auto
    with names type_field_length[OF t] show ?thesis by simp
  next
    case False
    have "mMember i = a \<and> mMapType i = c \<and> mType i = []"
      using assms tv abc False unfolding member_of_row_def Let_def N_def[symmetric]
      by (auto simp: new_member_def)
    with names show ?thesis by simp
  qed
qed

lemma row_member_string:
  assumes "member_of_row argv = Inr i"
  shows "mIsString i = (mType i = ''string'') \<and> \<not> mNeedsReflection i"
proof -
  have [simp]: "mIsString (member_columns argv di) = mIsString di"
    "mNeedsReflection (member_columns argv di) = mNeedsReflection di"
    "mIsString (init_member di) = mIsString di" for di
    by (simp_all add: member_columns_def init_member_def Let_def)
  have [simp]: "mNeedsReflection (init_member di) = mNeedsReflection di" for di
    by (simp add: init_member_def)
  show ?thesis
    using assms by (auto simp: member_of_row_def Let_def bind_fault_Inr new_member_def
        split: prod.splits if_splits)
qed

text \<open>What every member of an import satisfies, and the state of an import between two rows.\<close>

definition good_member :: "MemberVariable \<Rightarrow> bool" where
  "good_member i \<longleftrightarrow>
     length (mMember i) \<le> 510 \<and> length (mMapType i) \<le> 510 \<and> length (mType i) < 512 \<and>
     mIsString i = (mType i = ''string'')"

definition importing :: "string \<Rightarrow> CreateDOMDef \<Rightarrow> bool" where
  "importing destDir st \<longleftrightarrow>
     mDestDir st = destDir \<and> mObjectMap (mDOM st) = Map.empty \<and>
     list_all good_member (mItems (mCurrentObject st)) \<and>
     list_all (\<lambda>ob. list_all good_member (mItems ob)) (mObjects (mDOM st))"

lemma importing_object_row: "importing destDir st \<Longrightarrow> importing destDir (object_row argv st)"
proof -
  have [simp]: "mItems (object_columns argv ob) = mItems ob" for ob
    by (simp add: object_columns_def Let_def)
  have [simp]: "mItems (add_child a b ob) = mItems ob" for a b ob
    by (simp add: add_child_def)
  show "importing destDir st \<Longrightarrow> importing destDir (object_row argv st)"
    by (auto simp: importing_def object_row_def Let_def new_object_def list_all_iff)
qed

lemma importing_step:
  assumes "importing destDir st" "processArgs st argv = Inr st'"
  shows "importing destDir st'"
proof -
  have setting: "importing destDir (st\<lparr>mDOM := d\<rparr>)"
    if "mObjects d = mObjects (mDOM st)" "mObjectMap d = mObjectMap (mDOM st)" for d
    using assms(1) that by (simp add: importing_def)
  have member: "importing destDir st''" if "member_row argv st = Inr st''" for st''
    using assms(1) that row_member_name_bound row_member_string
    by (fastforce simp: importing_def member_row_def bind_fault_Inr good_member_def)
  have eof: "importing destDir (st\<lparr>mEndOfFile := b\<rparr>)" for b
    using assms(1) by (simp add: importing_def)
  show ?thesis
    using assms importing_object_row[OF assms(1), of argv] member
    by (auto simp: processArgs_def Let_def setting eof split: if_splits)
qed

lemma parse_state:
  assumes "parseCSV (Some data) (create destDir) = Inr st"
  shows "mDestDir st = destDir \<and> \<not> mHaveObject st \<and> indexed (mDOM st) \<and>
    list_all (\<lambda>ob. list_all good_member (mItems ob)) (mObjects (mDOM st))"
proof -
  define read where "read = (if data \<noteq> []
    then csv_loop processArgs mEndOfFile ((create destDir)\<lparr>mEndOfFile := False\<rparr>)
           (takeWhile (\<lambda>c. c \<noteq> nul) data)
    else Inr (create destDir))"
  obtain s where s: "read = Inr s"
    "st = (flush_object s)\<lparr>mDOM := importComplete (mDOM (flush_object s))\<rparr>"
    using assms by (auto simp: parseCSV_def read_def[symmetric] bind_fault_Inr Let_def)
  have "importing destDir ((create destDir)\<lparr>mEndOfFile := False\<rparr>)"
    "importing destDir (create destDir)"
    by (simp_all add: importing_def create_def new_object_def new_dom_def)
  then have "importing destDir s"
  proof (cases "data = []")
    case False
    with s(1) have loop: "csv_loop processArgs mEndOfFile ((create destDir)\<lparr>mEndOfFile := False\<rparr>)
        (takeWhile (\<lambda>c. c \<noteq> nul) data) = Inr s"
      by (simp add: read_def)
    show ?thesis
      by (rule rows.loop_invariant[OF importing_step _ loop]) (assumption | fact)+
  qed (use s(1) in \<open>simp add: read_def\<close>)
  then have f: "importing destDir (flush_object s)" and h: "\<not> mHaveObject (flush_object s)"
    by (simp_all add: importing_def flush_object_def new_object_def)
  have "good_member (i\<lparr>mNeedsReflection := b\<rparr>) = good_member i" for i b
    by (simp add: good_member_def)
  then have "list_all good_member (mItems (completed obs ob)) = list_all good_member (mItems ob)"
    for obs ob
    by (simp add: completed_def list_all_iff)
  with f h s(2) show ?thesis
    by (simp add: importing_def import_indexed import_objects list_all_iff)
qed

text \<open>
  C11. Whatever the bytes of the schema file, an import that ends leaves a state in which every
  member name and key type has at most 510 and every type at most 511 bytes, so the 512-byte
  buffers of the name helpers hold them; \<open>mIsString\<close> marks exactly the string members; the type
  table knows exactly the declared objects; no object is left half-read.
\<close>
theorem parse_invariant:
  assumes "parseCSV (Some data) (create destDir) = Inr st"
  shows "mDestDir st = destDir \<and> \<not> mHaveObject st \<and> indexed (mDOM st) \<and>
    list_all (\<lambda>ob. list_all good_member (mItems ob)) (mObjects (mDOM st))"
  using assms by (rule parse_state)

lemma parse_dest:
  assumes "parseCSV (Some data) (create destDir) = Inr st"
  shows "mDestDir st = destDir"
  using parse_state[OF assms] by simp

definition demo_file :: string where
  "demo_file = ''Point,,Class\<newline>,x,u32\<newline>''"

lemma demo_parse:
  "\<exists>st. parseCSV (Some demo_file) (create ''out'') = Inr st \<and> length (mObjects (mDOM st)) = 1"
proof -
  have "case parseCSV (Some demo_file) (create ''out'') of
      Inr st \<Rightarrow> length (mObjects (mDOM st)) = 1 | Inl _ \<Rightarrow> False"
    by code_simp
  then show ?thesis by (cases "parseCSV (Some demo_file) (create ''out'')") auto
qed

theorem parse_invariant_witness:
  "\<exists>st. parseCSV (Some demo_file) (create ''out'') = Inr st \<and> length (mObjects (mDOM st)) = 1 \<and>
     mDestDir st = ''out'' \<and> indexed (mDOM st)"
  using demo_parse parse_invariant by blast

end
