(* ===== verification/Schema.thy ===== *)
theory Schema
  imports CsvReader
begin

text \<open>
  The CSV schema language as a specification: \<open>schema_rows\<close> writes a \<open>DOM\<close> down as the rows a
  user would enter (src/src/CreateDOM.cpp, \<open>processArgs\<close>, says what a row means), and reading the
  rows back with \<open>parseCSV\<close> gives the \<open>DOM\<close>, each object with the subclasses declared behind it
  as its children.
\<close>

section \<open>Members\<close>

definition opt_text :: "OptionalType \<Rightarrow> string" where
  "opt_text opt = (case opt of required \<Rightarrow> [] | optional \<Rightarrow> ''?'' | optional_deserialize \<Rightarrow> ''!'')"

definition core_text :: "MemberVariable \<Rightarrow> string" where
  "core_text i = (if mIsMap i then ''['' @ mMember i @ '':'' @ mMapType i @ '']'' else mMember i)"

definition member_text :: "MemberVariable \<Rightarrow> string" where
  "member_text i =
     core_text i @ opt_text (mIsOptional i)
     @ (if mIsArray i then ''[]'' else []) @ (if mIsPointer i then ''*'' else [])"

definition member_cells :: "MemberVariable \<Rightarrow> string list" where
  "member_cells i =
     [[], member_text i, mType i @ (if mSerializeEnumAsInteger i then ''!'' else []),
      if mProtoType i \<noteq> [] then ''PROTO:'' @ mProtoType i else mInheritsFrom i,
      mEngineSpecific i, mDefaultValue i, mMinValue i, mMaxValue i, mAlias i,
      mShortDescription i, mLongDescription i]"

definition name_chars :: "string \<Rightarrow> bool" where
  "name_chars s \<longleftrightarrow> set s \<inter> {CHR ''?'', CHR ''!'', CHR ''*'', CHR ''['', CHR '':'', CHR '']''} = {}"

text \<open>The members a row can express.\<close>

definition writable_member :: "MemberVariable \<Rightarrow> bool" where
  "writable_member i \<longleftrightarrow>
     mMember i \<noteq> [] \<and> name_chars (mMember i) \<and> name_chars (mMapType i) \<and>
     (mIsMap i \<or> mMapType i = []) \<and> length (mMember i) + length (mMapType i) \<le> 506 \<and>
     CHR ''!'' \<notin> set (mType i) \<and> length (mType i) < 511 \<and>
     mIsString i = (mType i = ''string'') \<and> \<not> mNeedsReflection i \<and>
     (mProtoType i = [] \<or> mInheritsFrom i = []) \<and> \<not> prefix ''PROTO:'' (mInheritsFrom i) \<and>
     mQualifiedDefaultValue i =
       (if mDefaultValue i \<noteq> [] then snprintf 512 ''%s::%s'' [S (mType i), S (mDefaultValue i)]
        else [])"

lemma copy_name_plain:
  "name_chars s \<Longrightarrow> copy_name (length s + n) (s @ t) opt = map_prod ((@) s) id (copy_name n t opt)"
proof (induction s)
  case Nil
  show ?case by (cases "copy_name n t opt") simp
next
  case (Cons c s)
  then show ?case by (cases "copy_name n t opt") (auto simp: name_chars_def)
qed

lemma copy_name_bracket:
  "c \<in> {CHR ''['', CHR '':'', CHR '']''} \<Longrightarrow>
   copy_name (Suc n) (c # s) opt = map_prod ((#) c) id (copy_name n s opt)"
  by (auto split: prod.splits)

lemma copy_name_opt:
  "0 < n \<Longrightarrow> copy_name n (opt_text opt) required = ([], opt)"
  by (cases n; cases opt) (simp_all add: opt_text_def)

lemma copy_name_map:
  assumes "name_chars a" "name_chars b" "0 < n"
  shows "copy_name (Suc (length a + Suc (length b + Suc n)))
      (CHR ''['' # a @ CHR '':'' # b @ CHR '']'' # opt_text opt) required =
    (CHR ''['' # a @ CHR '':'' # b @ [CHR '']''], opt)"
  using assms
  by (simp only: copy_name_bracket copy_name_plain copy_name_opt insert_iff simp_thms
      map_prod_simp id_apply append.simps append_assoc)

lemma copy_name_core:
  assumes "writable_member i"
  shows "copy_name 510 (core_text i @ opt_text opt) required = (core_text i, opt)"
proof -
  have m: "name_chars (mMember i)" "name_chars (mMapType i)"
    "length (mMember i) + length (mMapType i) \<le> 506" "mIsMap i \<or> mMapType i = []"
    using assms by (simp_all add: writable_member_def)
  show ?thesis
  proof (cases "mIsMap i")
    case False
    have "copy_name (length (mMember i) + (510 - length (mMember i)))
        (mMember i @ opt_text opt) required = (mMember i, opt)"
      using m by (subst copy_name_plain) (simp_all add: copy_name_opt)
    with m False show ?thesis by (simp add: core_text_def)
  next
    case True
    define n where "n = 507 - length (mMember i) - length (mMapType i)"
    have "(510 :: nat) = Suc (length (mMember i) + Suc (length (mMapType i) + Suc n))" "0 < n"
      using m by (simp_all add: n_def)
    with True copy_name_map[OF m(1,2), of n opt] show ?thesis
      by (simp only: core_text_def if_True append.assoc append.simps)
  qed
qed

lemma map_name_core:
  assumes "writable_member i"
  shows "map_name (core_text i) = Inr (mMember i, mIsMap i, mMapType i)"
proof (cases "mIsMap i")
  case True
  have "CHR '':'' \<notin> set (mMember i)" "CHR '']'' \<notin> set (mMapType i)"
    using assms by (auto simp: writable_member_def name_chars_def)
  with True show ?thesis
    by (simp add: core_text_def map_name_def)
next
  case False
  with assms obtain c cs where "mMember i = c # cs" "c \<noteq> CHR ''[''"
    by (cases "mMember i") (auto simp: writable_member_def name_chars_def)
  with False assms show ?thesis
    by (simp add: core_text_def map_name_def writable_member_def)
qed

lemma type_field_text:
  assumes "CHR ''!'' \<notin> set t" "length t < 511"
  shows "type_field (t @ (if b then ''!'' else [])) = Inr (t, b)"
  using assms split_at_None[of "CHR ''!''" t] by (simp add: type_field_def)

lemma init_written:
  assumes "writable_member i"
  shows "init_member (i\<lparr>mQualifiedDefaultValue := []\<rparr>) = i"
  using assms by (simp add: init_member_def writable_member_def)

lemma member_of_row_cells:
  assumes w: "writable_member i"
  shows "member_of_row (member_cells i) = Inr i"
proof -
  let ?base = "core_text i @ opt_text (mIsOptional i)"
  obtain c cs where base: "?base = c # cs"
    using w by (cases ?base) (auto simp: core_text_def writable_member_def split: if_splits)
  have "set (tl (core_text i)) \<inter> {CHR ''['', CHR ''*''} = {}"
    "CHR ''*'' \<notin> set (core_text i)" "core_text i \<noteq> []"
    using w by (auto simp: core_text_def writable_member_def name_chars_def dest: list.set_sel(2))
  moreover have "set (opt_text (mIsOptional i)) \<inter> {CHR ''['', CHR ''*''} = {}"
    by (cases "mIsOptional i") (simp_all add: opt_text_def)
  ultimately have free: "CHR ''['' \<notin> set cs" "CHR ''*'' \<notin> set (c # cs)"
    unfolding base[symmetric] using base by (cases "core_text i"; auto)+
  have cell: "member_text i = c # cs @ (if mIsArray i then ''[]'' else []) @
      (if mIsPointer i then ''*'' else [])"
    using base by (simp add: member_text_def)
  have star: "split_at CHR ''*'' (member_text i) =
      (if mIsPointer i then Some (c # cs @ (if mIsArray i then ''[]'' else []), []) else None)"
    using free by (auto simp: cell split_at_None split_at_Some)
  have bracket: "split_at CHR ''['' (tl (member_text i)) =
      (if mIsArray i then Some (cs, '']'' @ (if mIsPointer i then ''*'' else [])) else None)"
    using free by (auto simp: cell split_at_None split_at_Some)
  have copied: "copy_name 510 (c # cs) required = (core_text i, mIsOptional i)"
    using copy_name_core[OF w, of "mIsOptional i"] base by simp
  have name: "(case split_at CHR ''['' (tl (member_text i)) of
       Some (a, _) \<Rightarrow> hd (member_text i) # a
     | None \<Rightarrow> (case split_at CHR ''*'' (member_text i) of
                 Some (p, _) \<Rightarrow> p | None \<Rightarrow> member_text i)) = c # cs"
    unfolding star bracket by (simp add: cell)
  have type: "type_field (mType i @ (if mSerializeEnumAsInteger i then ''!'' else [])) =
      Inr (mType i, mSerializeEnumAsInteger i)"
    using w by (intro type_field_text) (simp_all add: writable_member_def)
  have found: "(split_at CHR ''['' (tl (member_text i)) \<noteq> None) = mIsArray i"
    "(split_at CHR ''*'' (member_text i) \<noteq> None) = mIsPointer i"
    unfolding star bracket by simp_all
  have cells: "member_cells i ! 1 = member_text i"
    "member_cells i ! 2 = mType i @ (if mSerializeEnumAsInteger i then ''!'' else [])"
    "length (member_cells i) = 11"
    by (simp_all add: member_cells_def)
  let ?di = "new_member\<lparr>mIsOptional := mIsOptional i, mIsMap := mIsMap i, mMapType := mMapType i,
    mMember := mMember i, mIsArray := mIsArray i, mIsPointer := mIsPointer i,
    mSerializeEnumAsInteger := mSerializeEnumAsInteger i, mType := mType i,
    mIsString := mType i = ''string''\<rparr>"
  have columns: "member_columns (member_cells i) ?di = i\<lparr>mQualifiedDefaultValue := []\<rparr>"
    using w by (auto simp: member_columns_def member_cells_def new_member_def writable_member_def)
  show ?thesis
    unfolding member_of_row_def cells Let_def name copied found
    by (simp add: map_name_core[OF w] type columns init_written[OF w])
qed

section \<open>Objects\<close>

definition object_cells :: "Object \<Rightarrow> string list" where
  "object_cells ob =
     [mName ob, [], mTypeO ob, mInheritsFromO ob, mEngineSpecificO ob,
      if mClone ob then ''CLONE'' else if mAssignment ob then ''ASSIGNMENT'' else [],
      [], [], mAliasO ob, mShortDescriptionO ob, mLongDescriptionO ob]"

definition keyword :: "string \<Rightarrow> bool" where
  "keyword s \<longleftrightarrow>
     stricmp0 s ''EOF'' \<or> stricmp0 s ''Filename'' \<or> stricmp0 s ''Namespace'' \<or>
     stricmp0 s ''POD'' \<or> stricmp0 s ''ExportXML'' \<or> stricmp0 s ''URL'' \<or> stricmp0 s ''ObjectName''"

text \<open>The objects rows can express: no derived field is set yet.\<close>

definition writable_object :: "Object \<Rightarrow> bool" where
  "writable_object ob \<longleftrightarrow>
     mName ob \<noteq> [] \<and> \<not> keyword (mName ob) \<and> \<not> (mClone ob \<and> mAssignment ob) \<and>
     mMultipleInherticance ob = [] \<and> mDefaultValueO ob = [] \<and> mChildren ob = [] \<and>
     \<not> mNeedsReflectionO ob \<and> \<not> mIsEnum ob \<and> \<not> mIsClass ob \<and>
     (\<forall>i \<in> set (mItems ob). writable_member i)"

definition object_rows :: "Object \<Rightarrow> string list list" where
  "object_rows ob = object_cells ob # map member_cells (mItems ob)"

text \<open>Declaring \<open>ob\<close> behind other objects makes it a child of the bases in front of it.\<close>

definition all_objects :: "CreateDOMDef \<Rightarrow> Object list" where
  "all_objects st = mObjects (mDOM st) @ (if mHaveObject st then [mCurrentObject st] else [])"

definition add_object :: "Object \<Rightarrow> CreateDOMDef \<Rightarrow> CreateDOMDef" where
  "add_object ob st =
     st\<lparr>mHaveObject := True, mCurrentObject := ob,
        mDOM := (mDOM st)\<lparr>mObjects :=
          map (add_child (mInheritsFromO ob) (mName ob)) (all_objects st)\<rparr>\<rparr>"

definition adopt :: "Object list \<Rightarrow> Object \<Rightarrow> Object" where
  "adopt obs ob =
     ob\<lparr>mChildren := mChildren ob @ map mName (filter (\<lambda>k. mInheritsFromO k = mName ob) obs)\<rparr>"

fun with_children :: "Object list \<Rightarrow> Object list" where
  "with_children [] = []"
| "with_children (ob # obs) = adopt obs ob # with_children obs"

lemma stricmp0_Nil: "stricmp0 [] s \<longleftrightarrow> s = []"
  by (auto simp: stricmp0_def)

lemma member_row_cells:
  assumes "writable_member i" "\<not> mEndOfFile st"
  shows "processArgs st (member_cells i) =
    Inr (st\<lparr>mCurrentObject := (mCurrentObject st)\<lparr>mItems := mItems (mCurrentObject st) @ [i]\<rparr>\<rparr>)"
proof -
  have "member_text i \<noteq> []"
    using assms(1) by (simp add: member_text_def core_text_def writable_member_def)
  then have "member_cells i ! 0 = []" "member_cells i ! 1 \<noteq> []" "length (member_cells i) = 11"
    by (simp_all add: member_cells_def)
  with assms show ?thesis
    by (simp add: processArgs_def stricmp0_Nil member_row_def member_of_row_cells)
qed

lemma member_rows:
  assumes "\<forall>i \<in> set is. writable_member i" "\<not> mEndOfFile st"
  shows "fold_rows processArgs st (map member_cells is) =
    Inr (st\<lparr>mCurrentObject := (mCurrentObject st)\<lparr>mItems := mItems (mCurrentObject st) @ is\<rparr>\<rparr>)"
  using assms by (induction "is" arbitrary: st) (simp_all add: member_row_cells)

lemma object_columns_cells:
  assumes "writable_object ob"
  shows "object_columns (object_cells ob) new_object = ob\<lparr>mItems := []\<rparr>"
proof -
  have flag: "stricmp0 ''CLONE'' ''CLONE''" "\<not> stricmp0 ''ASSIGNMENT'' ''CLONE''"
    "stricmp0 ''ASSIGNMENT'' ''ASSIGNMENT''"
    by (simp_all add: stricmp0_def)
  show ?thesis
    using assms
    by (auto simp: object_columns_def object_cells_def new_object_def writable_object_def flag
        stricmp0_Nil Let_def)
qed

lemma object_row_cells:
  assumes "writable_object ob" "\<not> mEndOfFile st" "mHaveObject st \<or> mCurrentObject st = new_object"
  shows "processArgs st (object_cells ob) = Inr (add_object (ob\<lparr>mItems := []\<rparr>) st)"
proof -
  have "object_cells ob ! 0 = mName ob" "object_cells ob ! 3 = mInheritsFromO ob"
    "length (object_cells ob) = 11"
    by (simp_all add: object_cells_def)
  moreover have "mName ob \<noteq> []" "\<not> keyword (mName ob)"
    using assms(1) by (simp_all add: writable_object_def)
  ultimately show ?thesis
    using assms
    by (auto simp: processArgs_def keyword_def object_row_def Let_def add_object_def all_objects_def
        object_columns_cells)
qed

lemma object_rows_read:
  assumes "writable_object ob" "\<not> mEndOfFile st" "mHaveObject st \<or> mCurrentObject st = new_object"
  shows "fold_rows processArgs st (object_rows ob) = Inr (add_object ob st)"
proof -
  have "\<forall>i \<in> set (mItems ob). writable_member i"
    using assms(1) by (simp add: writable_object_def)
  moreover have "\<not> mEndOfFile (add_object (ob\<lparr>mItems := []\<rparr>) st)"
    using assms(2) by (simp add: add_object_def)
  ultimately show ?thesis
    using assms by (simp add: object_rows_def object_row_cells member_rows) (simp add: add_object_def)
qed

lemma objects_read:
  assumes "\<forall>ob \<in> set obs. writable_object ob" "\<not> mEndOfFile st"
    "mHaveObject st \<or> mCurrentObject st = new_object"
  shows "fold_rows processArgs st (concat (map object_rows obs)) = Inr (fold add_object obs st)"
  using assms
proof (induction obs arbitrary: st)
  case (Cons ob obs)
  then show ?case
    by (simp add: fold_rows_append object_rows_read) (simp add: add_object_def)
qed simp

lemma all_objects_add:
  "all_objects (add_object ob st) = map (add_child (mInheritsFromO ob) (mName ob)) (all_objects st) @ [ob]"
  by (simp add: all_objects_def add_object_def)

lemma adopt_add_child: "adopt obs (add_child (mInheritsFromO ob) (mName ob) o') = adopt (ob # obs) o'"
  by (simp add: adopt_def add_child_def)

lemma all_objects_fold:
  "all_objects (fold add_object obs st) = map (adopt obs) (all_objects st) @ with_children obs"
proof (induction obs arbitrary: st)
  case Nil
  then show ?case by (simp add: adopt_def)
next
  case (Cons ob obs)
  then show ?case
    by (simp add: all_objects_add adopt_add_child comp_def)
qed

lemma fold_add_object_frame:
  "\<exists>h c os. fold add_object obs st =
     st\<lparr>mHaveObject := h, mCurrentObject := c, mDOM := (mDOM st)\<lparr>mObjects := os\<rparr>\<rparr>"
proof (induction obs arbitrary: st)
  case Nil
  have "st = st\<lparr>mHaveObject := mHaveObject st, mCurrentObject := mCurrentObject st,
      mDOM := (mDOM st)\<lparr>mObjects := mObjects (mDOM st)\<rparr>\<rparr>"
    by simp
  then show ?case by (metis fold_simps(1))
next
  case (Cons ob obs)
  from Cons[of "add_object ob st"] show ?case by (auto simp: add_object_def)
qed

lemma flush_fold:
  assumes "\<not> mHaveObject st" "mCurrentObject st = new_object" "obs \<noteq> []"
  shows "flush_object (fold add_object obs st) =
    st\<lparr>mDOM := (mDOM st)\<lparr>mObjects := map (adopt obs) (mObjects (mDOM st)) @ with_children obs\<rparr>\<rparr>"
proof -
  obtain h c os where st: "fold add_object obs st =
      st\<lparr>mHaveObject := h, mCurrentObject := c, mDOM := (mDOM st)\<lparr>mObjects := os\<rparr>\<rparr>"
    using fold_add_object_frame by blast
  have "mHaveObject (fold add_object obs st)"
    using assms(3) by (induction obs arbitrary: st rule: rev_induct) (simp_all add: add_object_def)
  with st have h: "h" by simp
  have "os @ [c] = map (adopt obs) (mObjects (mDOM st)) @ with_children obs"
    using all_objects_fold[of obs st] assms(1) h by (simp add: all_objects_def st)
  moreover have "st\<lparr>mHaveObject := False, mCurrentObject := new_object\<rparr> = st"
    using assms(1,2) by simp
  ultimately show ?thesis
    using assms(1,2) h by (simp add: flush_object_def st)
qed

section \<open>Files\<close>

text \<open>The settings in front of the objects.\<close>

definition setting_rows :: "DOM \<Rightarrow> string list list" where
  "setting_rows dm =
     [[''Filename'', mFilename dm], [''Namespace'', mNamespace dm], [''URL'', mURL dm],
      [''ExportXML'', mExportXML dm], [''POD'', if mPlainOldData dm then ''true'' else ''false'']]"

definition schema_rows :: "DOM \<Rightarrow> string list list" where
  "schema_rows dm = setting_rows dm @ concat (map object_rows (mObjects dm))"

definition writable_dom :: "DOM \<Rightarrow> bool" where
  "writable_dom dm \<longleftrightarrow>
     (\<forall>ob \<in> set (mObjects dm). writable_object ob) \<and> mDestDirD dm = [] \<and>
     mObjectMap dm = Map.empty \<and> (\<forall>r \<in> set (schema_rows dm). \<forall>f \<in> set r. quotable f)"

lemma getBool_words: "getBool ''true''" "\<not> getBool ''false''"
  by (simp_all add: getBool_def atoi_def signed_value_def stricmp0_def ascii_lower_def in_range_def
      code_of_def char_add_def is_space_def clamp_def digit_value_def is_dec_digit_def)

lemma setting_keys:
  "stricmp0 ''Filename'' ''Filename''" "stricmp0 ''Namespace'' ''Namespace''"
  "stricmp0 ''URL'' ''URL''" "stricmp0 ''ExportXML'' ''ExportXML''" "stricmp0 ''POD'' ''POD''"
  "\<not> stricmp0 ''Filename'' ''EOF''" "\<not> stricmp0 ''Namespace'' ''EOF''"
  "\<not> stricmp0 ''URL'' ''EOF''" "\<not> stricmp0 ''ExportXML'' ''EOF''" "\<not> stricmp0 ''POD'' ''EOF''"
  "\<not> stricmp0 ''Namespace'' ''Filename''" "\<not> stricmp0 ''URL'' ''Filename''"
  "\<not> stricmp0 ''ExportXML'' ''Filename''" "\<not> stricmp0 ''POD'' ''Filename''"
  "\<not> stricmp0 ''URL'' ''Namespace''" "\<not> stricmp0 ''ExportXML'' ''Namespace''"
  "\<not> stricmp0 ''POD'' ''Namespace''" "\<not> stricmp0 ''URL'' ''POD''"
  "\<not> stricmp0 ''ExportXML'' ''POD''" "\<not> stricmp0 ''URL'' ''ExportXML''"
  by (simp_all add: stricmp0_def ascii_lower_def in_range_def code_of_def char_add_def)

lemma settings_read:
  assumes "\<not> mEndOfFile st"
  shows "fold_rows processArgs st (setting_rows dm) =
    Inr (st\<lparr>mDOM := (mDOM st)\<lparr>mFilename := mFilename dm, mNamespace := mNamespace dm, mURL := mURL dm,
           mExportXML := mExportXML dm, mPlainOldData := mPlainOldData dm\<rparr>\<rparr>)"
  using assms by (simp add: setting_rows_def processArgs_def setting_keys getBool_words)

lemma print_rows_no_nul:
  assumes "\<forall>r \<in> set rows. \<forall>f \<in> set r. quotable f"
  shows "nul \<notin> set (print_rows rows)"
proof -
  have [simp]: "nul \<noteq> quote" "nul \<noteq> lf_char" "nul \<noteq> CHR '',''"
    by (simp_all add: nul_def quote_def lf_char_def)
  have "\<forall>f \<in> set r. quotable f \<Longrightarrow> nul \<notin> set (print_row r)" for r
    by (induction r rule: print_row.induct) (auto simp: print_field_def quotable_def)
  with assms show ?thesis by (auto simp: print_rows_def)
qed

lemma takeWhile_no_nul: "nul \<notin> set s \<Longrightarrow> takeWhile (\<lambda>c. c \<noteq> nul) s = s"
  by (auto simp: takeWhile_eq_all_conv)

lemma schema_rows_good:
  "writable_dom dm \<Longrightarrow> r \<in> set (schema_rows dm) \<Longrightarrow> good_row r"
  by (auto simp: writable_dom_def schema_rows_def setting_rows_def object_rows_def object_cells_def
      member_cells_def good_row_def max_argv_def)

lemma schema_read:
  assumes "writable_dom dm" "mObjects dm \<noteq> []"
  shows "bind_fault (fold_rows processArgs (create destDir) (schema_rows dm)) (\<lambda>st. Inr (flush_object st)) =
    Inr ((create destDir)\<lparr>mDOM := dm\<lparr>mObjects := with_children (mObjects dm)\<rparr>\<rparr>)"
proof -
  let ?st = "(create destDir)\<lparr>mDOM := dm\<lparr>mObjects := []\<rparr>\<rparr>"
  have st: "\<not> mEndOfFile (create destDir)" "\<not> mEndOfFile ?st" "\<not> mHaveObject ?st"
    "mCurrentObject ?st = new_object"
    by (simp_all add: create_def)
  have "fold_rows processArgs (create destDir) (setting_rows dm) = Inr ?st"
    using assms(1) unfolding settings_read[OF st(1)]
    by (simp add: create_def new_dom_def writable_dom_def)
  moreover have "fold_rows processArgs ?st (concat (map object_rows (mObjects dm))) =
      Inr (fold add_object (mObjects dm) ?st)"
    using assms(1) st by (intro objects_read) (auto simp: writable_dom_def)
  ultimately show ?thesis
    using flush_fold[OF st(3,4) assms(2)] by (simp add: schema_rows_def fold_rows_append)
qed

lemma schema_parse:
  assumes "writable_dom dm" "mObjects dm \<noteq> []"
  shows "parseCSV (Some (print_rows (schema_rows dm))) (create destDir) =
    Inr ((create destDir)\<lparr>mDOM := importComplete (dm\<lparr>mObjects := with_children (mObjects dm)\<rparr>)\<rparr>)"
proof -
  have good: "\<forall>r \<in> set (schema_rows dm). good_row r"
    using schema_rows_good[OF assms(1)] by blast
  have "nul \<notin> set (print_rows (schema_rows dm))"
    using assms(1) by (intro print_rows_no_nul) (simp add: writable_dom_def)
  moreover have "print_rows (schema_rows dm) \<noteq> []"
    by (simp add: schema_rows_def setting_rows_def print_rows_def print_field_def)
  moreover have "(create destDir)\<lparr>mEndOfFile := False\<rparr> = create destDir"
    by (simp add: create_def)
  ultimately have "parseCSV (Some (print_rows (schema_rows dm))) (create destDir) =
      bind_fault (bind_fault (fold_rows processArgs (create destDir) (schema_rows dm))
        (\<lambda>st. Inr (flush_object st))) (\<lambda>st. Inr (st\<lparr>mDOM := importComplete (mDOM st)\<rparr>))"
    by (cases "fold_rows processArgs (create destDir) (schema_rows dm)")
      (simp_all add: parseCSV_def takeWhile_no_nul rows.loop_reads_rows[OF good] Let_def)
  then show ?thesis
    unfolding schema_read[OF assms] by simp
qed

text \<open>
  C2. Reading back a written schema gives the schema: for every \<open>DOM\<close> that rows can express,
  \<open>parseCSV\<close> of its rows yields its settings and its objects with all members, each object with
  the later objects that inherit from it as children, completed by \<open>importComplete\<close>.
\<close>
theorem schema_round_trip:
  assumes "writable_dom dm" "mObjects dm \<noteq> []"
  shows "parseCSV (Some (print_rows (schema_rows dm))) (create destDir) =
    Inr ((create destDir)\<lparr>mDOM := importComplete (dm\<lparr>mObjects := with_children (mObjects dm)\<rparr>)\<rparr>)"
  by (rule schema_parse[OF assms])

definition demo_schema :: DOM where
  "demo_schema = new_dom\<lparr>mFilename := ''shapes'', mNamespace := ''geo'', mObjects :=
     [new_object\<lparr>mName := ''Color'', mTypeO := ''Enum'',
        mItems := [new_member\<lparr>mMember := ''Red''\<rparr>, new_member\<lparr>mMember := ''Blue''\<rparr>]\<rparr>,
      new_object\<lparr>mName := ''Shape'', mTypeO := ''Class'', mClone := True,
        mItems := [new_member\<lparr>mMember := ''tags'', mType := ''string'', mIsString := True,
                     mIsArray := True, mIsOptional := optional\<rparr>,
                   new_member\<lparr>mMember := ''key'', mType := ''string'', mIsString := True,
                     mIsMap := True, mMapType := ''string'', mIsArray := True\<rparr>]\<rparr>,
      new_object\<lparr>mName := ''Disc'', mTypeO := ''Class'', mInheritsFromO := ''Shape''\<rparr>]\<rparr>"

lemma demo_schema_writable: "writable_dom demo_schema" "mObjects demo_schema \<noteq> []"
proof -
  have "\<forall>ob \<in> set (mObjects demo_schema). writable_object ob" by code_simp
  moreover have "\<forall>r \<in> set (schema_rows demo_schema). \<forall>f \<in> set r. quotable f" by code_simp
  ultimately show "writable_dom demo_schema" "mObjects demo_schema \<noteq> []"
    by (simp_all add: writable_dom_def demo_schema_def new_dom_def)
qed

theorem schema_round_trip_witness:
  "parseCSV (Some (print_rows (schema_rows demo_schema))) (create ''out'') =
    Inr ((create ''out'')\<lparr>mDOM := importComplete (demo_schema\<lparr>mObjects := with_children (mObjects demo_schema)\<rparr>)\<rparr>)"
  by (rule schema_round_trip[OF demo_schema_writable])

text \<open>
  C12. Member rows in front of the first object row are not lost and not an error: they become the
  first members of the object declared next.
\<close>
theorem orphan_members_join_next_object:
  assumes "\<forall>i \<in> set is. writable_member i" "writable_object ob"
  shows "map_sum id all_objects
      (fold_rows processArgs (create destDir) (map member_cells is @ object_rows ob)) =
    Inr [ob\<lparr>mItems := is @ mItems ob\<rparr>]"
proof -
  let ?st = "(create destDir)\<lparr>mCurrentObject := new_object\<lparr>mItems := is\<rparr>\<rparr>"
  have first: "fold_rows processArgs (create destDir) (map member_cells is) = Inr ?st"
    using member_rows[OF assms(1), of "create destDir"] by (simp add: create_def new_object_def)
  have columns: "object_columns (object_cells ob) (new_object\<lparr>mItems := is\<rparr>) = ob\<lparr>mItems := is\<rparr>"
  proof -
    have "object_columns argv (o'\<lparr>mItems := is\<rparr>) = (object_columns argv o')\<lparr>mItems := is\<rparr>" for argv o'
      by (simp add: object_columns_def Let_def)
    then show ?thesis using object_columns_cells[OF assms(2)] by simp
  qed
  have cells: "object_cells ob ! 0 = mName ob" "object_cells ob ! 3 = mInheritsFromO ob"
    "length (object_cells ob) = 11"
    by (simp_all add: object_cells_def)
  have "mName ob \<noteq> []" "\<not> keyword (mName ob)"
    using assms(2) by (simp_all add: writable_object_def)
  then have head: "processArgs ?st (object_cells ob) =
      Inr ((create destDir)\<lparr>mHaveObject := True, mCurrentObject := ob\<lparr>mItems := is\<rparr>\<rparr>)"
    by (simp add: processArgs_def keyword_def object_row_def Let_def cells columns create_def new_dom_def)
  have "\<forall>i \<in> set (mItems ob). writable_member i"
    using assms(2) by (simp add: writable_object_def)
  from member_rows[OF this, of "(create destDir)\<lparr>mHaveObject := True, mCurrentObject := ob\<lparr>mItems := is\<rparr>\<rparr>"]
  have "fold_rows processArgs ?st (object_rows ob) =
      Inr ((create destDir)\<lparr>mHaveObject := True, mCurrentObject := ob\<lparr>mItems := is @ mItems ob\<rparr>\<rparr>)"
    by (simp only: object_rows_def fold_rows.simps head bind_fault.simps) (simp add: create_def)
  then have "fold_rows processArgs (create destDir) (map member_cells is @ object_rows ob) =
      Inr ((create destDir)\<lparr>mHaveObject := True, mCurrentObject := ob\<lparr>mItems := is @ mItems ob\<rparr>\<rparr>)"
    by (simp only: fold_rows_append first bind_fault.simps)
  then show ?thesis by (simp add: all_objects_def create_def new_dom_def)
qed

theorem orphan_members_join_next_object_witness:
  "map_sum id all_objects (fold_rows processArgs (create ''out'')
      (map member_cells [new_member\<lparr>mMember := ''lost''\<rparr>] @ object_rows (new_object\<lparr>mName := ''Shape''\<rparr>))) =
    Inr [new_object\<lparr>mName := ''Shape'', mItems := [new_member\<lparr>mMember := ''lost''\<rparr>]\<rparr>]"
proof -
  have "\<forall>i \<in> set [new_member\<lparr>mMember := ''lost''\<rparr>]. writable_member i" by code_simp
  moreover have "writable_object (new_object\<lparr>mName := ''Shape''\<rparr>)" by code_simp
  ultimately show ?thesis
    by (subst orphan_members_join_next_object) (assumption, assumption, simp add: new_object_def)
qed

end
