(* ===== verification/ValueText.thy ===== *)
theory ValueText
  imports DomModel
begin

text \<open>
  The default-value texts (src/src/CreateDOM.cpp): \<open>getPythonArgDef\<close>,
  \<open>getCppValueInitializer\<close> and \<open>getCppRValue\<close>. Integers go through \<open>strtoll\<close> and
  \<open>strtoull\<close> (base 0) and are printed in decimal. The decimal text of a parsed floating-point
  number is the C++ library's; HOL's library has no such numbers, so a record of four functions
  stands for \<open>strtof\<close>, \<open>strtod\<close> and \<open>sscanf\<close> followed by \<open>ostringstream << showpoint\<close>.
\<close>

record float_io =
  strtof_text :: "string \<Rightarrow> string"
  strtod_text :: "string \<Rightarrow> string"
  vec3_text :: "string \<Rightarrow> string \<times> string \<times> string"
  quat_text :: "string \<Rightarrow> string \<times> string \<times> string \<times> string"

definition is_signed_type :: "string \<Rightarrow> bool" where
  "is_signed_type t \<longleftrightarrow> t = ''i8'' \<or> t = ''i16'' \<or> t = ''i32'' \<or> t = ''i64''"

definition is_unsigned_type :: "string \<Rightarrow> bool" where
  "is_unsigned_type t \<longleftrightarrow> t = ''u8'' \<or> t = ''u16'' \<or> t = ''u32'' \<or> t = ''u64''"

text \<open>The literals that \<open>ostringstream << showpoint\<close> prints for the constants of the code.\<close>

definition zero_text :: string where
  "zero_text = ''0.00000''"

definition one_text :: string where
  "one_text = ''1.00000''"

definition flt_max_text :: string where
  "flt_max_text = ''3.40282e+38''"

definition flt_min_text :: string where
  "flt_min_text = ''1.17549e-38''"

definition signed_text :: "string \<Rightarrow> string" where
  "signed_text dv = dec_int (if dv \<noteq> [] then strtoll0 dv else 0)"

definition unsigned_text :: "string \<Rightarrow> string" where
  "unsigned_text dv = dec (if dv \<noteq> [] then strtoull0 dv else 0)"

definition double_text :: "float_io \<Rightarrow> string \<Rightarrow> string" where
  "double_text io dv =
     (if dv = [] then zero_text
      else if dv = ''FLT_MAX'' then flt_max_text
      else if dv = ''FLT_MIN'' then flt_min_text
      else strtod_text io dv)"

definition vec3_values :: "float_io \<Rightarrow> string \<Rightarrow> string \<times> string \<times> string" where
  "vec3_values io dv = (if dv \<noteq> [] then vec3_text io dv else (zero_text, zero_text, zero_text))"

definition quat_values :: "float_io \<Rightarrow> string \<Rightarrow> string \<times> string \<times> string \<times> string" where
  "quat_values io dv =
     (if dv \<noteq> [] then quat_text io dv else (zero_text, zero_text, zero_text, one_text))"

definition getPythonArgDef :: "float_io \<Rightarrow> DOM \<Rightarrow> MemberVariable \<Rightarrow> string" where
  "getPythonArgDef io dm var =
     (let dv = mDefaultValue var in
      mMember var @ ''='' @
      (if mIsArray var then ''[]''
       else if mType var = ''string'' then [CHR 0x27] @ dv @ [CHR 0x27]
       else if is_signed_type (mType var) then signed_text dv
       else if is_unsigned_type (mType var) then unsigned_text dv
       else if mType var = ''float'' \<or> mType var = ''double'' then double_text io dv
       else if mType var = ''bool'' then
         (if stricmp0 dv ''true'' then ''True'' else ''False'')
       else if mType var = ''Vec3'' then
         (let (x, y, z) = vec3_values io dv
          in ''Vec3(x='' @ x @ '',y='' @ y @ '',z='' @ z @ '')'')
       else if mType var = ''Quat'' then
         (let (x, y, z, w) = quat_values io dv
          in ''Quat(x='' @ x @ '',y='' @ y @ '',z='' @ z @ '',w='' @ w @ '')'')
       else (case findObject dm (mType var) of
               None \<Rightarrow> ''None''
             | Some obj \<Rightarrow>
                 (if mIsEnum obj then (if dv \<noteq> [] then dv else ''0'')
                  else mType var @ ''()''))))"

definition getCppValueInitializer :: "float_io \<Rightarrow> DOM \<Rightarrow> MemberVariable \<Rightarrow> string" where
  "getCppValueInitializer io dm var =
     (let dv = mDefaultValue var in
      if mIsArray var then []
      else if mType var = ''string'' then [CHR 0x22] @ dv @ [CHR 0x22]
      else if is_signed_type (mType var) then signed_text dv
      else if is_unsigned_type (mType var) then unsigned_text dv
      else if mType var = ''float'' then
        (if dv = ''FLT_MAX'' then ''FLT_MAX''
         else if dv = ''FLT_MIN'' then ''FLT_MIN''
         else (if dv \<noteq> [] then strtof_text io dv else zero_text) @ ''f'')
      else if mType var = ''double'' then double_text io dv
      else if mType var = ''bool'' then (if stricmp0 dv ''true'' then ''true'' else ''false'')
      else if mType var = ''Vec3'' then
        (let (x, y, z) = vec3_values io dv in x @ ''f, '' @ y @ ''f, '' @ z @ ''f'')
      else if mType var = ''Quat'' then
        (let (x, y, z, w) = quat_values io dv
         in x @ ''f, '' @ y @ ''f, '' @ z @ ''f, '' @ w @ ''f'')
      else (case findObject dm (mType var) of
              None \<Rightarrow> []
            | Some obj \<Rightarrow>
                (if mIsEnum obj then (if dv \<noteq> [] then mQualifiedDefaultValue var else [])
                 else [])))"

definition getCppRValue :: "float_io \<Rightarrow> DOM \<Rightarrow> bool \<Rightarrow> MemberVariable \<Rightarrow> string" where
  "getCppRValue io dm isDef var =
     (if mIsArray var then
        (if isDef then ''std::vector<'' @ getCppTypeString (mType var) isDef @ ''>()''
         else ''nullptr'')
      else if mType var = ''string'' \<or> is_signed_type (mType var) \<or> is_unsigned_type (mType var) \<or>
              mType var = ''float'' \<or> mType var = ''double'' \<or> mType var = ''bool''
      then getCppValueInitializer io dm var
      else (case findObject dm (mType var) of
              None \<Rightarrow> ''void''
            | Some obj \<Rightarrow>
                (if mIsEnum obj then
                   (if mDefaultValue var \<noteq> [] then mQualifiedDefaultValue var
                    else mType var @ ''()'')
                 else mType var @ ''('' @ getCppValueInitializer io dm var @ '')'')))"

section \<open>Integer defaults\<close>

lemma signed_text_fixed: "signed_text (signed_text dv) = signed_text dv"
proof -
  have "dec_int i \<noteq> []" for i by (simp add: dec_int_def)
  then show ?thesis
    using strtoll0_range[of dv] by (simp add: signed_text_def strtoll0_dec_int)
qed

lemma unsigned_text_fixed: "unsigned_text (unsigned_text dv) = unsigned_text dv"
  using strtoull0_range[of dv] by (simp add: unsigned_text_def strtoull0_dec)



end
