(* ===== verification/EmitSerialize.thy ===== *)
theory EmitSerialize
  imports DomModel
begin

text \<open>
  \<open>Object::saveSerialize\<close> (src/src/CreateDOM.cpp): the C++ text of \<open>serializeTo\<close> and
  \<open>serialize\<close> for one class. The emitter is split by the kind of member it prints; the loop
  over the members and the frame around them are \<open>saveSerialize_impl\<close>. A member whose type is
  no declared class or enum ends in the code's \<open>assert(0)\<close>.
\<close>

definition ser_standard :: "MemberVariable \<Rightarrow> code" where
\<open>ser_standard i =
  (if mIsArray i then
    (if mIsMap i then
      [pc 1 ''// Serialize this map type: %s : %s\<newline>'' [S (mMember i), S (mType i)],
       pc 1 ''for (auto &i : type._%s)\<newline>'' [S (mMember i)],
       pc 1 ''{\<newline>'' [],
       pc 1 ''    d.AddMember(rapidjson::StringRef(i.first.c_str()), i.second, alloc);\<newline>'' [],
       pc 1 ''}\<newline>'' []]
     else
      [pc 1 ''{\<newline>'' [],
       pc 1 ''    rapidjson::Value varray(rapidjson::kArrayType);\<newline>'' [],
       pc 1 ''    for (auto &i : type.%s)\<newline>'' [S (mMember i)],
       pc 1 ''    {\<newline>'' [],
       pc 1 ''        rapidjson::Value v(i);\<newline>'' [],
       pc 1 ''        varray.PushBack(v, alloc);\<newline>'' [],
       pc 1 ''    }\<newline>'' [],
       pc 1 ''    d.AddMember("%s", varray, alloc);\<newline>'' [S (mMember i)],
       pc 1 ''}\<newline>'' []])
   else
    (if (mIsOptional i = optional) then
      [pc 1 ''if ( type.%s.has_value() )\<newline>'' [S (mMember i)],
       pc 1 ''{\<newline>'' [],
       pc 2 ''d.AddMember("%s",type.%s.value(),alloc);\<newline>'' [S (mMember i), S (mMember i)],
       pc 1 ''}\<newline>'' []]
     else
      [pc 1 ''d.AddMember("%s",type.%s,alloc);\<newline>'' [S (mMember i), S (mMember i)]]))\<close>

definition ser_string :: "MemberVariable \<Rightarrow> code" where
\<open>ser_string i =
  (if mIsArray i then
    (if (mIsOptional i = optional) then
      [pc 1 ''if ( type.%s.has_value() )\<newline>'' [S (mMember i)]]
     else [])
    @ [pc 1 ''{\<newline>'' [],
     pc 1 ''    rapidjson::Value v(rapidjson::kArrayType);\<newline>'' []]
    @ (if mIsMap i then
      [pc 1 ''    for (auto &i : type._%s)\<newline>'' [S (mMember i)]]
     else
      [pc 1 ''    for (auto &i : type.%s)\<newline>'' [S (mMember i)]])
    @ [pc 1 ''    {\<newline>'' []]
    @ (if mIsMap i then
      [pc 1 ''        d.AddMember(rapidjson::StringRef(i.first.c_str()), rapidjson::StringRef(i.second.c_str()), alloc);\<newline>'' []]
     else
      [pc 1 ''        rapidjson::Value item(rapidjson::StringRef(i.c_str()));\<newline>'' [],
       pc 1 ''        v.PushBack(item, alloc);\<newline>'' []])
    @ [pc 1 ''    }\<newline>'' []]
    @ (if \<not> mIsMap i then
      [pc 1 ''    d.AddMember("%s", v, alloc);\<newline>'' [S (mMember i)]]
     else [])
    @ [pc 1 ''}\<newline>'' []]
   else
    (if (mIsOptional i = optional) then
      [pc 1 ''if ( type.%s.has_value() )\<newline>'' [S (mMember i)],
       pc 1 ''{\<newline>'' [],
       pc 2 ''d.AddMember("%s",rapidjson::StringRef(type.%s.value().c_str()),alloc);\<newline>'' [S (mMember i), S (mMember i)],
       pc 1 ''}\<newline>'' []]
     else
      [pc 1 ''d.AddMember("%s",rapidjson::StringRef(type.%s.c_str()),alloc);\<newline>'' [S (mMember i), S (mMember i)]]))\<close>

definition ser_named_array :: "ClassEnumMap \<Rightarrow> MemberVariable \<Rightarrow> code" where
\<open>ser_named_array classEnum i =
  [pc 1 ''{\<newline>'' []]
  @ (if mIsMap i then
    [pc 2 ''for (auto &i : type._%s)\<newline>'' [S (mMember i)],
     pc 2 ''{\<newline>'' [],
     pc 3 ''rapidjson::Value v(rapidjson::kArrayType);\<newline>'' [],
     pc 3 ''for (auto &j : i.second)\<newline>'' [],
     pc 3 ''{\<newline>'' [],
     pc 4 ''const char *name = stringifyEnum(j);\<newline>'' [],
     pc 4 ''rapidjson::Value item(rapidjson::StringRef(name));\<newline>'' [],
     pc 4 ''v.PushBack(item, alloc);\<newline>'' [],
     pc 3 ''}\<newline>'' [],
     pc 3 ''d.AddMember(rapidjson::StringRef(i.first.c_str()), v, alloc);\<newline>'' [],
     pc 2 ''}\<newline>'' []]
   else
    [pc 2 ''rapidjson::Value array(rapidjson::kArrayType);\<newline>'' [],
     pc 2 ''for (auto &i : type.%s)\<newline>'' [S (mMember i)],
     pc 2 ''{\<newline>'' []]
    @ (if classEnum (mType i) = Some True then
      [pc 3 ''rapidjson::Value v(rapidjson::StringRef(stringifyEnum(i)));\<newline>'' []]
     else
      [pc 3 ''rapidjson::Value v(rapidjson::kObjectType);\<newline>'' [],
       pc 3 ''serializeTo(i, v, alloc);\<newline>'' []])
    @ [pc 3 ''array.PushBack(v, alloc);\<newline>'' [],
     pc 2 ''}\<newline>'' [],
     pc 2 ''d.AddMember("%s", array, alloc);\<newline>'' [S (mMember i)]])
  @ [pc 1 ''}\<newline>'' []]\<close>

definition ser_enum :: "MemberVariable \<Rightarrow> code" where
\<open>ser_enum i =
  (if (mIsOptional i = optional) then
    [pc 1 ''if ( type.%s.has_value() )\<newline>'' [S (mMember i)],
     pc 1 ''{\<newline>'' []]
    @ (if mSerializeEnumAsInteger i then
      [pc 2 ''d.AddMember("%s",uint64_t(type.%s.value()),alloc);\<newline>'' [S (mMember i), S (mMember i)]]
     else
      [pc 2 ''d.AddMember("%s",rapidjson::StringRef(stringifyEnum(type.%s.value())),alloc);\<newline>'' [S (mMember i), S (mMember i)]])
    @ [pc 1 ''}\<newline>'' []]
   else
    (if mSerializeEnumAsInteger i then
      [pc 1 ''d.AddMember("%s",uint64_t(type.%s),alloc);\<newline>'' [S (mMember i), S (mMember i)]]
     else
      [pc 1 ''d.AddMember("%s",rapidjson::StringRef(stringifyEnum(type.%s)),alloc);\<newline>'' [S (mMember i), S (mMember i)]]))\<close>

definition ser_object :: "MemberVariable \<Rightarrow> code" where
\<open>ser_object i =
  (if (mIsOptional i = optional) then
    [pc 1 ''if ( type.%s.has_value() )\<newline>'' [S (mMember i)]]
   else [])
  @ [pc 1 ''{\<newline>'' [],
   pc 2 ''rapidjson::Value v(rapidjson::kObjectType);\<newline>'' []]
  @ (if (mIsOptional i = optional) then
    [pc 2 ''serializeTo(type.%s.value(),v,alloc);\<newline>'' [S (mMember i)]]
   else
    [pc 2 ''serializeTo(type.%s,v,alloc);\<newline>'' [S (mMember i)]])
  @ [pc 2 ''d.AddMember("%s",v,alloc);\<newline>'' [S (mMember i)],
   pc 1 ''}\<newline>'' []]\<close>

definition ser_member :: "ClassEnumMap \<Rightarrow> MemberVariable \<Rightarrow> code" where
\<open>ser_member classEnum i =
  (if mInheritsFrom i \<noteq> [] then []
   else if isStandardType (mType i) then ser_standard i
   else if mType i = ''string'' then ser_string i
   else (case classEnum (mType i) of
           None \<Rightarrow> [Abort AssertFail]
         | Some isEnum \<Rightarrow>
             (if mIsArray i then ser_named_array classEnum i
              else if isEnum then ser_enum i
              else ser_object i)))\<close>

definition saveSerialize_impl :: "ClassEnumMap \<Rightarrow> Object \<Rightarrow> code" where
\<open>saveSerialize_impl classEnum ob =
  [lf,
   pc 0 ''template<typename DocumentOrObject, typename Alloc>\<newline>'' [],
   pc 0 ''DocumentOrObject& serializeTo(const %s& type, DocumentOrObject& d, Alloc& alloc)\<newline>'' [S (mName ob)],
   pc 0 ''{\<newline>'' []]
  @ (if (mInheritsFromO ob \<noteq> []) then
    [pc 1 ''serializeTo(static_cast<const %s&>(type), d, alloc);\<newline>'' [S (mInheritsFromO ob)]]
   else [])
  @ concat (map (ser_member classEnum) (mItems ob))
  @ [pc 0 ''    return d;\<newline>'' [],
   pc 0 ''}\<newline>'' [],
   lf,
   pc 0 ''std::string serialize(const %s& type)\<newline>'' [S (mName ob)],
   pc 0 ''{\<newline>'' [],
   pc 0 ''    rapidjson::Document d;\<newline>'' [],
   pc 0 ''    d.SetObject();\<newline>'' [],
   pc 0 ''    serializeTo(type, d, d.GetAllocator());\<newline>'' [],
   pc 0 ''    return serializeDocument(d);\<newline>'' [],
   pc 0 ''}\<newline>'' [],
   lf]\<close>

text \<open>The calls on the header printer, and both lists for one object.\<close>

definition saveSerialize_header :: "Object \<Rightarrow> code" where
\<open>saveSerialize_header ob =
  [lf,
   pc 0 ''std::string serialize(const %s& type);\<newline>'' [S (mName ob)]]\<close>

definition saveSerialize :: "ClassEnumMap \<Rightarrow> Object \<Rightarrow> code \<times> code" where
  "saveSerialize classEnum ob =
     (if mIsEnum ob then ([], []) else (saveSerialize_header ob, saveSerialize_impl classEnum ob))"

end
