(* ===== verification/EmitDeserialize.thy ===== *)
theory EmitDeserialize
  imports DomModel
begin

text \<open>
  \<open>Object::saveDeserialize\<close> (src/src/CreateDOM.cpp): the C++ text of \<open>deserializeFrom\<close> for one
  class, one definition per kind of member. \<open>getType\<close> is the accessor name of
  \<open>deserializeTypeName\<close>; the switch that sets \<open>checkName\<close> and \<open>getName\<close> is
  \<open>check_names\<close>. The numeric map asserts that the class has no other members.
\<close>

definition deser_map :: "bool \<Rightarrow> string list \<Rightarrow> MemberVariable \<Rightarrow> code" where
\<open>deser_map isNumeric nonMapItems i =
  [pc 2 ''// Deserialize map: '_%s' of type 'string'\<newline>'' [S (mMember i)],
   pc 2 ''{\<newline>'' [],
   pc 3 ''for (rapidjson::Value::ConstMemberIterator iter = d.MemberBegin(); iter != d.MemberEnd(); ++iter)\<newline>'' [],
   pc 3 ''{\<newline>'' [],
   pc 4 ''const char* key = iter->name.GetString();\<newline>'' [],
   pc 4 ''const rapidjson::Value &item = iter->value;\<newline>'' []]
  @ (if isNumeric then
    (if nonMapItems = [] then [] else [Abort AssertFail])
    @ [pc 4 ''{\<newline>'' [],
     pc 4 ''    if (item.IsString())\<newline>'' [],
     pc 4 ''    {\<newline>'' [],
     pc 4 ''        uint64_t ivalue = 0;\<newline>'' [],
     pc 4 ''        stringToInt(item.GetString(), ivalue);\<newline>'' [],
     pc 4 ''        r._%s[std::string(key)] = ivalue;\<newline>'' [S (mMember i)],
     pc 4 ''    }\<newline>'' [],
     pc 4 ''    else if (item.IsNumber())\<newline>'' [],
     pc 4 ''    {\<newline>'' [],
     pc 4 ''        r._%s[std::string(key)] = item.GetUint64();\<newline>'' [S (mMember i)],
     pc 4 ''    }\<newline>'' [],
     pc 4 ''}\<newline>'' []]
   else
    [pc 4 ''if (item.IsString())\<newline>'' [],
     pc 4 ''{\<newline>'' [],
     pc 5 ''const char *value = item.GetString();\<newline>'' []]
    @ (if (nonMapItems \<noteq> []) then
      [pc 5 ''// Skip keys which we already deserialize explicitly by name.\<newline>'' [],
       pc 5 ''if ( r.isMember(key) )\<newline>'' [],
       pc 5 ''{\<newline>'' [],
       pc 5 ''}\<newline>'' [],
       pc 5 ''else\<newline>'' []]
     else [])
    @ [pc 5 ''{\<newline>'' [],
     pc 6 ''r._%s[std::string(key)] = std::string(value);\<newline>'' [S (mMember i)],
     pc 5 ''}\<newline>'' [],
     pc 4 ''}\<newline>'' []])
  @ [pc 3 ''}\<newline>'' [],
   pc 2 ''}\<newline>'' []]\<close>

definition deser_numeric_array :: "string \<Rightarrow> MemberVariable \<Rightarrow> code" where
\<open>deser_numeric_array getType i =
  [pc 3 ''if (v.IsArray())\<newline>'' [],
   pc 3 ''{\<newline>'' [],
   pc 3 ''    std::vector< %s > %s;\<newline>'' [S (getCppTypeString (mType i) False), S (mMember i)],
   pc 3 ''    for (rapidjson::SizeType i = 0; i < v.Size(); i++)\<newline>'' [],
   pc 3 ''    {\<newline>'' [],
   pc 3 ''        const rapidjson::Value& entry = v[i];\<newline>'' [],
   pc 3 ''        %s ivalue;\<newline>'' [S (getCppTypeString (mType i) False)],
   pc 3 ''        if (entry.IsString())\<newline>'' [],
   pc 3 ''        {\<newline>'' [],
   pc 3 ''            stringToInt(entry.GetString(), ivalue);\<newline>'' [],
   pc 3 ''        }\<newline>'' [],
   pc 3 ''        else if (entry.IsNumber())\<newline>'' [],
   pc 3 ''        {\<newline>'' [],
   pc 3 ''            ivalue = entry.%s();\<newline>'' [S getType],
   pc 3 ''        }\<newline>'' [],
   pc 3 ''        else\<newline>'' [],
   pc 3 ''        {\<newline>'' [],
   pc 3 ''            return false;\<newline>'' [],
   pc 3 ''        }\<newline>'' [],
   pc 3 ''        %s.push_back(ivalue);\<newline>'' [S (mMember i)],
   pc 3 ''    }\<newline>'' [],
   pc 3 ''    r.%s = %s;\<newline>'' [S (mMember i), S (mMember i)],
   pc 3 ''}\<newline>'' [],
   pc 3 ''else\<newline>'' [],
   pc 3 ''{\<newline>'' [],
   pc 3 ''    return false;\<newline>'' [],
   pc 3 ''}\<newline>'' []]\<close>

definition deser_numeric :: "string \<Rightarrow> MemberVariable \<Rightarrow> code" where
\<open>deser_numeric getType i =
  [pc 3 ''if ( v.IsString() )\<newline>'' [],
   pc 3 ''{\<newline>'' [],
   pc 4 ''%s ivalue;\<newline>'' [S (getCppTypeString (mType i) False)],
   pc 4 ''stringToInt(v.GetString(),ivalue);\<newline>'' [],
   pc 4 ''r.%s = ivalue;\<newline>'' [S (mMember i)],
   pc 3 ''}\<newline>'' [],
   pc 3 ''else if ( v.IsNumber() )\<newline>'' [],
   pc 3 ''{\<newline>'' [],
   pc 4 ''r.%s = v.%s();\<newline>'' [S (mMember i), S getType],
   pc 3 ''}\<newline>'' [],
   pc 3 ''else\<newline>'' [],
   pc 3 ''{\<newline>'' [],
   pc 4 ''return false;\<newline>'' [],
   pc 3 ''}\<newline>'' []]\<close>

fun check_names :: "StandardType \<Rightarrow> (string \<times> string) option" where
  "check_names bool_type = Some (''IsBool'', ''GetBool'')"
| "check_names float_type = Some (''IsFloat'', ''GetFloat'')"
| "check_names double_type = Some (''IsDouble'', ''GetDouble'')"
| "check_names string_type = Some (''IsString'', ''GetString'')"
| "check_names _ = None"

definition deser_checked :: "StandardType \<Rightarrow> string \<Rightarrow> string \<Rightarrow> string \<Rightarrow> MemberVariable \<Rightarrow> code" where
\<open>deser_checked type checkName getName getType i =
  [pc 3 ''if ( v.%s() )\<newline>'' [S checkName],
   pc 3 ''{\<newline>'' []]
  @ (if mIsArray i then
    [pc 4 ''if (v.IsArray())\<newline>'' [],
     pc 4 ''{\<newline>'' [],
     pc 4 ''    for (rapidjson::SizeType i = 0; i < v.Size(); i++)\<newline>'' [],
     pc 4 ''    {\<newline>'' [],
     pc 4 ''        const rapidjson::Value& item = v[i];\<newline>'' [],
     pc 4 ''        if (item.%s())\<newline>'' [S checkName],
     pc 4 ''        {\<newline>'' [],
     pc 4 ''            r.%s.push_back(std::string(item.%s()));\<newline>'' [S (mMember i), S getName],
     pc 4 ''        }\<newline>'' [],
     pc 4 ''        else\<newline>'' [],
     pc 4 ''        {\<newline>'' [],
     pc 4 ''            return false;\<newline>'' [],
     pc 4 ''        }\<newline>'' [],
     pc 4 ''    }\<newline>'' [],
     pc 4 ''}\<newline>'' [],
     pc 4 ''else\<newline>'' [],
     pc 4 ''{\<newline>'' [],
     pc 4 ''    return false;\<newline>'' [],
     pc 4 ''}\<newline>'' []]
   else
    [pc 4 ''r.%s = v.%s();\<newline>'' [S (mMember i), S getType]])
  @ [pc 3 ''}\<newline>'' []]
  @ (if (type = float_type) then
    [pc 3 ''else if ( v.IsNumber() )\<newline>'' [],
     pc 3 ''{\<newline>'' [],
     pc 4 ''r.%s = float(v.GetUint64());\<newline>'' [S (mMember i), S getType],
     pc 3 ''}\<newline>'' []]
   else [])
  @ (if (type = double_type) then
    [pc 3 ''else if ( v.IsNumber() )\<newline>'' [],
     pc 3 ''{\<newline>'' [],
     pc 4 ''r.%s = double(v.GetUint64());\<newline>'' [S (mMember i), S getType],
     pc 3 ''}\<newline>'' []]
   else [])
  @ [pc 3 ''else\<newline>'' [],
   pc 3 ''{\<newline>'' [],
   pc 4 ''return false;\<newline>'' [],
   pc 3 ''}\<newline>'' []]\<close>

definition deser_value :: "StandardType \<Rightarrow> bool \<Rightarrow> string \<Rightarrow> MemberVariable \<Rightarrow> code" where
\<open>deser_value type isNumeric getType i =
  [pc 2 ''auto found = d.FindMember("%s");\<newline>'' [S (mMember i)],
   pc 2 ''if ( found != d.MemberEnd() )\<newline>'' [],
   pc 2 ''{\<newline>'' [],
   pc 3 ''const rapidjson::Value &v = found->value;\<newline>'' []]
  @ (if isNumeric then
       (if mIsArray i then deser_numeric_array getType i else deser_numeric getType i)
     else (case check_names type of
             None \<Rightarrow> [Abort AssertFail]
           | Some (checkName, getName) \<Rightarrow> deser_checked type checkName getName getType i))
  @ [pc 2 ''}\<newline>'' []]
  @ (if (mIsOptional i \<noteq> required) then
    []
   else
    [pc 2 ''else\<newline>'' [],
     pc 2 ''{\<newline>'' [],
     pc 3 ''return false;\<newline>'' [],
     pc 2 ''}\<newline>'' []])\<close>

definition deser_standard :: "string list \<Rightarrow> MemberVariable \<Rightarrow> code" where
\<open>deser_standard nonMapItems i =
  (case deserializeTypeName (getStandardType (mType i)) of
     (getType, isNumeric) \<Rightarrow>
       (if mIsMap i then deser_map isNumeric nonMapItems i
        else (case getType of
                None \<Rightarrow> []
              | Some g \<Rightarrow> deser_value (getStandardType (mType i)) isNumeric g i)))\<close>

definition deser_enum_map :: "MemberVariable \<Rightarrow> code" where
\<open>deser_enum_map i =
  [pc 2 ''//Deserialize this array of enums as a map.\<newline>'' [],
   pc 2 ''for (rapidjson::Value::ConstMemberIterator iter = d.MemberBegin(); iter != d.MemberEnd(); ++iter)\<newline>'' [],
   pc 2 ''{\<newline>'' [],
   pc 2 ''    const char* key = iter->name.GetString();\<newline>'' [],
   pc 2 ''    const rapidjson::Value &item = iter->value;\<newline>'' [],
   pc 2 ''    if (item.IsArray())\<newline>'' [],
   pc 2 ''    {\<newline>'' [],
   pc 2 ''        std::vector< %s > items;\<newline>'' [S (mType i)],
   pc 2 ''        for (rapidjson::SizeType i = 0; i < item.Size(); i++)\<newline>'' [],
   pc 2 ''        {\<newline>'' [],
   pc 2 ''            const rapidjson::Value& entry = item[i];\<newline>'' [],
   pc 2 ''            if (entry.IsString())\<newline>'' [],
   pc 2 ''            {\<newline>'' [],
   pc 2 ''                bool isOk;\<newline>'' [],
   pc 2 ''                %s p = unstringifyEnum<%s>(entry.GetString(), isOk);\<newline>'' [S (mType i), S (mType i)],
   pc 2 ''                if (isOk)\<newline>'' [],
   pc 2 ''                {\<newline>'' [],
   pc 2 ''                    items.push_back(p);\<newline>'' [],
   pc 2 ''                }\<newline>'' [],
   pc 2 ''                else\<newline>'' [],
   pc 2 ''                {\<newline>'' [],
   pc 2 ''                    return false;\<newline>'' [],
   pc 2 ''                }\<newline>'' [],
   pc 2 ''            }\<newline>'' [],
   pc 2 ''            else\<newline>'' [],
   pc 2 ''            {\<newline>'' [],
   pc 2 ''                return false;\<newline>'' [],
   pc 2 ''            }\<newline>'' [],
   pc 2 ''        }\<newline>'' [],
   pc 2 ''        r._%s[std::string(key)] = items;\<newline>'' [S (mMember i)],
   pc 2 ''    }\<newline>'' [],
   pc 2 ''    else\<newline>'' [],
   pc 2 ''    {\<newline>'' [],
   pc 2 ''        return false;\<newline>'' [],
   pc 2 ''    }\<newline>'' [],
   pc 2 ''}\<newline>'' []]\<close>

definition deser_array :: "bool \<Rightarrow> MemberVariable \<Rightarrow> code" where
\<open>deser_array isEnum i =
  [pc 2 ''//Deserialize an array of objects of type '%s' to array '%s'.\<newline>'' [S (mType i), S (mMember i)],
   pc 2 ''auto found = d.FindMember("%s");\<newline>'' [S (mMember i)],
   pc 2 ''if (found != d.MemberEnd())\<newline>'' [],
   pc 2 ''{\<newline>'' [],
   pc 3 ''const rapidjson::Value &v = found->value;\<newline>'' [],
   pc 3 ''if (v.IsArray())\<newline>'' [],
   pc 3 ''{\<newline>'' [],
   pc 4 ''for (rapidjson::SizeType i = 0; i < v.Size(); i++)\<newline>'' [],
   pc 4 ''{\<newline>'' [],
   pc 5 ''const rapidjson::Value& item = v[i];\<newline>'' []]
  @ (if isEnum then
    [pc 5 ''if (item.IsString())\<newline>'' [],
     pc 5 ''{\<newline>'' [],
     pc 6 ''bool isOk;\<newline>'' [],
     pc 6 ''%s h = unstringifyEnum<%s>(item.GetString(), isOk);\<newline>'' [S (mType i), S (mType i)],
     pc 6 ''if (isOk)\<newline>'' [],
     pc 6 ''{\<newline>'' [],
     pc 7 ''r.acl.push_back(h);\<newline>'' [],
     pc 6 ''}\<newline>'' [],
     pc 6 ''else\<newline>'' [],
     pc 6 ''{\<newline>'' [],
     pc 7 ''return false;\<newline>'' [],
     pc 6 ''}\<newline>'' [],
     pc 5 ''}\<newline>'' [],
     pc 5 ''else\<newline>'' [],
     pc 5 ''{\<newline>'' [],
     pc 6 ''return false;\<newline>'' [],
     pc 5 ''}\<newline>'' []]
   else
    [pc 2 ''            %s h;\<newline>'' [S (mType i)],
     pc 2 ''            if (deserializeFrom(item, h))\<newline>'' [],
     pc 2 ''            {\<newline>'' [],
     pc 2 ''                r.%s.push_back(h);\<newline>'' [S (mMember i)],
     pc 2 ''            }\<newline>'' [],
     pc 2 ''            else\<newline>'' [],
     pc 2 ''            {\<newline>'' [],
     pc 2 ''                return false;\<newline>'' [],
     pc 2 ''            }\<newline>'' []])
  @ [pc 2 ''        }\<newline>'' [],
   pc 2 ''    }\<newline>'' [],
   pc 2 ''    else\<newline>'' [],
   pc 2 ''    {\<newline>'' [],
   pc 2 ''        return false;\<newline>'' [],
   pc 2 ''    }\<newline>'' [],
   pc 2 ''}\<newline>'' []]
  @ (if (mIsOptional i \<noteq> required) then
    []
   else
    [pc 2 ''else\<newline>'' [],
     pc 2 ''{\<newline>'' [],
     pc 3 ''return false;\<newline>'' [],
     pc 2 ''}\<newline>'' []])\<close>

definition deser_enum :: "MemberVariable \<Rightarrow> code" where
\<open>deser_enum i =
  [pc 2 ''auto found = d.FindMember("%s");\<newline>'' [S (mMember i)],
   pc 2 ''if ( found != d.MemberEnd() )\<newline>'' [],
   pc 2 ''{\<newline>'' [],
   pc 3 ''const rapidjson::Value &v = found->value;\<newline>'' [],
   pc 3 ''if ( v.IsString() )\<newline>'' [],
   pc 3 ''{\<newline>'' [],
   pc 4 ''bool isOk;\<newline>'' [],
   pc 4 ''r.%s = unstringifyEnum<%s>(v.GetString(),isOk);\<newline>'' [S (mMember i), S (mType i)],
   pc 4 ''if ( !isOk )\<newline>'' [],
   pc 4 ''{\<newline>'' [],
   pc 5 ''return false;\<newline>'' [],
   pc 4 ''}\<newline>'' [],
   pc 3 ''}\<newline>'' [],
   pc 3 ''else\<newline>'' [],
   pc 3 ''{\<newline>'' []]
  @ (if mSerializeEnumAsInteger i then
    [pc 4 ''if ( v.IsNumber() )\<newline>'' [],
     pc 4 ''{\<newline>'' [],
     pc 5 ''uint64_t evalue = v.GetUint64();\<newline>'' [],
     pc 5 ''r.%s = %s(evalue);\<newline>'' [S (mMember i), S (mType i)],
     pc 4 ''}\<newline>'' [],
     pc 4 ''else\<newline>'' [],
     pc 4 ''{\<newline>'' [],
     pc 5 ''return false;\<newline>'' [],
     pc 4 ''}\<newline>'' []]
   else
    [pc 4 ''return false;\<newline>'' []])
  @ [pc 3 ''}\<newline>'' [],
   pc 2 ''}\<newline>'' []]\<close>

definition deser_object :: "MemberVariable \<Rightarrow> code" where
\<open>deser_object i =
  [pc 2 ''// Deserialize object type '%s' into member variable '%s'\<newline>'' [S (mType i), S (mMember i)],
   pc 2 ''auto found = d.FindMember("%s");\<newline>'' [S (mMember i)],
   pc 2 ''if (found != d.MemberEnd())\<newline>'' [],
   pc 2 ''{\<newline>'' [],
   pc 3 ''%s h;\<newline>'' [S (mType i)],
   pc 3 ''if ( deserializeFrom(found->value, h) )\<newline>'' [],
   pc 3 ''{\<newline>'' [],
   pc 4 ''r.%s = h;\<newline>'' [S (mMember i)],
   pc 3 ''}\<newline>'' [],
   pc 3 ''else\<newline>'' [],
   pc 3 ''{\<newline>'' [],
   pc 4 ''return false;\<newline>'' [S (mMember i)],
   pc 3 ''}\<newline>'' [],
   pc 2 ''}\<newline>'' []]
  @ (if (mIsOptional i \<noteq> required) then
    []
   else
    [pc 2 ''else\<newline>'' [],
     pc 2 ''{\<newline>'' [],
     pc 3 ''return false;\<newline>'' [],
     pc 2 ''}\<newline>'' []])\<close>

definition deser_named :: "ClassEnumMap \<Rightarrow> MemberVariable \<Rightarrow> code" where
\<open>deser_named classEnum i =
  (case classEnum (mType i) of
     None \<Rightarrow> [pc 2 ''// TODO: Need to deserialize this type.\<newline>'' []]
   | Some isEnum \<Rightarrow>
       (if mIsArray i then (if mIsMap i then deser_enum_map i else deser_array isEnum i)
        else if isEnum then deser_enum i
        else deser_object i))\<close>

definition deser_member :: "ClassEnumMap \<Rightarrow> string list \<Rightarrow> MemberVariable \<Rightarrow> code" where
\<open>deser_member classEnum nonMapItems i =
  (if mInheritsFrom i \<noteq> [] then []
   else [pc 1 ''// Deserialize member: '%s' of type '%s'\<newline>'' [S (mMember i), S (mType i)],
   pc 1 ''{\<newline>'' []]
     @ (if getStandardType (mType i) \<noteq> st_none then deser_standard nonMapItems i
        else deser_named classEnum i)
     @ [pc 1 ''}\<newline>'' []])\<close>

definition non_map_items :: "Object \<Rightarrow> string list" where
  "non_map_items ob =
     map mMember (filter (\<lambda>i. mInheritsFrom i = [] \<and> \<not> mIsMap i) (mItems ob))"

definition saveDeserialize_impl :: "ClassEnumMap \<Rightarrow> Object \<Rightarrow> code" where
\<open>saveDeserialize_impl classEnum ob =
  [lf,
   pc 0 ''// Deserialize object %s\<newline>'' [S (mName ob)],
   pc 0 ''template<typename DocumentOrObject>\<newline>'' [],
   pc 0 ''bool deserializeFrom(const DocumentOrObject& d, %s& r)\<newline>'' [S (mName ob)],
   pc 0 ''{\<newline>'' []]
  @ (if (mInheritsFromO ob \<noteq> []) then
    [pc 1 ''//Deserialize the base class (%s) first.\<newline>'' [S (mInheritsFromO ob)],
     pc 1 ''if ( !deserializeFrom(d,static_cast<%s&>(r)))\<newline>'' [S (mInheritsFromO ob)],
     pc 1 ''{\<newline>'' [],
     pc 2 ''return false;\<newline>'' [],
     pc 1 ''}\<newline>'' []]
   else [])
  @ concat (map (deser_member classEnum (non_map_items ob)) (mItems ob))
  @ [pc 0 ''    return true;\<newline>'' [],
   pc 0 ''}\<newline>'' [],
   lf,
   lf,
   pc 0 ''template struct details::Deserialize<%s>;\<newline>'' [S (mName ob)],
   lf]\<close>

definition saveDeserialize :: "ClassEnumMap \<Rightarrow> Object \<Rightarrow> code \<times> code" where
  "saveDeserialize classEnum ob =
     (if mIsEnum ob then ([], []) else ([lf], saveDeserialize_impl classEnum ob))"

end
