(* ===== verification/EmitEnum.thy ===== *)
theory EmitEnum
  imports DomModel
begin

text \<open>
  \<open>Object::saveTypeScript\<close> and \<open>Object::saveOmniCommand\<close> (src/src/CreateDOM.cpp). For an enum
  \<open>saveTypeScript\<close> prints three texts: the declarations of \<open>stringifyEnum\<close> (on the header), the
  name table with the two lookup functions (on the implementation) and the TypeScript enum; for
  a class it prints the TypeScript type. The call of \<open>saveOmniCommand\<close> is compiled out
  (\<open>EXPORT_COMMAND_CODE\<close> is 0), the function itself is not.
\<close>

section \<open>Enums\<close>

definition enum_declarations :: "Object \<Rightarrow> code" where
\<open>enum_declarations ob =
  [lf,
   pc 0 ''const char *stringifyEnum(%s x);\<newline>'' [S (mName ob)],
   pc 0 ''std::string stringifyEnumStdString(%s x);\<newline>'' [S (mName ob)],
   lf]\<close>

text \<open>The string an enum item is written as: its alias when it has one.\<close>

definition enum_string :: "MemberVariable \<Rightarrow> string" where
  "enum_string i = (if mAlias i \<noteq> [] then mAlias i else mMember i)"

definition enum_table :: "Object \<Rightarrow> code" where
\<open>enum_table ob =
  [pc 0 ''struct %sKey\<newline>'' [S (mName ob)],
   pc 0 ''{\<newline>'' [],
   pc 1 ''%s key;\<newline>'' [S (mName ob)],
   pc 1 ''const char *value;\<newline>'' [],
   pc 0 ''};\<newline>'' [],
   pc 0 ''static %sKey %sList[]\<newline>'' [S (mName ob), S (mName ob)],
   pc 0 ''{\<newline>'' []]
  @ map (\<lambda>i. pc 1 ''{ %s::%s, "%s" },\<newline>'' [S (mName ob), S (mMember i), S (enum_string i)]) (mItems ob)
  @ [pc 0 ''};\<newline>'' []]\<close>

definition enum_stringify :: "Object \<Rightarrow> code" where
\<open>enum_stringify ob =
  [pc 0 ''const char* stringifyEnum(%s in)\<newline>'' [S (mName ob)],
   pc 0 ''{\<newline>'' [],
   pc 1 ''const char *ret = nullptr;\<newline>'' [],
   pc 1 ''static std::unordered_map<%s, const char *> enumToStringMap;\<newline>'' [S (mName ob)],
   pc 1 ''static std::once_flag first;\<newline>'' [],
   pc 1 ''std::call_once(first, []()\<newline>'' [],
   pc 1 ''{\<newline>'' [],
   pc 2 ''for (auto e : %sList)\<newline>'' [S (mName ob)],
   pc 2 ''{\<newline>'' [],
   pc 3 ''enumToStringMap[e.key] = e.value;\<newline>'' [],
   pc 2 ''}\<newline>'' [],
   pc 1 ''});\<newline>'' [],
   pc 1 ''{\<newline>'' [],
   pc 2 ''const auto &found = enumToStringMap.find(in);\<newline>'' [],
   pc 2 ''if (found != enumToStringMap.end())\<newline>'' [],
   pc 2 ''{\<newline>'' [],
   pc 3 ''ret = (*found).second;\<newline>'' [],
   pc 2 ''}\<newline>'' [],
   pc 2 ''else\<newline>'' [],
   pc 2 ''{\<newline>'' [],
   pc 3 ''assert(0); // This should never happen unless the enum passed was corrupted\<newline>'' [],
   pc 2 ''}\<newline>'' [],
   pc 1 ''}\<newline>'' [],
   pc 1 ''return ret;\<newline>'' [],
   pc 0 ''}\<newline>'' [],
   pc 0 ''\<newline>'' [],
   lf,
   pc 0 ''std::string stringifyEnumStdString(%s in)\<newline>'' [S (mName ob)],
   pc 0 ''{\<newline>'' [],
   pc 1 ''return std::string(stringifyEnum(in));\<newline>'' [],
   pc 0 ''}\<newline>'' [],
   lf]\<close>

definition enum_unstringify :: "Object \<Rightarrow> code" where
\<open>enum_unstringify ob =
  [pc 0 ''template<> %s unstringifyEnum(const std::string &in, bool& isValid)\<newline>'' [S (mName ob)],
   pc 0 ''{\<newline>'' []]
  @ (case mItems ob of
       [] \<Rightarrow> [pc 0 ''    %s ret;\<newline>'' [S (mName ob)]]
     | i # _ \<Rightarrow> [pc 0 ''    %s ret = %s::%s;\<newline>'' [S (mName ob), S (mName ob), S (mMember i)]])
  @ [pc 0 ''    isValid = false;\<newline>'' [],
   pc 0 ''    static std::unordered_map<std::string, %s> stringToEnumMap;\<newline>'' [S (mName ob)],
   pc 0 ''    static std::once_flag first;\<newline>'' [],
   pc 0 ''    std::call_once(first, []()\<newline>'' [],
   pc 0 ''    {\<newline>'' [],
   pc 0 ''        for (auto e : %sList)\<newline>'' [S (mName ob)],
   pc 0 ''        {\<newline>'' [],
   pc 0 ''            stringToEnumMap[std::string(e.value)] = e.key;\<newline>'' [],
   pc 0 ''        }\<newline>'' [],
   pc 0 ''    });\<newline>'' [],
   pc 0 ''    const auto &found = stringToEnumMap.find(in);\<newline>'' [],
   pc 0 ''    if (found != stringToEnumMap.end())\<newline>'' [],
   pc 0 ''    {\<newline>'' [],
   pc 0 ''        ret = (*found).second;\<newline>'' [],
   pc 0 ''        isValid = true;\<newline>'' [],
   pc 0 ''    }\<newline>'' [],
   pc 0 ''    return ret;\<newline>'' [],
   pc 0 ''}\<newline>'' [],
   lf]\<close>

definition enum_implementation :: "Object \<Rightarrow> code" where
\<open>enum_implementation ob =
  enum_table ob @ enum_stringify ob @ enum_unstringify ob\<close>

definition descriptions :: "Object \<Rightarrow> code" where
\<open>descriptions ob =
  [pc 0 ''\<newline>'' []]
  @ (if (mShortDescriptionO ob \<noteq> []) then
    [pc 0 ''// %s\<newline>'' [S (mShortDescriptionO ob)]]
   else [])
  @ (if (mLongDescriptionO ob \<noteq> []) then
    [pc 0 ''// %s\<newline>'' [S (mLongDescriptionO ob)]]
   else [])\<close>

definition ts_enum :: "Object \<Rightarrow> code" where
\<open>ts_enum ob =
  descriptions ob
  @ [pc 0 ''enum %s\<newline>'' [S (mName ob)],
   pc 0 ''{\<newline>'' []]
  @ concat (map (\<lambda>i.
    [pc 1 ''%s,'' [S (mMember i)],
     pc 10 ''// %s\<newline>'' [S (mShortDescription i)]]) (mItems ob))
  @ [pc 0 ''}\<newline>'' [],
   pc 0 ''\<newline>'' []]\<close>

section \<open>TypeScript classes\<close>

definition typescript_type :: "string \<Rightarrow> string" where
  "typescript_type type =
     (if type = ''u64'' then ''uint64''
      else if type = ''u32'' then ''uint32''
      else if type = ''u16'' then ''uint16''
      else if type = ''u8'' then ''uint8''
      else if type = ''i64'' then ''int64''
      else if type = ''i32'' then ''int32''
      else if type = ''i16'' then ''int16''
      else if type = ''i8'' then ''int8''
      else if type = ''bool'' then ''boolean''
      else type)"

definition ts_member :: "MemberVariable \<Rightarrow> code" where
\<open>ts_member i =
  (if mMember i = ''_skip_'' then []
   else if mInheritsFrom i \<noteq> [] then []
   else (if mIsMap i then
      [pc 1 ''[%s%s]%s: %s%s // %s\<newline>'' [S (mMember i), S (mMapType i), S (if (mIsOptional i \<noteq> required) then ''?'' else ''''), S (typescript_type (mType i)), S (if mIsArray i then ''[]'' else ''''), S (mShortDescription i)]]
     else
      [pc 1 ''%s%s: %s%s // %s\<newline>'' [S (mMember i), S (if (mIsOptional i \<noteq> required) then ''?'' else ''''), S (typescript_type (mType i)), S (if mIsArray i then ''[]'' else ''''), S (mShortDescription i)]]))\<close>

definition ts_class :: "Object \<Rightarrow> code" where
\<open>ts_class ob =
  descriptions ob
  @ [pc 0 ''type %s '' [S (mName ob)]]
  @ (if (mInheritsFromO ob \<noteq> []) then
    [pc 0 '' = %s & {\<newline>'' [S (mInheritsFromO ob)]]
   else
    [pc 0 '' = {\<newline>'' []])
  @ concat (map ts_member (mItems ob))
  @ [pc 0 ''}\<newline>\<newline>'' []]\<close>

text \<open>The calls on \<open>cpdom\<close>, \<open>cpenum\<close> and \<open>cpenumImpl\<close>.\<close>

definition saveTypeScript :: "Object \<Rightarrow> code \<times> code \<times> code" where
  "saveTypeScript ob =
     (if stricmp0 (mTypeO ob) ''Enum'' then (ts_enum ob, enum_declarations ob, enum_implementation ob)
      else (ts_class ob, [], []))"

section \<open>Command classes\<close>

text \<open>
  The scan over \<open>baseName\<close> that turns every \<open>Command\<close> into \<open>Response\<close>: the command and the
  response name.
\<close>

fun omni_names :: "nat \<Rightarrow> string \<Rightarrow> string \<times> string" where
  "omni_names skip [] = ([], [])"
| "omni_names (Suc skip) (c # cs) = omni_names skip cs"
| "omni_names 0 (c # cs) =
     (if prefix ''Command'' (c # cs)
      then (let (a, b) = omni_names 6 cs in (''Command'' @ a, ''Response'' @ b))
      else (let (a, b) = omni_names 0 cs in (c # a, c # b)))"

definition omni_command_text :: "string \<Rightarrow> string \<Rightarrow> string \<Rightarrow> code" where
\<open>omni_command_text commandName responseName commandType =
  [pc 0 ''#include "OmniApi.h"\<newline>'' [],
   pc 0 ''#include "omniverse_api.h"\<newline>'' [],
   pc 0 ''#include "ApiConnection.h"\<newline>'' [],
   pc 0 ''#include "TimeStamp.h"\<newline>'' [],
   pc 0 ''#include "UserAllocated.h"\<newline>'' [],
   pc 0 ''#include "RapidJSONDocument.h"\<newline>'' [],
   pc 0 ''#include "useraccounts/UserAccounts.h"\<newline>'' [],
   pc 0 ''\<newline>'' [],
   pc 0 ''namespace omniapi\<newline>'' [],
   pc 0 ''{\<newline>'' [],
   pc 0 ''\<newline>'' [],
   pc 0 ''\<newline>'' [],
   pc 0 ''\<newline>'' [],
   pc 0 ''class OmniApiCommand%s : public OmniApiCommand, public %s, public userallocated::UserAllocated\<newline>'' [S commandName, S responseName],
   pc 0 ''{\<newline>'' [],
   pc 0 ''public:\<newline>'' [],
   pc 0 ''    OmniApiCommand%s(const rapidjson::RapidJSONDocument &d,OmniConnection *oc)\<newline>'' [S commandName],
   pc 0 ''    {\<newline>'' [],
   pc 0 ''        %s p;\<newline>'' [S commandName],
   pc 0 ''        deserializeFrom<rapidjson::Document>(d,p);\<newline>'' [],
   pc 0 ''        %s::id = p.id;\<newline>'' [S responseName],
   pc 0 ''    }\<newline>'' [],
   pc 0 ''\<newline>'' [],
   pc 0 ''    virtual uint64_t getId(void) const final\<newline>'' [],
   pc 0 ''    {\<newline>'' [],
   pc 0 ''        return %s::id;\<newline>'' [S responseName],
   pc 0 ''    }\<newline>'' [],
   pc 0 ''\<newline>'' [],
   pc 0 ''    virtual CommandType getCommandType(void) const final\<newline>'' [],
   pc 0 ''    {\<newline>'' [],
   pc 0 ''        return CommandType::%s;\<newline>'' [S commandType],
   pc 0 ''    }\<newline>'' [],
   pc 0 ''\<newline>'' [],
   pc 0 ''    virtual void process(Callback *c) final\<newline>'' [],
   pc 0 ''    {\<newline>'' [],
   pc 0 ''        // Get the time stamp on the server at the time this response went out\<newline>'' [],
   pc 0 ''        ts.omni_server_out_ts = timestamp::getTimeStamp();\<newline>'' [],
   pc 0 ''        // Set the status response string to 'OK'\<newline>'' [],
   pc 0 ''        status = std::string(omniapi::stringifyEnum(omniapi::StatusType::OK));\<newline>'' [],
   pc 0 ''        // Serialize the JSON response\<newline>'' [],
   pc 0 ''        std::string response = serialize(*this);\<newline>'' [],
   pc 0 ''        // Send the response back to the caller\<newline>'' [],
   pc 0 ''        c->sendResponse(this,response.c_str(),response.size(), nullptr,0,true);\<newline>'' [],
   pc 0 ''    }\<newline>'' [],
   pc 0 ''\<newline>'' [],
   pc 0 ''    virtual void release(void)\<newline>'' [],
   pc 0 ''    {\<newline>'' [],
   pc 0 ''        delete this;\<newline>'' [],
   pc 0 ''    }\<newline>'' [],
   pc 0 ''\<newline>'' [],
   pc 0 ''};\<newline>'' [],
   pc 0 ''\<newline>'' [],
   pc 0 ''OmniApiCommand *create%sInstance(const rapidjson::RapidJSONDocument &d,OmniConnection *oc)\<newline>'' [S commandName],
   pc 0 ''{\<newline>'' [],
   pc 0 ''    OmniApiCommand%s *ret = UA_NEW(OmniApiCommand%s)(d,oc);\<newline>'' [S commandName, S commandName],
   pc 0 ''    if ( !ret->getId() )\<newline>'' [],
   pc 0 ''    {\<newline>'' [],
   pc 0 ''        ret->release();\<newline>'' [],
   pc 0 ''        ret = nullptr;\<newline>'' [],
   pc 0 ''    }\<newline>'' [],
   pc 0 ''    return static_cast< OmniApiCommand *>(ret);\<newline>'' [],
   pc 0 ''}\<newline>'' [],
   pc 0 ''\<newline>'' [],
   pc 0 ''}\<newline>'' []]\<close>

text \<open>The instance it records, the file it names, and the text of that file.\<close>

definition saveOmniCommand :: "string \<Rightarrow> string \<Rightarrow> (string \<times> string) \<times> string \<times> code" where
  "saveOmniCommand baseName commandType =
     (let (commandName, responseName) = omni_names 0 baseName
      in ((baseName, commandType), ''OmniApi'' @ commandName @ ''.cpp'',
          omni_command_text commandName responseName commandType))"

end
