(* ===== verification/EmitCpp.thy ===== *)
theory EmitCpp
  imports ValueText
begin

text \<open>
  The header text of one object: \<open>Object::saveCPP(cpdom, ...)\<close> (src/src/CreateDOM.cpp), the
  generator of the STL flavour that \<open>main\<close> runs. The C++ lambdas \<open>classDefinition\<close>,
  \<open>classBody\<close> and \<open>endClass\<close> are definitions of their own, the body cut at its sections:
  \<open>isMember\<close>, the equality operators, the constructors and the member declarations. The code
  calls them with \<open>isDef = false\<close>; the parameter is kept.
\<close>

section \<open>Parts of a class\<close>

text \<open>
  \<open>arrays\<close> collects the element types of arrays; \<open>cloneObjects\<close> the classes that derive from
  \<open>CloneObject\<close>.
\<close>

definition add_arrays :: "Object \<Rightarrow> string list \<Rightarrow> string list" where
  "add_arrays ob arrays =
     fold (\<lambda>i a. if mIsArray i \<and> mType i \<notin> set a then a @ [mType i] else a) (mItems ob) arrays"

definition doClone :: "bool \<Rightarrow> string list \<Rightarrow> Object \<Rightarrow> bool" where
  "doClone isDef cloneObjects ob \<longleftrightarrow>
     (mClone ob \<or> mNeedsReflectionO ob) \<and> isDef \<and>
     \<not> (mInheritsFromO ob \<noteq> [] \<and> mInheritsFromO ob \<in> set cloneObjects)"

definition cpp_descriptions :: "Object \<Rightarrow> code" where
\<open>cpp_descriptions ob =
  [pc 0 ''\<newline>'' []]
  @ (if (mShortDescriptionO ob \<noteq> []) then
    [pc 0 ''// %s\<newline>'' [S (mShortDescriptionO ob)]]
   else [])
  @ (if (mLongDescriptionO ob \<noteq> []) then
    [pc 0 ''// %s\<newline>'' [S (mLongDescriptionO ob)]]
   else [])\<close>

definition cpp_class_definition :: "bool \<Rightarrow> string list \<Rightarrow> Object \<Rightarrow> code" where
\<open>cpp_class_definition isDef cloneObjects ob =
  cpp_descriptions ob
  @ [pc 0 ''class %s'' [S (getClassNameString (mName ob) isDef)]]
  @ (if (mInheritsFromO ob \<noteq> []) then
    [pc 0 '' : public %s'' [S (getClassNameString (mInheritsFromO ob) isDef)]]
   else [])
  @ (if doClone isDef cloneObjects ob then [pc 0 ''%s public CloneObject'' [S (if (mInheritsFromO ob = []) then '':'' else '','')]] else [])
  @ [pc 0 ''\<newline>'' [],
   pc 0 ''{\<newline>'' [],
   pc 0 ''public:\<newline>'' []]\<close>

definition all_non_map_items :: "Object \<Rightarrow> string list" where
  "all_non_map_items ob = map mMember (filter (\<lambda>k. \<not> mIsMap k) (mItems ob))"

definition is_member_tests :: "string list \<Rightarrow> code" where
\<open>is_member_tests names =
  (case names of
     [] \<Rightarrow> []
   | [n] \<Rightarrow>
       [pc 2 ''if ( strcmp(name,"%s") == 0 )\<newline>'' [S n],
        pc 2 ''{\<newline>'' [],
        pc 3 ''ret = true;\<newline>'' [],
        pc 2 ''}\<newline>'' []]
   | n # ns \<Rightarrow>
       [pc 2 ''if ( strcmp(name,"%s") == 0 ||\<newline>'' [S n]]
       @ map (\<lambda>m. pc 3 ''strcmp(name,"%s") == 0 ||\<newline>'' [S m]) (butlast ns)
       @ [pc 3 ''strcmp(name,"%s") == 0 )\<newline>'' [S (last ns)],
          pc 2 ''{\<newline>'' [],
          pc 3 ''ret = true;\<newline>'' [],
          pc 2 ''}\<newline>'' []])\<close>

definition cpp_is_member :: "Object \<Rightarrow> code" where
\<open>cpp_is_member ob =
  [lf,
   pc 1 ''// Defines a method which returns 'true' if 'name' corresponds to a member variable of this class or base class.\<newline>'' [],
   pc 1 ''bool isMember(const char *name) const\<newline>'' [],
   pc 1 ''{\<newline>'' []]
  @ (if (mInheritsFromO ob = []) then
    [pc 2 ''bool ret = false;\<newline>'' []]
   else
    [pc 2 ''bool ret = %s::isMember(name);\<newline>'' [S (mInheritsFromO ob)]])
  @ [pc 2 ''(name);\<newline>'' []]
  @ is_member_tests (all_non_map_items ob)
  @ [pc 2 ''return ret;\<newline>'' [],
   pc 1 ''}\<newline>'' [],
   lf]\<close>

definition equal_name :: "MemberVariable \<Rightarrow> string" where
  "equal_name i = (if mIsMap i then ''_'' @ mMember i else mMember i)"

definition cpp_equality :: "Object \<Rightarrow> code" where
\<open>cpp_equality ob =
  [pc 1 ''//Defines the equality operator for this class and any sub-class.\<newline>'' [],
   pc 1 ''bool operator==(const %s& other) const\<newline>'' [S (mName ob)],
   pc 1 ''{\<newline>'' []]
  @ (if (mInheritsFromO ob = []) then
    [pc 2 ''bool equal = true;\<newline>'' []]
   else
    [pc 2 ''bool equal = %s(*this) == %s(other);\<newline>'' [S (mInheritsFromO ob), S (mInheritsFromO ob)]])
  @ concat (map (\<lambda>i.
    (if mInheritsFrom i \<noteq> [] then [] else [pc 2 ''equal &= %s == other.%s;\<newline>'' [S (equal_name i), S (equal_name i)]])) (mItems ob))
  @ [pc 2 ''return equal;\<newline>'' [],
   pc 1 ''}\<newline>'' [],
   lf,
   pc 1 ''//Defines the not equal operator for this class and any sub-class.\<newline>'' [],
   pc 1 ''bool operator!=(const %s& other) const\<newline>'' [S (mName ob)],
   pc 1 ''{\<newline>'' [],
   pc 2 ''return !((*this) == other);\<newline>'' [],
   pc 1 ''}\<newline>'' [],
   lf]\<close>

definition comma_calls :: "code list \<Rightarrow> code" where
  "comma_calls css =
     (case css of
        [] \<Rightarrow> []
      | c # cs \<Rightarrow> c @ concat (map (\<lambda>c. pc 0 '','' [] # c) cs))"

definition cpp_assignment :: "bool \<Rightarrow> Object \<Rightarrow> code" where
\<open>cpp_assignment isDef ob =
  [pc 1 ''// Declare the constructor.\<newline>'' [],
   pc 1 ''%s() { }\<newline>'' [S (getClassNameString (mName ob) isDef)],
   pc 0 ''\<newline>'' [],
   pc 1 ''// Declare the assignment constructor.\<newline>'' [],
   pc 1 ''%s('' [S (getClassNameString (mName ob) isDef)]]
  @ comma_calls (map (\<lambda>i. [pc 0 ''const %s &_%s'' [S (getCppTypeString (mType i) isDef), S (getMemberName (mMember i) isDef (mIsMap i))]]) (mItems ob))
  @ [pc 0 '')\<newline>'' [],
   pc 1 ''{\<newline>'' []]
  @ concat (map (\<lambda>i.
    [pc 2 ''%s = _%s;\<newline>'' [S (getMemberName (mMember i) isDef (mIsMap i)), S (getMemberName (mMember i) isDef (mIsMap i))]]) (mItems ob))
  @ [pc 1 ''}\<newline>'' [],
   pc 0 ''\<newline>'' []]\<close>

definition has_inherited_defaults :: "Object \<Rightarrow> bool" where
  "has_inherited_defaults ob \<longleftrightarrow>
     list_ex (\<lambda>i. mInheritsFrom i \<noteq> [] \<and> mDefaultValue i \<noteq> []) (mItems ob)"

definition cpp_inherited_constructor :: "float_io \<Rightarrow> DOM \<Rightarrow> bool \<Rightarrow> Object \<Rightarrow> code" where
\<open>cpp_inherited_constructor io dm isDef ob =
  [pc 1 ''// Declare the constructor.\<newline>'' [],
   pc 1 ''%s()\<newline>'' [S (getClassNameString (mName ob) isDef)],
   pc 1 ''{\<newline>'' []]
  @ concat (map (\<lambda>i.
    (if ((mInheritsFrom i \<noteq> []) \<and> (mDefaultValue i \<noteq> [])) then
      [pc 2 ''%s%s::%s = %s;\<newline>'' [S (mInheritsFrom i), S (if isDef then ''Def'' else ''''), S (getMemberName (mMember i) isDef (mIsMap i)), S (getCppRValue io dm isDef i)]]
     else [])) (mItems ob))
  @ [pc 1 ''}\<newline>'' [],
   pc 0 ''\<newline>'' []]\<close>

definition map_key_type :: "MemberVariable \<Rightarrow> string" where
  "map_key_type i = (if mMapType i = ''string'' then ''std::string'' else mMapType i)"

text \<open>The container type of an array member that is not a string array, in a 512-byte buffer.\<close>

definition vector_name :: "MemberVariable \<Rightarrow> string" where
  "vector_name i =
     (let temp = getCppTypeString (mType i) False
      in if mIsMap i then
           (if getStandardType (mType i) \<noteq> st_none
            then snprintf 512 ''std::unordered_map<%s, %s>'' [S (map_key_type i), S temp]
            else snprintf 512 ''std::unordered_map<%s, std::vector< %s>>'' [S (map_key_type i), S temp])
         else snprintf 512 ''std::vector< %s>'' [S temp])"

definition needs_array_operator :: "MemberVariable \<Rightarrow> bool" where
  "needs_array_operator i \<longleftrightarrow> mIsArray i \<and> \<not> mIsString i \<and> mIsMap i"

definition cpp_member_type :: "bool \<Rightarrow> MemberVariable \<Rightarrow> code" where
\<open>cpp_member_type isDef i =
  (if mIsArray i then
     (if mIsString i then
        (if mIsMap i then [pc 1 ''std::unordered_map< std::string, std::string >'' []]
         else [pc 1 ''std::vector< std::string >'' []])
      else [pc 1 ''%s'' [S (vector_name i)]])
   else
     (if mIsMap i then [Abort AssertFail] else [])
     @ (if (isDef \<and> mIsPointer i) then
       [pc 1 ''%s%s'' [S (getCppTypeString (mType i) isDef), S (if isDef then ''Def'' else '''')]]
      else
       (if (mIsOptional i = optional) then
         [pc 1 ''codegen::optional< %s >'' [S (getCppTypeString (mType i) True)]]
        else
         [pc 1 ''%s'' [S (getCppTypeString (mType i) True)]])))\<close>

definition cpp_member_name :: "float_io \<Rightarrow> DOM \<Rightarrow> bool \<Rightarrow> MemberVariable \<Rightarrow> code" where
\<open>cpp_member_name io dm isDef i =
  (if (mIsPointer i \<and> \<not> mIsArray i) then
    [pc 4 ''*%s'' [S (getMemberName (mMember i) isDef (mIsMap i))]]
   else
    [pc 4 ''%s'' [S (getMemberName (mMember i) isDef (mIsMap i))]])
  @ (if (mDefaultValue i = []) then
    [pc 0 ''{ }'' []]
   else
    [pc 0 ''{ %s }'' [S (getCppValueInitializer io dm i)]])
  @ [pc 0 '';'' [],
   pc 16 ''// %s\<newline>'' [S (mShortDescription i)]]\<close>

definition cpp_array_operator :: "MemberVariable \<Rightarrow> code" where
\<open>cpp_array_operator i =
  [lf,
   pc 1 ''// Defines the array operator to access this map\<newline>'' []]
  @ (if (getStandardType (mType i) = st_none) then
    [pc 1 ''std::vector< %s>& operator[](const %s& x)\<newline>'' [S (upcase_first (mType i)), S (map_key_type i)]]
   else
    [pc 1 ''%s operator[](const %s& x)\<newline>'' [S (getCppTypeString (mType i) False), S (map_key_type i)]])
  @ [pc 1 ''{\<newline>'' [],
   pc 2 ''return _%s[x];\<newline>'' [S (mMember i)],
   pc 1 ''}\<newline>'' [],
   lf]\<close>

definition cpp_member :: "float_io \<Rightarrow> DOM \<Rightarrow> bool \<Rightarrow> MemberVariable \<Rightarrow> code" where
\<open>cpp_member io dm isDef i =
  (if mInheritsFrom i \<noteq> [] then []
   else cpp_member_type isDef i @ cpp_member_name io dm isDef i
     @ (if needs_array_operator i then cpp_array_operator i else []))\<close>

definition scratch_vector :: "MemberVariable \<Rightarrow> string" where
  "scratch_vector i = snprintf 512 ''std::vector<%s>'' [S (upcase_first (mType i))]"

definition cpp_scratch_array :: "bool \<Rightarrow> MemberVariable \<Rightarrow> code" where
\<open>cpp_scratch_array isDef i =
  (if mInheritsFrom i \<noteq> [] then []
   else if \<not> needsReflection i \<and> isDef then []
   else if mIsArray i \<and> isDef then
     (if mIsString i then
        [pc 1 ''ConstCharVector'' [],
         pc 4 ''%sDef; // Scratch array for const char pointers.\<newline>'' [S (getMemberName (mMember i) True (mIsMap i))]]
      else if mNeedsReflection i then
        [pc 1 ''%s'' [S (scratch_vector i)],
         pc 4 ''%sDOM; // Scratch array for const char pointers.\<newline>'' [S (getMemberName (mMember i) True (mIsMap i))]]
      else [])
   else [])\<close>

definition needs_dom_vector :: "Object \<Rightarrow> bool" where
  "needs_dom_vector ob \<longleftrightarrow> list_ex (\<lambda>i. mInheritsFrom i = [] \<and> mIsArray i) (mItems ob)"

definition cpp_class_body :: "float_io \<Rightarrow> DOM \<Rightarrow> bool \<Rightarrow> Object \<Rightarrow> code" where
\<open>cpp_class_body io dm isDef ob =
  cpp_is_member ob
  @ cpp_equality ob
  @ (if mAssignment ob then cpp_assignment isDef ob else [])
  @ (if has_inherited_defaults ob \<and> \<not> mAssignment ob
     then cpp_inherited_constructor io dm isDef ob else [])
  @ concat (map (cpp_member io dm isDef) (mItems ob))
  @ (if isDef then
      [pc 0 ''private:\<newline>'' [],
       pc 1 ''%s'' [S (getClassNameString (mName ob) False)],
       pc 4 ''mDOM; // Declare the DOM version.\<newline>'' []]
     else [])
  @ (if needs_dom_vector ob then concat (map (cpp_scratch_array isDef) (mItems ob)) else [])\<close>

definition cpp_end_class :: code where
\<open>cpp_end_class =
  [pc 0 ''};\<newline>'' [],
   pc 0 ''\<newline>'' []]\<close>

section \<open>One object\<close>

definition cpp_alias :: "Object \<Rightarrow> code" where
\<open>cpp_alias ob =
  (if (mAliasO ob \<noteq> mName ob) then
    [pc 0 ''using %s = %s;\<newline>'' [S (getClassNameString (mName ob) False), S (mAliasO ob)]]
   else [])\<close>

definition cpp_enum :: "Object \<Rightarrow> code" where
\<open>cpp_enum ob =
  [pc 0 ''\<newline>'' []]
  @ (if (mShortDescriptionO ob \<noteq> []) then
    [pc 0 ''// %s\<newline>'' [S (mShortDescriptionO ob)]]
   else [])
  @ (if (mLongDescriptionO ob \<noteq> []) then
    [pc 0 ''// %s\<newline>'' [S (mLongDescriptionO ob)]]
   else [])
  @ [pc 0 ''enum class %s : uint64_t\<newline>'' [S (mName ob)],
   pc 0 ''{\<newline>'' []]
  @ concat (map (\<lambda>i.
    (if (mDefaultValue i = []) then
      [pc 1 ''%s,'' [S (mMember i)]]
     else
      [pc 1 ''%s=%s,'' [S (mMember i), S (mDefaultValue i)]])
    @ [pc 10 ''// %s\<newline>'' [S (mShortDescription i)]]) (mItems ob))
  @ [pc 0 ''};\<newline>'' [],
   pc 0 ''\<newline>'' []]\<close>

text \<open>The text, and the two lists it updates.\<close>

definition saveCPP ::
  "float_io \<Rightarrow> DOM \<Rightarrow> string list \<times> string list \<Rightarrow> Object \<Rightarrow> code \<times> string list \<times> string list"
where
  "saveCPP io dm state ob =
     (let (arrays, cloneObjects) = state in
      if mAliasO ob \<noteq> [] then (cpp_alias ob, arrays, cloneObjects)
      else if stricmp0 (mTypeO ob) ''Enum'' then (cpp_enum ob, arrays, cloneObjects)
      else (cpp_class_definition False cloneObjects ob @ cpp_class_body io dm False ob @ cpp_end_class,
            add_arrays ob arrays,
            if doClone False cloneObjects ob then cloneObjects @ [mName ob] else cloneObjects))"

end
