(* ===== verification/EmitPod.thy ===== *)
theory EmitPod
  imports ValueText
begin

text \<open>
  The plain-old-data flavour: \<open>Object::saveCPP(cpimpl, cpdom, ...)\<close> (src/src/CreateDOM.cpp),
  which prints a flat DOM class and, for classes that need one, an implementation class with
  deep copy, move and reflection. \<open>isDef\<close> says which of the two a text is for. The element
  type buffers of 512 bytes hold type names, which a parsed row bounds by 511 bytes.
\<close>

section \<open>What an object needs\<close>

definition has_pointers :: "Object \<Rightarrow> bool" where
  "has_pointers ob \<longleftrightarrow> list_ex mIsPointer (mItems ob)"

definition needs_def :: "Object \<Rightarrow> bool" where
  "needs_def ob \<longleftrightarrow>
     list_ex mIsArray (mItems ob) \<or> mInheritsFromO ob \<noteq> [] \<or> has_pointers ob \<or>
     list_ex (\<lambda>i. mType i = ''string'') (mItems ob) \<or> mClone ob \<or> mNeedsReflectionO ob"

definition needs_deep_copy :: "Object \<Rightarrow> bool" where
  "needs_deep_copy ob \<longleftrightarrow>
     mInheritsFromO ob \<noteq> [] \<or> mClone ob \<or> mNeedsReflectionO ob \<or> has_pointers ob"

definition pod_add_arrays :: "Object \<Rightarrow> string list \<Rightarrow> string list" where
  "pod_add_arrays ob arrays =
     fold (\<lambda>i a. if mIsArray i \<and> mType i \<notin> set a then a @ [mType i] else a) (mItems ob) arrays"

section \<open>Parts of a class\<close>

definition pod_doClone :: "bool \<Rightarrow> string list \<Rightarrow> Object \<Rightarrow> bool" where
  "pod_doClone isDef cloneObjects ob \<longleftrightarrow>
     (mClone ob \<or> mNeedsReflectionO ob) \<and> isDef \<and>
     \<not> (mInheritsFromO ob \<noteq> [] \<and> mInheritsFromO ob \<in> set cloneObjects)"

definition pod_class_definition :: "bool \<Rightarrow> string list \<Rightarrow> Object \<Rightarrow> code" where
\<open>pod_class_definition isDef cloneObjects ob =
  [pc 0 ''\<newline>'' []]
  @ (if (mShortDescriptionO ob \<noteq> []) then
    [pc 0 ''// %s\<newline>'' [S (mShortDescriptionO ob)]]
   else [])
  @ (if (mLongDescriptionO ob \<noteq> []) then
    [pc 0 ''// %s\<newline>'' [S (mLongDescriptionO ob)]]
   else [])
  @ [pc 0 ''class %s'' [S (getClassNameString (mName ob) isDef)]]
  @ (if (mInheritsFromO ob \<noteq> []) then
    [pc 0 '' : public %s'' [S (getClassNameString (mInheritsFromO ob) isDef)]]
   else [])
  @ (if pod_doClone isDef cloneObjects ob then [pc 0 ''%s public CloneObject'' [S (if (mInheritsFromO ob = []) then '':'' else '','')]] else [])
  @ [pc 0 ''\<newline>'' [],
   pc 0 ''{\<newline>'' [],
   pc 0 ''public:\<newline>'' []]\<close>

definition pod_comma_calls :: "code list \<Rightarrow> code" where
  "pod_comma_calls css =
     (case css of
        [] \<Rightarrow> []
      | c # cs \<Rightarrow> c @ concat (map (\<lambda>c. pc 0 '','' [] # c) cs))"

definition pod_assignment :: "bool \<Rightarrow> Object \<Rightarrow> code" where
\<open>pod_assignment isDef ob =
  [pc 1 ''// Declare the constructor.\<newline>'' [],
   pc 1 ''%s() { }\<newline>'' [S (getClassNameString (mName ob) isDef)],
   pc 0 ''\<newline>'' [],
   pc 1 ''// Declare the assignment constructor.\<newline>'' [],
   pc 1 ''%s('' [S (getClassNameString (mName ob) isDef)]]
  @ pod_comma_calls (map (\<lambda>i. [pc 0 ''const %s &_%s'' [S (getCppTypeString (mType i) isDef), S (getMemberName (mMember i) isDef (mIsMap i))]]) (mItems ob))
  @ [pc 0 '')\<newline>'' [],
   pc 1 ''{\<newline>'' []]
  @ concat (map (\<lambda>i.
    [pc 2 ''%s = _%s;\<newline>'' [S (getMemberName (mMember i) isDef (mIsMap i)), S (getMemberName (mMember i) isDef (mIsMap i))]]) (mItems ob))
  @ [pc 1 ''}\<newline>'' [],
   pc 0 ''\<newline>'' []]\<close>

definition pod_has_inherited_defaults :: "Object \<Rightarrow> bool" where
  "pod_has_inherited_defaults ob \<longleftrightarrow>
     list_ex (\<lambda>i. mInheritsFrom i \<noteq> [] \<and> mDefaultValue i \<noteq> []) (mItems ob)"

definition pod_inherited_constructor :: "float_io \<Rightarrow> DOM \<Rightarrow> bool \<Rightarrow> Object \<Rightarrow> code" where
\<open>pod_inherited_constructor io dm isDef ob =
  [pc 1 ''// Declare the constructor.\<newline>'' [],
   pc 1 ''%s()\<newline>'' [S (getClassNameString (mName ob) isDef)],
   pc 1 ''{\<newline>'' []]
  @ concat (map (\<lambda>i.
    (if ((mInheritsFrom i \<noteq> []) \<and> (mDefaultValue i \<noteq> [])) then
      [pc 2 ''%s%s::%s = %s;\<newline>'' [S (mInheritsFrom i), S (if isDef then ''Def'' else ''''), S (getMemberName (mMember i) isDef (mIsMap i)), S (getCppRValue io dm isDef i)]]
     else [])) (mItems ob))
  @ [pc 1 ''}\<newline>'' [],
   pc 0 ''\<newline>'' []]\<close>

definition pod_default_constructor :: "bool \<Rightarrow> Object \<Rightarrow> code" where
\<open>pod_default_constructor isDef ob =
  [pc 0 ''\<newline>'' [],
   pc 1 ''// Declare the constructor.\<newline>'' [],
   pc 1 ''%s() { }\<newline>'' [S (getClassNameString (mName ob) isDef)],
   pc 0 ''\<newline>'' []]\<close>

definition pod_destructor :: "bool \<Rightarrow> Object \<Rightarrow> code" where
\<open>pod_destructor isDef ob =
  (if has_pointers ob then
    (if needs_deep_copy ob then
      (if isDef then
        [pc 0 ''\<newline>'' [],
         pc 1 ''// Declare the virtual destructor; cleanup any pointers or arrays of pointers\<newline>'' [],
         pc 1 ''virtual ~%s() override\<newline>'' [S (getClassNameString (mName ob) isDef)],
         pc 1 ''{\<newline>'' []]
        @ concat (map (\<lambda>i.
          (if (mIsArray i \<and> mIsPointer i) then
            [pc 2 ''for (auto &i:%s) delete i; // Delete all of the object pointers in this array\<newline>'' [S (getMemberName (mMember i) isDef (mIsMap i))]]
           else
            (if mIsPointer i then
              [pc 2 ''delete %s; // Delete this object\<newline>'' [S (getMemberName (mMember i) isDef (mIsMap i))]]
             else []))) (mItems ob))
        @ [pc 1 ''}\<newline>'' [],
         pc 0 ''\<newline>'' []]
       else [])
     else [])
   else
    (if isDef then
      [pc 0 ''\<newline>'' [],
       pc 1 ''// Declare the virtual destructor.\<newline>'' [],
       pc 1 ''virtual ~%s() override\<newline>'' [S (getClassNameString (mName ob) isDef)],
       pc 1 ''{\<newline>'' [],
       pc 1 ''}\<newline>'' [],
       pc 0 ''\<newline>'' []]
     else []))\<close>

definition pod_get_dom :: "Object \<Rightarrow> code" where
\<open>pod_get_dom ob =
  (if (mInheritsFromO ob = []) then
    [pc 0 ''\<newline>'' [],
     pc 1 ''virtual %s * get%s(void) // Declare virtual method to return DOM version of base class.\<newline>'' [S (mName ob), S (mName ob)],
     pc 1 ''{\<newline>'' [],
     pc 2 ''return &mDOM; // return the address of the DOM.\<newline>'' [],
     pc 1 ''}\<newline>'' [],
     pc 0 ''\<newline>'' []]
   else
    [pc 0 ''\<newline>'' [],
     pc 1 ''virtual %s * get%s(void) override // Declare virtual method to return DOM version of base class.\<newline>'' [S (mInheritsFromO ob), S (mInheritsFromO ob)],
     pc 1 ''{\<newline>'' [],
     pc 2 ''return &mDOM; // return the address of the DOM.\<newline>'' [S (mInheritsFromO ob)],
     pc 1 ''}\<newline>'' [],
     pc 0 ''\<newline>'' [],
     pc 0 ''\<newline>'' [],
     pc 1 ''virtual %s * get%s(void) // Declare virtual method to return the DOM version\<newline>'' [S (mName ob), S (mName ob)],
     pc 1 ''{\<newline>'' [],
     pc 2 ''return &mDOM; // return the address of the DOM.\<newline>'' [],
     pc 1 ''}\<newline>'' [],
     pc 0 ''\<newline>'' []]
    @ (if (mMultipleInherticance ob \<noteq> []) then
      [pc 0 ''\<newline>'' [],
       pc 1 ''virtual %s * get%s(void) override // Declare virtual method to return the DOM version based on multiple inheritance\<newline>'' [S (mMultipleInherticance ob), S (mMultipleInherticance ob)],
       pc 1 ''{\<newline>'' [],
       pc 2 ''return &mDOM; // return the address of the DOM.\<newline>'' [],
       pc 1 ''}\<newline>'' [],
       pc 0 ''\<newline>'' []]
     else []))\<close>

definition pod_copy_member :: "bool \<Rightarrow> MemberVariable \<Rightarrow> code" where
\<open>pod_copy_member isDef i =
  (if (mIsArray i \<and> mIsPointer i) then
    [pc 3 ''for (auto &i:%s) delete i; // Delete all of the object pointers in this array\<newline>'' [S (getMemberName (mMember i) isDef (mIsMap i))],
     pc 3 ''%s.clear(); // Clear the current array\<newline>'' [S (getMemberName (mMember i) isDef (mIsMap i))],
     pc 3 ''%s.reserve(other.%s.size()); // Reserve number of items for the new array\<newline>'' [S (getMemberName (mMember i) isDef (mIsMap i)), S (getMemberName (mMember i) isDef (mIsMap i))],
     pc 3 ''for (auto &i:other.%s) %s.push_back( static_cast< %sDef *>(i->clone())); // Deep copy object pointers into the array\<newline>'' [S (getMemberName (mMember i) isDef (mIsMap i)), S (getMemberName (mMember i) isDef (mIsMap i)), S (mType i)]]
   else
    (if mIsPointer i then
      [pc 3 ''delete %s; // delete any previous pointer.\<newline>'' [S (getMemberName (mMember i) isDef (mIsMap i))],
       pc 3 ''%s = nullptr; // set the pointer to null.\<newline>'' [S (getMemberName (mMember i) isDef (mIsMap i))],
       pc 3 ''if ( other.%s )\<newline>'' [S (getMemberName (mMember i) isDef (mIsMap i))],
       pc 3 ''{\<newline>'' [],
       pc 4 ''%s = static_cast<%sDef *>(other.%s->clone()); // perform the deep copy and assignment here\<newline>'' [S (getMemberName (mMember i) isDef (mIsMap i)), S (mType i), S (getMemberName (mMember i) isDef (mIsMap i))],
       pc 3 ''}\<newline>'' []]
     else
      (if (mInheritsFrom i = []) then
        [pc 3 ''%s = other.%s;\<newline>'' [S (getMemberName (mMember i) isDef (mIsMap i)), S (getMemberName (mMember i) isDef (mIsMap i))]]
       else [])))\<close>

definition pod_deep_copy :: "bool \<Rightarrow> Object \<Rightarrow> code" where
\<open>pod_deep_copy isDef ob =
  [pc 0 ''\<newline>'' [],
   pc 1 ''// Declare the deep copy constructor; handles copying pointers and pointer arrays\<newline>'' [],
   pc 1 ''%s(const %s &other)\<newline>'' [S (getClassNameString (mName ob) isDef), S (getClassNameString (mName ob) isDef)],
   pc 1 ''{\<newline>'' [],
   pc 2 ''*this = other;\<newline>'' [],
   pc 1 ''}\<newline>'' [],
   pc 0 ''\<newline>'' []]
  @ pod_get_dom ob
  @ [pc 0 ''\<newline>'' [],
   pc 1 ''// Declare the virtual clone method using a deep copy\<newline>'' [],
   pc 1 ''virtual CloneObject* clone() const override\<newline>'' [],
   pc 1 ''{\<newline>'' [],
   pc 2 ''return new %s(*this);\<newline>'' [S (getClassNameString (mName ob) isDef)],
   pc 1 ''}\<newline>'' [],
   pc 0 ''\<newline>'' [],
   pc 1 ''// Declare and implement the deep copy assignment operator\<newline>'' [],
   pc 1 ''%s& operator=(const %s& other)\<newline>'' [S (getClassNameString (mName ob) isDef), S (getClassNameString (mName ob) isDef)],
   pc 1 ''{\<newline>'' [],
   pc 2 ''if (this != &other )\<newline>'' [],
   pc 2 ''{\<newline>'' []]
  @ (if (mInheritsFromO ob \<noteq> []) then
    [pc 3 ''%sDef::operator=(other);\<newline>'' [S (mInheritsFromO ob)]]
   else [])
  @ concat (map (pod_copy_member isDef) (mItems ob))
  @ [pc 2 ''}\<newline>'' [],
   pc 2 ''return *this;\<newline>'' [],
   pc 1 ''}\<newline>'' [],
   pc 0 ''\<newline>'' []]\<close>

definition array_postfix :: "MemberVariable \<Rightarrow> string" where
  "array_postfix i =
     (if mIsString i \<and> mIsArray i then ''Def'' else if mNeedsReflection i then ''DOM'' else [])"

definition pod_init_string :: "MemberVariable \<Rightarrow> code" where
\<open>pod_init_string i =
  (if mIsArray i then
    [pc 2 ''// Initialize the const char * array from the array of std::strings vector %s\<newline>'' [S (getMemberName (mMember i) True (mIsMap i))],
     pc 2 ''%sDef.clear(); // Clear previous array definition.\<newline>'' [S (getMemberName (mMember i) True (mIsMap i))],
     pc 2 ''%sDef.reserve(%s.size()); // Reserve room for string pointers.\<newline>'' [S (getMemberName (mMember i) True (mIsMap i)), S (getMemberName (mMember i) True (mIsMap i))],
     pc 2 ''for (auto &i: %s) // For each std::string\<newline>'' [S (getMemberName (mMember i) True (mIsMap i))],
     pc 3 ''%sDef.push_back( i.c_str() ); // Add the const char * for the string.\<newline>'' [S (getMemberName (mMember i) True (mIsMap i))],
     pc 2 ''mDOM.%sCount = uint32_t(%s%s.size()); // Assign the number of strings\<newline>'' [S (getMemberName (mMember i) False (mIsMap i)), S (getMemberName (mMember i) True (mIsMap i)), S (array_postfix i)],
     pc 2 ''mDOM.%s = mDOM.%sCount ? &%s%s[0] : nullptr; // Assign the pointer array.\<newline>'' [S (getMemberName (mMember i) False (mIsMap i)), S (getMemberName (mMember i) False (mIsMap i)), S (getMemberName (mMember i) True (mIsMap i)), S (array_postfix i)]]
   else
    [pc 2 ''mDOM.%s = %s.c_str(); // Assign the current string pointer.\<newline>'' [S (getMemberName (mMember i) False (mIsMap i)), S (getMemberName (mMember i) True (mIsMap i))]])\<close>

definition pod_init_pointer_array :: "MemberVariable \<Rightarrow> code" where
\<open>pod_init_pointer_array i =
  [pc 2 ''%sDOM.clear();\<newline>'' [S (getMemberName (mMember i) True (mIsMap i))],
   pc 2 ''%sDOM.reserve( %s.size() );\<newline>'' [S (getMemberName (mMember i) True (mIsMap i)), S (getMemberName (mMember i) True (mIsMap i))],
   pc 2 ''for (auto &i:%s)\<newline>'' [S (getMemberName (mMember i) True (mIsMap i))],
   pc 2 ''{\<newline>'' [],
   pc 3 ''i->initDOM();\<newline>'' [],
   pc 3 ''%sDOM.push_back( i->get%s() );\<newline>'' [S (getMemberName (mMember i) True (mIsMap i)), S (mType i)],
   pc 2 ''}\<newline>'' [],
   pc 2 ''mDOM.%sCount = uint32_t(%s%s.size()); // assign the number of items in the array.\<newline>'' [S (getMemberName (mMember i) False (mIsMap i)), S (getMemberName (mMember i) True (mIsMap i)), S (array_postfix i)],
   pc 2 ''mDOM.%s = mDOM.%sCount ? &%s%s[0] : nullptr; // Assign the pointer array\<newline>'' [S (getMemberName (mMember i) False (mIsMap i)), S (getMemberName (mMember i) False (mIsMap i)), S (getMemberName (mMember i) True (mIsMap i)), S (array_postfix i)]]\<close>

definition pod_init_array :: "MemberVariable \<Rightarrow> code" where
\<open>pod_init_array i =
  (if mNeedsReflection i then
    [pc 2 ''%sDOM.clear();\<newline>'' [S (getMemberName (mMember i) True (mIsMap i))],
     pc 2 ''%sDOM.reserve( %s.size() );\<newline>'' [S (getMemberName (mMember i) True (mIsMap i)), S (getMemberName (mMember i) True (mIsMap i))],
     pc 2 ''for (auto &i:%s)\<newline>'' [S (getMemberName (mMember i) True (mIsMap i))],
     pc 2 ''{\<newline>'' [],
     pc 3 ''i.initDOM();\<newline>'' [],
     pc 3 ''%sDOM.push_back( *(i.get%s()) );\<newline>'' [S (getMemberName (mMember i) True (mIsMap i)), S (mType i)],
     pc 2 ''}\<newline>'' []]
   else [])
  @ [pc 2 ''mDOM.%sCount = uint32_t(%s%s.size()); // assign the number of items in the array.\<newline>'' [S (getMemberName (mMember i) False (mIsMap i)), S (getMemberName (mMember i) True (mIsMap i)), S (array_postfix i)],
   pc 2 ''mDOM.%s = mDOM.%sCount ? &%s%s[0] : nullptr; // Assign the pointer array\<newline>'' [S (getMemberName (mMember i) False (mIsMap i)), S (getMemberName (mMember i) False (mIsMap i)), S (getMemberName (mMember i) True (mIsMap i)), S (array_postfix i)]]\<close>

definition pod_init_class :: "MemberVariable \<Rightarrow> code" where
\<open>pod_init_class i =
  [pc 2 ''{\<newline>'' [],
   pc 3 ''%sDef *impl = static_cast< %sDef *>(&%s); // static cast to the implementation class.\<newline>'' [S (mType i), S (mType i), S (getMemberName (mMember i) True (mIsMap i))],
   pc 3 ''impl->initDOM(); // Initialize DOM components of member variable.\<newline>'' [],
   pc 3 ''mDOM.%s = *impl->get%s(); // Copy the DOM struct values.\<newline>'' [S (mMember i), S (mType i)],
   pc 2 ''}\<newline>'' []]\<close>

definition pod_init_pointer :: "MemberVariable \<Rightarrow> code" where
\<open>pod_init_pointer i =
  [pc 2 ''if ( %s )\<newline>'' [S (getMemberName (mMember i) True (mIsMap i))],
   pc 2 ''{\<newline>'' [],
   pc 3 ''%s->initDOM(); // Initialize any DOM components of this object.\<newline>'' [S (getMemberName (mMember i) True (mIsMap i))],
   pc 3 ''mDOM.%s = %s->get%s(); // assign the DOM reflection pointer.\<newline>'' [S (getMemberName (mMember i) False (mIsMap i)), S (getMemberName (mMember i) True (mIsMap i)), S (mType i)],
   pc 2 ''}\<newline>'' []]\<close>

definition pod_init_simple :: "MemberVariable \<Rightarrow> code" where
\<open>pod_init_simple i =
  [pc 2 ''mDOM.%s = %s; // Simple member variable assignment to the DOM reflection: %s\<newline>'' [S (getMemberName (mMember i) False (mIsMap i)), S (getMemberName (mMember i) True (mIsMap i)), S (getMemberName (mMember i) False (mIsMap i))]]\<close>

definition pod_init_member :: "string list \<Rightarrow> MemberVariable \<Rightarrow> code" where
\<open>pod_init_member needs i =
  (if \<not> needsReflection i \<and> classNeedsReflection (mType i) needs then pod_init_class i
   else if mIsString i then pod_init_string i
   else if mIsArray i \<and> mIsPointer i then pod_init_pointer_array i
   else if mIsArray i then pod_init_array i
   else if mIsPointer i then pod_init_pointer i
   else pod_init_simple i)\<close>

definition pod_init_dom :: "string list \<Rightarrow> Object \<Rightarrow> code" where
\<open>pod_init_dom needs ob =
  [pc 1 ''// Declare and implement the initDOM method\<newline>'' [],
   pc 1 ''virtual void initDOM(void) override\<newline>'' [S (getClassNameString (mName ob) True), S (getClassNameString (mName ob) True)],
   pc 1 ''{\<newline>'' []]
  @ (if (mInheritsFromO ob \<noteq> []) then
    [pc 2 ''// Initialize the DOM for the base class.\<newline>'' [],
     pc 2 ''%sDef::initDOM();\<newline>'' [S (mInheritsFromO ob)],
     pc 2 ''// Copy the elements from the base class DOM to our reflection DOM\<newline>'' [],
     pc 2 ''{\<newline>'' [],
     pc 3 ''%s *dom = static_cast< %s *>(&mDOM); // Get the DOM base class.\<newline>'' [S (mInheritsFromO ob), S (mInheritsFromO ob)],
     pc 3 ''*dom = *(%sDef::get%s()); // Assign the base class DOM components.\<newline>'' [S (mInheritsFromO ob), S (mInheritsFromO ob)],
     pc 2 ''}\<newline>'' []]
   else [])
  @ concat (map (pod_init_member needs) (mItems ob))
  @ [pc 1 ''}\<newline>'' [],
   pc 0 ''\<newline>'' []]\<close>

definition pod_move :: "bool \<Rightarrow> Object \<Rightarrow> code" where
\<open>pod_move isDef ob =
  [pc 0 ''\<newline>'' [],
   pc 1 ''// Declare the move constructor; handles copying pointers and pointer arrays\<newline>'' [],
   pc 1 ''%s(%s &&other)\<newline>'' [S (getClassNameString (mName ob) isDef), S (getClassNameString (mName ob) isDef)],
   pc 1 ''{\<newline>'' [],
   pc 2 ''*this = std::move(other);\<newline>'' [],
   pc 1 ''}\<newline>'' [],
   pc 0 ''\<newline>'' [],
   pc 1 ''// Declare and implement the move assignment operator\<newline>'' [],
   pc 1 ''%s& operator=(%s&& other)\<newline>'' [S (getClassNameString (mName ob) isDef), S (getClassNameString (mName ob) isDef)],
   pc 1 ''{\<newline>'' [],
   pc 2 ''if (this != &other )\<newline>'' [],
   pc 2 ''{\<newline>'' []]
  @ (if (mInheritsFromO ob \<noteq> []) then
    [pc 3 ''%sDef::operator=(std::move(other));\<newline>'' [S (mInheritsFromO ob)]]
   else [])
  @ concat (map (\<lambda>i.
    (if (mIsArray i \<and> mIsPointer i) then
      [pc 3 ''%s = other.%s;\<newline>'' [S (getMemberName (mMember i) isDef (mIsMap i)), S (getMemberName (mMember i) isDef (mIsMap i))],
       pc 3 ''other.%s.clear(); // Clear the 'other' array now that we have moved it\<newline>'' [S (getMemberName (mMember i) isDef (mIsMap i))]]
     else
      (if mIsPointer i then
        [pc 3 ''%s = other.%s;\<newline>'' [S (getMemberName (mMember i) isDef (mIsMap i)), S (getMemberName (mMember i) isDef (mIsMap i))],
         pc 3 ''other.%s = nullptr; // Set 'other' pointer to null since we have moved it\<newline>'' [S (getMemberName (mMember i) isDef (mIsMap i))]]
       else
        (if (mInheritsFrom i = []) then
          [pc 3 ''%s = other.%s;\<newline>'' [S (getMemberName (mMember i) isDef (mIsMap i)), S (getMemberName (mMember i) isDef (mIsMap i))]]
         else [])))) (mItems ob))
  @ [pc 2 ''}\<newline>'' [],
   pc 2 ''return *this;\<newline>'' [],
   pc 1 ''}\<newline>'' [],
   pc 0 ''\<newline>'' []]\<close>

definition pod_vector :: "MemberVariable \<Rightarrow> string" where
  "pod_vector i = snprintf 512 ''std::vector<%s>'' [S (upcase_first (mType i))]"

definition needs_null :: "bool \<Rightarrow> MemberVariable \<Rightarrow> bool" where
  "needs_null isDef i \<longleftrightarrow>
     (if mIsArray i then \<not> isDef else mIsPointer i \<or> (mIsString i \<and> \<not> isDef))"

definition pod_member_type :: "DOM \<Rightarrow> bool \<Rightarrow> MemberVariable \<Rightarrow> code" where
\<open>pod_member_type dm isDef i =
  (if mIsArray i then
    (if isDef then
      (if mIsString i then
        [pc 1 ''std::vector< std::string >'' []]
       else
        [pc 1 ''%s'' [S (pod_vector i)]])
     else
      [pc 1 ''uint32_t'' [],
       pc 4 ''%sCount { 0 };\<newline>'' [S (getMemberName (mMember i) isDef (mIsMap i))]]
      @ (if (mIsString i \<and> \<not> isDef) then
        [pc 1 ''%s*'' [S (getCppTypeString (mType i) isDef)]]
       else
        (if mIsPointer i then
          [pc 1 ''%s**'' [S (getCppTypeString (mType i) isDef)]]
         else
          [pc 1 ''%s*'' [S (getCppTypeString (mType i) isDef)]])))
   else
    (if (isDef \<and> mIsPointer i) then
      [pc 1 ''%s%s'' [S (getCppTypeString (mType i) isDef), S (if isDef then ''Def'' else '''')]]
     else
      (if (mNeedsReflection i \<and> \<not> mIsString i \<and> isDef) then
        [pc 1 ''%sDef'' [S (getCppTypeString (mType i) isDef)]]
       else
        (if (isDef \<and> typeInfo dm (mType i) \<noteq> None) then
          [pc 1 ''%s'' [S (getCppTypeString (mType i) isDef)]]
         else
          [pc 1 ''%s'' [S (getCppTypeString (mType i) isDef)]]))))\<close>

definition pod_member_name :: "float_io \<Rightarrow> DOM \<Rightarrow> bool \<Rightarrow> MemberVariable \<Rightarrow> code" where
\<open>pod_member_name io dm isDef i =
  (if (mIsPointer i \<and> \<not> mIsArray i) then
    [pc 4 ''*%s'' [S (getMemberName (mMember i) isDef (mIsMap i))]]
   else
    [pc 4 ''%s'' [S (getMemberName (mMember i) isDef (mIsMap i))]])
  @ (if (mDefaultValue i = []) then
    (if needs_null isDef i then
      [pc 0 ''{ nullptr }'' []]
     else [])
   else
    [pc 0 ''{ %s }'' [S (getCppValueInitializer io dm i)]])
  @ [pc 0 '';'' [],
   pc 16 ''// %s\<newline>'' [S (mShortDescription i)]]\<close>

definition pod_member :: "float_io \<Rightarrow> DOM \<Rightarrow> bool \<Rightarrow> MemberVariable \<Rightarrow> code" where
\<open>pod_member io dm isDef i =
  (if mInheritsFrom i \<noteq> [] then []
   else pod_member_type dm isDef i @ pod_member_name io dm isDef i)\<close>

definition pod_needs_dom_vector :: "bool \<Rightarrow> Object \<Rightarrow> bool" where
  "pod_needs_dom_vector isDef ob \<longleftrightarrow>
     isDef \<and> list_ex (\<lambda>i. mInheritsFrom i = [] \<and> mIsArray i) (mItems ob)"

definition pod_scratch_array :: "bool \<Rightarrow> MemberVariable \<Rightarrow> code" where
\<open>pod_scratch_array isDef i =
  (if mInheritsFrom i \<noteq> [] then []
   else if \<not> needsReflection i \<and> isDef then []
   else (if mIsArray i then
       (if isDef then
         (if mIsString i then
           [pc 1 ''ConstCharVector'' [],
            pc 4 ''%sDef; // Scratch array for const char pointers.\<newline>'' [S (getMemberName (mMember i) True (mIsMap i))]]
          else
           (if mNeedsReflection i then
             [pc 1 ''%s'' [S (pod_vector i)],
              pc 4 ''%sDOM; // Scratch array for const char pointers.\<newline>'' [S (getMemberName (mMember i) True (mIsMap i))]]
            else []))
        else [])
      else []))\<close>

definition pod_class_body ::
  "float_io \<Rightarrow> DOM \<Rightarrow> string list \<Rightarrow> bool \<Rightarrow> Object \<Rightarrow> code"
where
\<open>pod_class_body io dm needs isDef ob =
  (if mAssignment ob then pod_assignment isDef ob else [])
  @ (if pod_has_inherited_defaults ob \<and> \<not> mAssignment ob
     then pod_inherited_constructor io dm isDef ob else [])
  @ (if \<not> mAssignment ob \<and> \<not> pod_has_inherited_defaults ob \<and> isDef
     then pod_default_constructor isDef ob else [])
  @ pod_destructor isDef ob
  @ (if needs_deep_copy ob \<and> isDef then pod_deep_copy isDef ob else [])
  @ (if isDef then pod_init_dom needs ob @ pod_move isDef ob else [])
  @ concat (map (pod_member io dm isDef) (mItems ob))
  @ (if isDef then
      [pc 0 ''private:\<newline>'' [],
       pc 1 ''%s'' [S (getClassNameString (mName ob) False)],
       pc 4 ''mDOM; // Declare the DOM version.\<newline>'' []]
     else [])
  @ (if pod_needs_dom_vector isDef ob then
       [pc 0 ''// Declare private temporary array(s) to hold flat DOM version of arrays.\<newline>'' []]
       @ concat (map (pod_scratch_array isDef) (mItems ob))
     else [])\<close>

definition pod_end_class :: code where
\<open>pod_end_class =
  [pc 0 ''};\<newline>'' [],
   pc 0 ''\<newline>'' []]\<close>

section \<open>One object\<close>

definition pod_alias :: "Object \<Rightarrow> code" where
\<open>pod_alias ob =
  (if (mAliasO ob \<noteq> mName ob) then
    [pc 0 ''using %s = %s;\<newline>'' [S (getClassNameString (mName ob) False), S (mAliasO ob)]]
   else [])\<close>

definition pod_enum :: "Object \<Rightarrow> code" where
\<open>pod_enum ob =
  [pc 0 ''\<newline>'' []]
  @ (if (mShortDescriptionO ob \<noteq> []) then
    [pc 0 ''// %s\<newline>'' [S (mShortDescriptionO ob)]]
   else [])
  @ (if (mLongDescriptionO ob \<noteq> []) then
    [pc 0 ''// %s\<newline>'' [S (mLongDescriptionO ob)]]
   else [])
  @ [pc 0 ''enum class %s : uint32_t\<newline>'' [S (mName ob)],
   pc 0 ''{\<newline>'' []]
  @ concat (map (\<lambda>i.
    [pc 1 ''%s,'' [S (mMember i)],
     pc 10 ''// %s\<newline>'' [S (mShortDescription i)]]) (mItems ob))
  @ [pc 0 ''};\<newline>'' [],
   pc 0 ''\<newline>'' []]\<close>

text \<open>
  The calls on \<open>cpimpl\<close> and on \<open>cpdom\<close>, and the two lists. The implementation class comes
  first, so the DOM class sees the \<open>cloneObjects\<close> it leaves.
\<close>

definition savePOD ::
  "float_io \<Rightarrow> DOM \<Rightarrow> string list \<Rightarrow> string list \<times> string list \<Rightarrow> Object \<Rightarrow>
     code \<times> code \<times> string list \<times> string list"
where
  "savePOD io dm needs state ob =
     (let (arrays, cloneObjects) = state in
      if mAliasO ob \<noteq> [] then ([], pod_alias ob, arrays, cloneObjects)
      else if stricmp0 (mTypeO ob) ''Enum'' then ([], pod_enum ob, arrays, cloneObjects)
      else
        (let clones1 = (if needs_def ob \<and> pod_doClone True cloneObjects ob
                        then cloneObjects @ [mName ob] else cloneObjects);
             impl = (if needs_def ob
                     then pod_class_definition True cloneObjects ob
                          @ pod_class_body io dm needs True ob @ pod_end_class
                     else [])
         in (impl,
             pod_class_definition False clones1 ob @ pod_class_body io dm needs False ob @ pod_end_class,
             pod_add_arrays ob arrays, clones1)))"

end
