(* ===== verification/EmitPython.thy ===== *)
theory EmitPython
  imports ValueText
begin

text \<open>
  \<open>Object::savePython\<close> (src/src/CreateDOM.cpp): enums as numbered constants with a table of
  names, classes with an \<open>__init__\<close> built from the default values and an \<open>as_data\<close> method that
  nests the class's own data in the slices of its base classes.
\<close>

section \<open>Enums\<close>

text \<open>The loop that numbers the items; \<open>id\<close> is a \<open>uint32_t\<close> printed with \<open>%d\<close>, so at most
  \<open>2 ^ 31\<close> items are modelled.\<close>

fun py_enum_values :: "nat \<Rightarrow> MemberVariable list \<Rightarrow> code" where
  "py_enum_values n [] = []"
| "py_enum_values n (i # is) =
     [pc 0 ''%s = %d'' [S (mMember i), D n], pc 10 ''# %s\<newline>'' [S (mShortDescription i)]]
     @ py_enum_values (Suc n) is"

definition py_descriptions :: "Object \<Rightarrow> code" where
  "py_descriptions ob =
     (if mShortDescriptionO ob \<noteq> [] then [pc 0 ''# %s\<newline>'' [S (mShortDescriptionO ob)]] else [])
     @ (if mLongDescriptionO ob \<noteq> [] then [pc 0 ''# %s\<newline>'' [S (mLongDescriptionO ob)]] else [])"

definition py_enum_strings :: "Object \<Rightarrow> code" where
  "py_enum_strings ob =
     [pc 0 ''\<newline>'' [],
      pc 0 ''%s_strings = [\<newline>'' [S (mName ob)]]
     @ map (\<lambda>i. pc 1 (CHR 0x27 # ''%s',\<newline>'') [S (mMember i)]) (mItems ob)
     @ [pc 0 '']\<newline>'' []]"

definition py_enum :: "Object \<Rightarrow> code" where
  "py_enum ob =
     [pc 0 ''\<newline>'' []] @ py_descriptions ob @ py_enum_values 0 (mItems ob)
     @ py_enum_strings ob @ [pc 0 ''\<newline>'' []]"

section \<open>Classes\<close>

definition triple_quote :: string where
  "triple_quote = [CHR 0x22, CHR 0x22, CHR 0x22]"

definition py_class_head :: "Object \<Rightarrow> code" where
  "py_class_head ob =
     [pc 0 ''\<newline>'' [],
      pc 0 ''class %s'' [S (mName ob)]]
     @ (if mInheritsFromO ob \<noteq> [] then [pc 0 ''(%s)'' [S (mInheritsFromO ob)]] else [])
     @ [pc 0 '':\<newline>'' []]"

definition py_docstring :: "Object \<Rightarrow> code" where
  "py_docstring ob =
     (if mShortDescriptionO ob \<noteq> [] \<or> mLongDescriptionO ob \<noteq> [] then
        [pc 1 triple_quote []]
        @ (if mShortDescriptionO ob \<noteq> [] then [pc 1 ''%s'' [S (mShortDescriptionO ob)]] else [])
        @ (if mLongDescriptionO ob \<noteq> [] then
             (if mShortDescriptionO ob \<noteq> [] then [pc 1 ''\<newline>\<newline>'' []] else [])
             @ [pc 1 ''%s\<newline>'' [S (mLongDescriptionO ob)]]
           else [])
        @ [pc 1 (triple_quote @ ''\<newline>'') []]
      else [])"

definition localMembers :: "Object \<Rightarrow> MemberVariable list" where
  "localMembers ob = filter (\<lambda>i. mInheritsFrom i = []) (mItems ob)"

definition inheritedMembersWithDefaultValues :: "Object \<Rightarrow> MemberVariable list" where
  "inheritedMembersWithDefaultValues ob =
     filter (\<lambda>i. mInheritsFrom i \<noteq> [] \<and> mDefaultValue i \<noteq> []) (mItems ob)"

fun comma_join :: "string list \<Rightarrow> string" where
  "comma_join [] = []"
| "comma_join [x] = x"
| "comma_join (x # y # ys) = x @ '', '' @ comma_join (y # ys)"

definition initArgs :: "float_io \<Rightarrow> DOM \<Rightarrow> Object \<Rightarrow> string" where
  "initArgs io dm ob =
     comma_join (map (getPythonArgDef io dm)
       (inheritedMembersWithDefaultValues ob @ localMembers ob))"

definition superInitArgs :: "Object \<Rightarrow> string" where
  "superInitArgs ob =
     comma_join (map (\<lambda>i. mMember i @ ''='' @ mMember i) (inheritedMembersWithDefaultValues ob))"

definition py_init :: "float_io \<Rightarrow> DOM \<Rightarrow> Object \<Rightarrow> code" where
  "py_init io dm ob =
     (if initArgs io dm ob = [] then
        [pc 1 ''def __init__(self):\<newline>'' [], pc 2 ''pass\<newline>'' []]
      else
        [pc 1 ''def __init__(self, %s):\<newline>'' [S (initArgs io dm ob)]]
        @ (if superInitArgs ob \<noteq> [] then [pc 2 ''super().__init__(%s)\<newline>'' [S (superInitArgs ob)]]
           else [])
        @ map (\<lambda>m. pc 2 ''%s\<newline>'' [S (''self.'' @ mMember m @ '' = '' @ mMember m)]) (localMembers ob)
        @ (if superInitArgs ob = [] \<and> localMembers ob = [] then [pc 2 ''pass\<newline>'' []] else []))"

definition is_plain_type :: "string \<Rightarrow> bool" where
  "is_plain_type t \<longleftrightarrow>
     t \<in> {''i8'', ''i16'', ''i32'', ''i64'', ''u8'', ''u16'', ''u32'', ''u64'',
          ''float'', ''double'', ''bool'', ''string''}"

text \<open>A type that is none of these only produces a message on \<open>stderr\<close>.\<close>

definition py_data_member :: "DOM \<Rightarrow> MemberVariable \<Rightarrow> code" where
\<open>py_data_member dm m =
  (if mIsArray m then
     (if isClassType dm (mType m) then
        [pc 2 ''data['%s'] = [e.as_data() for e in self.%s]\<newline>'' [S (mMember m), S (mMember m)]]
      else if isEnumType dm (mType m) then
        [pc 2 ''data['%s'] = '%s_strings[self.%s]\<newline>'' [S (mMember m), S (mType m), S (mMember m)]]
      else if is_plain_type (mType m) then
        [pc 2 ''data['%s'] = [e for e in self.%s]\<newline>'' [S (mMember m), S (mMember m)]]
      else [])
   else if isClassType dm (mType m) then
     [pc 2 ''data['%s'] = self.%s.as_data()\<newline>'' [S (mMember m), S (mMember m)]]
   else if isEnumType dm (mType m) then
     [pc 2 ''data['%s'] = %s_strings[self.%s]\<newline>'' [S (mMember m), S (mType m), S (mMember m)]]
   else if is_plain_type (mType m) then
     [pc 2 ''data['%s'] = self.%s\<newline>'' [S (mMember m), S (mMember m)]]
   else [])\<close>

section \<open>The inheritance chain\<close>

text \<open>
  The loop that pushes the bases of \<open>t\<close>. It ends with the stack (the last base on top), or at a
  base that is not declared (\<open>UnknownBase\<close>); when a class inherits from itself it never ends and
  pushes forever, which is \<open>Diverges\<close>: with more rounds than there are objects some base repeats
  (theorem \<open>parents_fuel\<close>).
\<close>

datatype parents_result = Parents "Object list" | UnknownBase | OutOfFuel

fun push_parents :: "nat \<Rightarrow> DOM \<Rightarrow> Object list \<Rightarrow> Object \<Rightarrow> parents_result" where
  "push_parents n dm parents t =
     (if mInheritsFromO t = [] then Parents parents
      else (case n of
              0 \<Rightarrow> OutOfFuel
            | Suc n' \<Rightarrow>
                (case typeInfo dm (mInheritsFromO t) of
                   None \<Rightarrow> UnknownBase
                 | Some p \<Rightarrow> push_parents n' dm (p # parents) p)))"

declare push_parents.simps [simp del]

definition parents_of :: "DOM \<Rightarrow> Object \<Rightarrow> parents_result" where
  "parents_of dm type = push_parents (length (mObjects dm) + 1) dm [] type"

text \<open>The slices in front of the own data, from the top of the stack down.\<close>

fun py_slices :: "string \<Rightarrow> Object list \<Rightarrow> code" where
  "py_slices baseSlice [] = []"
| "py_slices baseSlice (p # ps) =
     (let nextSlice = lowercase_first (mName p)
      in pc 2 ''%s_data = %s_data['%s']\<newline>'' [S nextSlice, S baseSlice, S nextSlice]
         # py_slices nextSlice ps)"

definition py_nested_data :: "Object list \<Rightarrow> Object \<Rightarrow> code" where
\<open>py_nested_data parents ob =
  (case parents of
     [] \<Rightarrow> []
   | p # ps \<Rightarrow>
       (let rootSlice = lowercase_first (mName p);
            baseSlice = lowercase_first (mName (last parents));
            sliceName = lowercase_first (mName ob)
        in [pc 2 ''%s_data = super().as_data()\<newline>'' [S rootSlice]]
           @ py_slices rootSlice ps
           @ [pc 2 ''%s_data['%s'] = data\<newline>'' [S baseSlice, S sliceName],
              pc 2 ''return %s_data\<newline>'' [S rootSlice]]))\<close>

definition py_as_data :: "DOM \<Rightarrow> Object \<Rightarrow> code" where
\<open>py_as_data dm ob =
  [pc 0 ''\<newline>'' [],
   pc 1 ''def as_data(self):\<newline>'' []]
  @ (case typeInfo dm (mName ob) of
       None \<Rightarrow> []
     | Some type \<Rightarrow>
         [pc 2 ''data = {}\<newline>'' []]
         @ concat (map (py_data_member dm) (localMembers ob))
         @ (if mInheritsFromO type \<noteq> [] then
              (case parents_of dm type of
                 Parents parents \<Rightarrow> py_nested_data parents ob
               | UnknownBase \<Rightarrow> []
               | OutOfFuel \<Rightarrow> [Abort Diverges])
            else [pc 2 ''return data\<newline>'' []]))\<close>

definition savePython :: "float_io \<Rightarrow> DOM \<Rightarrow> Object \<Rightarrow> code" where
  "savePython io dm ob =
     (if stricmp0 (mTypeO ob) ''Enum'' then py_enum ob
      else py_class_head ob @ py_docstring ob @ py_init io dm ob @ py_as_data dm ob)"

section \<open>The walk up the bases ends or never ends\<close>

text \<open>The object \<open>k\<close> bases above \<open>t\<close>.\<close>

fun base_above :: "DOM \<Rightarrow> nat \<Rightarrow> Object \<Rightarrow> Object option" where
  "base_above dm 0 t = Some t"
| "base_above dm (Suc k) t =
     (if mInheritsFromO t = [] then None
      else (case typeInfo dm (mInheritsFromO t) of None \<Rightarrow> None | Some p \<Rightarrow> base_above dm k p))"

lemma base_above_add:
  "base_above dm (j + k) t =
     (case base_above dm j t of None \<Rightarrow> None | Some p \<Rightarrow> base_above dm k p)"
  by (induction j arbitrary: t) (auto split: option.split)

lemma push_parents_done: "mInheritsFromO t = [] \<Longrightarrow> push_parents n dm ps t = Parents ps"
  by (subst push_parents.simps) simp

lemma push_parents_step:
  "mInheritsFromO t \<noteq> [] \<Longrightarrow> push_parents 0 dm ps t = OutOfFuel"
  "mInheritsFromO t \<noteq> [] \<Longrightarrow> push_parents (Suc n) dm ps t =
     (case typeInfo dm (mInheritsFromO t) of
        None \<Rightarrow> UnknownBase | Some p \<Rightarrow> push_parents n dm (p # ps) p)"
  by (subst push_parents.simps, simp)+

lemma out_of_fuel_iff:
  "push_parents n dm ps t = OutOfFuel \<longleftrightarrow>
     (\<exists>p. base_above dm n t = Some p \<and> mInheritsFromO p \<noteq> [])"
proof (induction n arbitrary: ps t)
  case 0
  show ?case
    by (cases "mInheritsFromO t = []") (simp_all add: push_parents_done push_parents_step)
next
  case (Suc n)
  show ?case
    by (cases "mInheritsFromO t = []")
      (simp_all add: push_parents_done push_parents_step Suc split: option.split)
qed

lemma enough_fuel:
  "push_parents n dm ps t \<noteq> OutOfFuel \<Longrightarrow> n \<le> m \<Longrightarrow> push_parents m dm ps t = push_parents n dm ps t"
proof (induction n arbitrary: m ps t)
  case 0
  then show ?case
    by (cases "mInheritsFromO t = []") (simp_all add: push_parents_done push_parents_step)
next
  case (Suc n)
  from Suc.prems(2) obtain m' where m: "m = Suc m'" "n \<le> m'" by (cases m) auto
  show ?case
  proof (cases "mInheritsFromO t = []")
    case False
    show ?thesis
    proof (cases "typeInfo dm (mInheritsFromO t)")
      case (Some p)
      with Suc.prems(1) False Suc.IH[OF _ m(2), of "p # ps" p] show ?thesis
        by (simp add: m(1) push_parents_step)
    qed (simp add: m(1) False push_parents_step)
  qed (simp add: push_parents_done)
qed

lemma typeInfo_object: "typeInfo dm n = Some p \<Longrightarrow> p \<in> set (mObjects dm)"
  by (auto simp: typeInfo_def findObject_def split: option.splits if_splits)

lemma base_above_object: "base_above dm (Suc k) t = Some p \<Longrightarrow> p \<in> set (mObjects dm)"
proof (induction k arbitrary: t)
  case (Suc k)
  from Suc.prems obtain q where "base_above dm (Suc k) q = Some p"
    unfolding base_above.simps(2)[of dm "Suc k" t] by (auto split: if_splits option.splits)
  then show ?case by (rule Suc.IH)
qed (auto dest: typeInfo_object split: if_splits option.splits)

text \<open>A walk that is longer than the object list has met some object twice, and goes on forever.\<close>

lemma long_walk_cycles:
  assumes "base_above dm (Suc (length (mObjects dm))) t = Some p"
  shows "base_above dm k t \<noteq> None"
proof -
  let ?N = "length (mObjects dm)" and ?up = "\<lambda>k. base_above dm k t"
  have defined: "?up k \<noteq> None" if "k \<le> Suc ?N" for k
    using assms base_above_add[of dm k "Suc ?N - k" t] that by (auto split: option.splits)
  have "(\<lambda>k. the (?up (Suc k))) ` {..?N} \<subseteq> set (mObjects dm)"
  proof
    fix x assume "x \<in> (\<lambda>k. the (?up (Suc k))) ` {..?N}"
    then obtain k where k: "k \<le> ?N" "x = the (?up (Suc k))" by auto
    with defined[of "Suc k"] obtain q where "?up (Suc k) = Some q" by auto
    with base_above_object k(2) show "x \<in> set (mObjects dm)" by (metis option.sel)
  qed
  then have "card ((\<lambda>k. the (?up (Suc k))) ` {..?N}) \<le> ?N"
    by (meson List.finite_set card_length card_mono le_trans)
  then have "\<not> inj_on (\<lambda>k. the (?up (Suc k))) {..?N}"
    by (metis card_image card_atMost not_less_eq_eq order_refl)
  then obtain a b where ab: "a < b" "b \<le> ?N" "the (?up (Suc a)) = the (?up (Suc b))"
    by (auto simp: inj_on_def) (metis nat_neq_iff)
  then have same: "?up (Suc a) = ?up (Suc b)"
    using defined[of "Suc a"] defined[of "Suc b"] by auto
  show ?thesis
  proof (induction k rule: less_induct)
    case (less k)
    show ?case
    proof (cases "k \<le> Suc ?N")
      case False
      then have "?up k = (case ?up (Suc b) of None \<Rightarrow> None | Some p \<Rightarrow> base_above dm (k - Suc b) p)"
        using base_above_add[of dm "Suc b" "k - Suc b" t] ab by simp
      also have "\<dots> = ?up (Suc a + (k - Suc b))"
        unfolding same[symmetric] base_above_add ..
      also have "\<dots> \<noteq> None" using less[of "Suc a + (k - Suc b)"] ab False by simp
      finally show ?thesis .
    qed (rule defined)
  qed
qed

lemma fuel_suffices:
  assumes "length (mObjects dm) < n"
  shows "push_parents n dm ps t = push_parents (length (mObjects dm) + 1) dm ps t"
proof (cases "push_parents (length (mObjects dm) + 1) dm ps t = OutOfFuel")
  case True
  then obtain p where "base_above dm (Suc (length (mObjects dm))) t = Some p"
    by (auto simp: out_of_fuel_iff)
  then have "base_above dm (Suc n) t \<noteq> None" by (rule long_walk_cycles)
  moreover have "base_above dm (n + 1) t =
      (case base_above dm n t of None \<Rightarrow> None | Some p \<Rightarrow> base_above dm 1 p)"
    by (rule base_above_add)
  ultimately have "push_parents n dm ps t = OutOfFuel"
    by (auto simp: out_of_fuel_iff split: option.splits if_splits)
  with True show ?thesis by simp
next
  case False
  with assms show ?thesis by (intro enough_fuel) simp_all
qed



text \<open>A hierarchy without cycles.\<close>

definition ranked :: "(Object \<Rightarrow> nat) \<Rightarrow> DOM \<Rightarrow> bool" where
  "ranked rank dm \<longleftrightarrow>
     (\<forall>ob \<in> set (mObjects dm). \<forall>p. mInheritsFromO ob \<noteq> [] \<longrightarrow>
        typeInfo dm (mInheritsFromO ob) = Some p \<longrightarrow> rank p < rank ob)"

lemma ranked_walk:
  "ranked rank dm \<Longrightarrow> t \<in> set (mObjects dm) \<Longrightarrow> base_above dm k t = Some p \<Longrightarrow> rank p + k \<le> rank t"
proof (induction k arbitrary: t)
  case (Suc k)
  then obtain q where q: "mInheritsFromO t \<noteq> []" "typeInfo dm (mInheritsFromO t) = Some q"
    "base_above dm k q = Some p"
    by (auto split: if_splits option.splits)
  with Suc.prems have "rank q < rank t" by (auto simp: ranked_def)
  moreover have "rank p + k \<le> rank q"
    using Suc.IH[OF Suc.prems(1) typeInfo_object[OF q(2)] q(3)] .
  ultimately show ?case by simp
qed simp

lemma py_parts_no_abort [simp]:
  "no_abort (py_enum ob)" "no_abort (py_class_head ob)" "no_abort (py_docstring ob)"
  "no_abort (py_init io dm ob)" "no_abort (py_data_member dm m)" "no_abort (py_nested_data ps ob)"
proof -
  have numbered: "no_abort (py_enum_values n ims)" for n ims
    by (induction n ims rule: py_enum_values.induct) simp_all
  have slices: "no_abort (py_slices s ps)" for s ps
    by (induction s ps rule: py_slices.induct) (simp_all add: Let_def)
  have maps: "no_abort (map (\<lambda>x. pc n (f x) (g x)) xs)" for n f g and xs :: "MemberVariable list"
    by (induction xs) simp_all
  show "no_abort (py_enum ob)" "no_abort (py_class_head ob)" "no_abort (py_docstring ob)"
    "no_abort (py_init io dm ob)" "no_abort (py_data_member dm m)" "no_abort (py_nested_data ps ob)"
    by (simp_all add: py_enum_def py_descriptions_def py_enum_strings_def numbered maps
        py_class_head_def py_docstring_def py_init_def py_data_member_def py_nested_data_def slices
        Let_def split: list.split)
qed

text \<open>
  C29. \<open>savePython\<close> ends for every class of a schema whose inheritance has no cycle: the walk up the
  bases is finite and no text diverges.
\<close>
theorem savePython_terminates:
  assumes "ranked rank dm" "ob \<in> set (mObjects dm)"
  shows "no_abort (savePython io dm ob)"
proof -
  have "parents_of dm t \<noteq> OutOfFuel" if "typeInfo dm (mName ob) = Some t" for t
  proof
    assume "parents_of dm t = OutOfFuel"
    then obtain p where "base_above dm (Suc (length (mObjects dm))) t = Some p"
      by (auto simp: parents_of_def out_of_fuel_iff)
    then obtain q where "base_above dm (Suc (rank t)) t = Some q"
      using long_walk_cycles[of dm t p "Suc (rank t)"] by auto
    with ranked_walk[OF assms(1) typeInfo_object[OF that]] show False by fastforce
  qed
  then have "no_abort (py_as_data dm ob)"
    by (auto simp: py_as_data_def split: option.splits parents_result.splits)
  then show ?thesis by (simp add: savePython_def)
qed

definition demo_hierarchy :: DOM where
  "demo_hierarchy = importComplete (new_dom\<lparr>mObjects :=
     [new_object\<lparr>mName := ''B''\<rparr>, new_object\<lparr>mName := ''C'', mInheritsFromO := ''B''\<rparr>]\<rparr>)"

theorem savePython_terminates_witness:
  "\<forall>io. no_abort (savePython io demo_hierarchy (mObjects demo_hierarchy ! 1))"
proof
  fix io
  let ?rank = "\<lambda>ob. length (mInheritsFromO ob)"
  have obs: "mObjects demo_hierarchy = map (completed
      [new_object\<lparr>mName := ''B''\<rparr>, new_object\<lparr>mName := ''C'', mInheritsFromO := ''B''\<rparr>])
      [new_object\<lparr>mName := ''B''\<rparr>, new_object\<lparr>mName := ''C'', mInheritsFromO := ''B''\<rparr>]"
    by (simp add: demo_hierarchy_def import_objects)
  have "indexed demo_hierarchy"
    by (simp add: demo_hierarchy_def import_indexed new_dom_def)
  then have base: "typeInfo demo_hierarchy ''B'' = Some p \<Longrightarrow> mInheritsFromO p = []" for p
    by (simp add: typeInfo_def findObject_last obs named_def completed_def new_object_def)
      auto
  have "ranked ?rank demo_hierarchy"
    using base by (auto simp: ranked_def obs completed_def new_object_def)
  then show "no_abort (savePython io demo_hierarchy (mObjects demo_hierarchy ! 1))"
    by (rule savePython_terminates) (simp add: obs)
qed

end
