(* ===== verification/EmitDom.thy ===== *)
theory EmitDom
  imports EmitSerialize EmitDeserialize EmitEnum EmitCpp EmitPod EmitPython
begin

text \<open>
  The file-level emitters of \<open>DOM\<close> (src/src/CreateDOM.cpp): the fixed parts of a generated
  file around the texts of its objects. Each definition gives the calls on one printer.
\<close>

section \<open>Deserialization\<close>

definition dom_deserialize_impl_begin :: "code" where
\<open>dom_deserialize_impl_begin =
  [lf,
   pc 0 ''/*\<newline>'' [],
   pc 0 ''* Deserialization implementation\<newline>'' [],
   pc 0 ''*/\<newline>'' [],
   pc 0 ''int64_t atoi64(const char* str)\<newline>'' [],
   pc 0 ''{\<newline>'' [],
   pc 0 ''    int64_t ret = 0;\<newline>'' [],
   pc 0 ''\<newline>'' [],
   pc 0 ''    if (str)\<newline>'' [],
   pc 0 ''    {\<newline>'' [],
   pc 0 ''#ifdef _MSC_VER\<newline>'' [],
   pc 0 ''        ret = _atoi64(str);\<newline>'' [],
   pc 0 ''#else\<newline>'' [],
   pc 0 ''    ret = strtoul(str, nullptr, 10);\<newline>'' [],
   pc 0 ''#endif\<newline>'' [],
   pc 0 ''    }\<newline>'' [],
   pc 0 ''    return ret;\<newline>'' [],
   pc 0 ''}\<newline>'' [],
   pc 0 ''// Helper method to convert a string to an integer of this type\<newline>'' [],
   pc 0 ''void stringToInt(const char *str, uint64_t &v)\<newline>'' [],
   pc 0 ''{\<newline>'' [],
   pc 0 ''    v = uint64_t(atoi64(str));\<newline>'' [],
   pc 0 ''}\<newline>'' [],
   pc 0 ''\<newline>'' [],
   pc 0 ''\<newline>'' [],
   pc 0 ''// Helper method to convert a string to an integer of this type\<newline>'' [],
   pc 0 ''void stringToInt(const char *str, uint32_t &v)\<newline>'' [],
   pc 0 ''{\<newline>'' [],
   pc 0 ''    v = uint32_t(atoi(str));\<newline>'' [],
   pc 0 ''}\<newline>'' [],
   pc 0 ''\<newline>'' [],
   pc 0 ''\<newline>'' [],
   pc 0 ''// Helper method to convert a string to an integer of this type\<newline>'' [],
   pc 0 ''void stringToInt(const char *str, uint16_t &v)\<newline>'' [],
   pc 0 ''{\<newline>'' [],
   pc 0 ''    v = uint16_t(atoi(str));\<newline>'' [],
   pc 0 ''}\<newline>'' [],
   pc 0 ''\<newline>'' [],
   pc 0 ''\<newline>'' [],
   pc 0 ''// Helper method to convert a string to an integer of this type\<newline>'' [],
   pc 0 ''void stringToInt(const char *str, uint8_t &v)\<newline>'' [],
   pc 0 ''{\<newline>'' [],
   pc 0 ''    v = uint8_t(atoi(str));\<newline>'' [],
   pc 0 ''}\<newline>'' [],
   pc 0 ''\<newline>'' [],
   pc 0 ''\<newline>'' [],
   pc 0 ''// Helper method to convert a string to an integer of this type\<newline>'' [],
   pc 0 ''void stringToInt(const char *str, int64_t &v)\<newline>'' [],
   pc 0 ''{\<newline>'' [],
   pc 0 ''    v = int64_t(atoi64(str));\<newline>'' [],
   pc 0 ''}\<newline>'' [],
   pc 0 ''\<newline>'' [],
   pc 0 ''\<newline>'' [],
   pc 0 ''// Helper method to convert a string to an integer of this type\<newline>'' [],
   pc 0 ''void stringToInt(const char *str, int32_t &v)\<newline>'' [],
   pc 0 ''{\<newline>'' [],
   pc 0 ''    v = int32_t(atoi(str));\<newline>'' [],
   pc 0 ''}\<newline>'' [],
   pc 0 ''\<newline>'' [],
   pc 0 ''\<newline>'' [],
   pc 0 ''// Helper method to convert a string to an integer of this type\<newline>'' [],
   pc 0 ''void stringToInt(const char *str, int16_t &v)\<newline>'' [],
   pc 0 ''{\<newline>'' [],
   pc 0 ''    v = int16_t(atoi(str));\<newline>'' [],
   pc 0 ''}\<newline>'' [],
   pc 0 ''\<newline>'' [],
   pc 0 ''\<newline>'' [],
   pc 0 ''// Helper method to convert a string to an integer of this type\<newline>'' [],
   pc 0 ''void stringToInt(const char *str, int8_t &v)\<newline>'' [],
   pc 0 ''{\<newline>'' [],
   pc 0 ''    v = int8_t(atoi(str));\<newline>'' [],
   pc 0 ''}\<newline>'' [],
   lf,
   pc 0 ''template<typename DocumentOrObject, typename T>\<newline>'' [],
   pc 0 ''bool deserializeFrom(const DocumentOrObject&, T&);\<newline>'' [],
   lf,
   pc 0 ''rapidjson::Document deserializeDocument(const char* in)\<newline>'' [],
   pc 0 ''{\<newline>'' [],
   pc 1 ''rapidjson::Document d;\<newline>'' [],
   pc 1 ''d.Parse(in);\<newline>'' [],
   pc 1 ''return d;\<newline>'' [],
   pc 0 ''}\<newline>'' [],
   lf,
   pc 0 ''namespace details\<newline>'' [],
   pc 0 ''{\<newline>'' [],
   pc 0 ''    template<typename T>\<newline>'' [],
   pc 0 ''    T Deserialize<T>::deserialize(const char* in, bool& deserializedOk)\<newline>'' [],
   pc 0 ''    {\<newline>'' [],
   pc 0 ''        const auto d = deserializeDocument(in);\<newline>'' [],
   pc 0 ''        T result;\<newline>'' [],
   pc 0 ''        deserializedOk = deserializeFrom(d, result);\<newline>'' [],
   pc 0 ''        return result;\<newline>'' [],
   pc 0 ''    }\<newline>'' [],
   pc 0 ''    template<typename T>\<newline>'' [],
   pc 0 ''    T Deserialize<T>::deserialize(const rapidjson::RapidJSONDocument &d, bool& deserializedOk)\<newline>'' [],
   pc 0 ''    {\<newline>'' [],
   pc 0 ''        T result;\<newline>'' [],
   pc 0 ''        deserializedOk = deserializeFrom(d, result);\<newline>'' [],
   pc 0 ''        return result;\<newline>'' [],
   pc 0 ''    }\<newline>'' [],
   pc 0 ''}\<newline>'' [],
   lf]\<close>

definition dom_deserialize_header_begin :: "code" where
\<open>dom_deserialize_header_begin =
  [lf,
   pc 0 ''/*\<newline>'' [],
   pc 0 '' * Deserialization\<newline>'' [],
   pc 0 '' */\<newline>'' [],
   lf,
   pc 0 ''namespace details\<newline>'' [],
   pc 0 ''{\<newline>'' [],
   pc 0 ''\<newline>'' [],
   pc 0 ''    template<typename T>\<newline>'' [],
   pc 0 ''    struct Deserialize\<newline>'' [],
   pc 0 ''    {\<newline>'' [],
   pc 0 ''        static T deserialize(const char* in, bool& deserializedOk);\<newline>'' [],
   pc 0 ''        static T deserialize(const rapidjson::RapidJSONDocument &d, bool& deserializedOk);\<newline>'' [],
   pc 0 ''    };\<newline>'' [],
   pc 0 ''}\<newline>'' [],
   pc 0 ''\<newline>'' [],
   pc 0 ''template<typename T>\<newline>'' [],
   pc 0 ''T deserialize(const char* in, bool& deserializedOk)\<newline>'' [],
   pc 0 ''{\<newline>'' [],
   pc 0 ''    return details::Deserialize<T>::deserialize(in, deserializedOk);\<newline>'' [],
   pc 0 ''}\<newline>'' [],
   pc 0 ''\<newline>'' [],
   pc 0 ''template<typename T>\<newline>'' [],
   pc 0 ''T deserialize(const std::string& in, bool& deserializedOk)\<newline>'' [],
   pc 0 ''{\<newline>'' [],
   pc 0 ''    return details::Deserialize<T>::deserialize(in.c_str(), deserializedOk);\<newline>'' [],
   pc 0 ''}\<newline>'' [],
   pc 0 ''template<typename T>\<newline>'' [],
   pc 0 ''T deserialize(const rapidjson::RapidJSONDocument &in, bool& deserializedOk)\<newline>'' [],
   pc 0 ''{\<newline>'' [],
   pc 0 ''    return details::Deserialize<T>::deserialize(in, deserializedOk);\<newline>'' [],
   pc 0 ''}\<newline>'' [],
   lf]\<close>

definition dom_saveDeserialize :: "DOM \<Rightarrow> code \<times> code" where
  "dom_saveDeserialize dm =
     (let classEnum = classEnumMap (mObjects dm);
          texts = map (saveDeserialize classEnum) (mObjects dm)
      in (dom_deserialize_header_begin @ concat (map fst texts),
          dom_deserialize_impl_begin @ concat (map snd texts)))"

section \<open>Serialization\<close>

definition dom_serialize_impl_begin :: "code" where
\<open>dom_serialize_impl_begin =
  [lf,
   lf,
   pc 0 ''template<typename T, typename DocumentOrObject, typename Alloc>\<newline>'' [],
   pc 0 ''rapidjson::Document& serializeTo(const T& type, DocumentOrObject& d, Alloc& alloc);\<newline>'' [],
   lf,
   pc 0 ''std::string serializeDocument(const rapidjson::Document& d)\<newline>'' [],
   pc 0 ''{\<newline>'' [],
   pc 0 ''    rapidjson::StringBuffer strbuf;\<newline>'' [],
   pc 0 ''    rapidjson::Writer<rapidjson::StringBuffer> writer(strbuf);\<newline>'' [],
   pc 0 ''    d.Accept(writer);\<newline>'' [],
   pc 0 ''    return strbuf.GetString();\<newline>'' [],
   pc 0 ''}\<newline>'' [],
   lf]\<close>

definition dom_saveSerialize :: "DOM \<Rightarrow> code \<times> code" where
  "dom_saveSerialize dm =
     (let classEnum = classEnumMap (mObjects dm);
          texts = map (saveSerialize classEnum) (mObjects dm)
      in (concat (map fst texts), dom_serialize_impl_begin @ concat (map snd texts)))"

section \<open>Enumerations and TypeScript\<close>

definition dom_enum_header_begin :: "code" where
\<open>dom_enum_header_begin =
  [lf,
   pc 0 ''template<typename T>\<newline>'' [],
   pc 0 ''T unstringifyEnum(const std::string& str, bool& ok);\<newline>'' [],
   lf]\<close>

definition dom_enum_impl_begin :: "DOM \<Rightarrow> code" where
\<open>dom_enum_impl_begin dm =
  [pc 0 ''// clang-format off\<newline>'' [],
   pc 0 ''// CreateDOM: Schema Generation tool written by John W. Ratcliff, 2019\<newline>'' [],
   pc 0 ''// C++ binding code for enumeration lookups and initialization to default values.\<newline>'' [],
   pc 0 ''// The Google DOCs Schema Spreadsheet for this source came from: %s\<newline>'' [S (mURL dm)],
   pc 0 ''#include "%s.h"\<newline>'' [S (mFilename dm)],
   pc 0 ''#include <assert.h>\<newline>'' [],
   pc 0 ''#include <unordered_map>\<newline>'' [],
   pc 0 ''#include <mutex>\<newline>'' [],
   pc 0 ''#include <string>\<newline>'' [],
   pc 0 ''#include <string.h>\<newline>'' [],
   pc 0 ''#ifdef _MSC_VER\<newline>'' [],
   pc 0 ''#pragma warning(disable:4996 4100)\<newline>'' [],
   pc 0 ''#endif\<newline>'' [],
   lf,
   pc 0 ''#include "RapidJSONDocument.h"\<newline>'' [],
   lf,
   pc 0 ''namespace %s {\<newline>'' [S (mNamespace dm)]]\<close>

text \<open>
  The three texts: TypeScript, header and implementation. The list of Omni command instances
  stays empty (the code that fills it is compiled out), so the two files below are not written.
\<close>

definition dom_saveTypeScript :: "DOM \<Rightarrow> code \<times> code \<times> code" where
  "dom_saveTypeScript dm =
     (let texts = map saveTypeScript (mObjects dm)
      in (concat (map fst texts),
          dom_enum_header_begin @ concat (map (fst \<circ> snd) texts),
          dom_enum_impl_begin dm @ concat (map (snd \<circ> snd) texts)))"

definition omni_instance_cpp :: "(string \<times> string) list \<Rightarrow> code" where
\<open>omni_instance_cpp instances =
  [pc 0 ''#include "OmniApiInstance.h"\<newline>'' [],
   pc 0 ''#include "omniverse_api.h"\<newline>'' [],
   pc 0 ''\<newline>'' [],
   pc 0 ''namespace omniapi\<newline>'' [],
   pc 0 ''{\<newline>'' [],
   pc 0 ''\<newline>'' [],
   pc 0 ''// Forward reference functions to create instances for various command types\<newline>'' []]
  @ concat (map (\<lambda>i.
    [pc 0 ''OmniApiCommand *create%sInstance(const rapidjson::RapidJSONDocument &d, OmniConnection *oc);\<newline>'' [S (fst i)]]) (instances))
  @ [pc 0 ''\<newline>'' [],
   pc 0 ''createCommandInstance getCreateCommandInstance(CommandType ctype)\<newline>'' [],
   pc 0 ''{\<newline>'' [],
   pc 1 ''createCommandInstance ret = nullptr;\<newline>'' [],
   pc 0 ''\<newline>'' [],
   pc 1 ''switch (ctype)\<newline>'' [],
   pc 1 ''{\<newline>'' []]
  @ concat (map (\<lambda>i.
    [pc 2 ''case CommandType::%s:\<newline>'' [S (snd i)],
     pc 3 ''ret = create%sInstance;\<newline>'' [S (fst i)],
     pc 3 ''break;\<newline>'' []]) (instances))
  @ [pc 1 ''}\<newline>'' [],
   pc 0 ''\<newline>'' [],
   pc 1 ''return ret;\<newline>'' [],
   pc 0 ''}\<newline>'' [],
   pc 0 ''\<newline>'' [],
   pc 0 ''}\<newline>'' []]\<close>

definition omni_instance_hpp :: "code" where
\<open>omni_instance_hpp =
  [pc 0 ''#pragma once\<newline>'' [],
   pc 0 ''\<newline>'' [],
   pc 0 ''#include <carb/Defines.h>\<newline>'' [],
   pc 0 ''\<newline>'' [],
   pc 0 ''namespace rapidjson\<newline>'' [],
   pc 0 ''{\<newline>'' [],
   pc 1 ''class RapidJSONDocument;\<newline>'' [],
   pc 0 ''}\<newline>'' [],
   pc 0 ''\<newline>'' [],
   pc 0 ''namespace omniapi\<newline>'' [],
   pc 0 ''{\<newline>'' [],
   pc 0 ''class OmniApiCommand;\<newline>'' [],
   pc 0 ''class OmniConnection;\<newline>'' [],
   pc 0 ''enum class CommandType;\<newline>'' [],
   pc 0 ''\<newline>'' [],
   pc 0 ''typedef OmniApiCommand *(CARB_ABI* createCommandInstance)(const rapidjson::RapidJSONDocument &d, OmniConnection *oc);\<newline>'' [],
   pc 0 ''\<newline>'' [],
   pc 0 ''createCommandInstance getCreateCommandInstance(CommandType ctype);\<newline>'' [],
   pc 0 ''\<newline>'' [],
   pc 0 ''}\<newline>'' []]\<close>

section \<open>C++ header\<close>

definition cpp_header_begin :: "DOM \<Rightarrow> code" where
\<open>cpp_header_begin dm =
  [pc 0 ''#pragma once\<newline>'' [],
   pc 0 ''\<newline>'' [],
   pc 0 ''// clang-format off\<newline>'' [],
   pc 0 ''// CreateDOM: Schema Generation tool written by John W. Ratcliff, 2017\<newline>'' [],
   pc 0 ''// Warning:This source file was auto-generated by the CreateDOM tool. Do not try to edit this source file manually!\<newline>'' [],
   pc 0 ''// The Google DOCs Schema Spreadsheet for this source came from: %s\<newline>'' [S (mURL dm)],
   pc 0 ''\<newline>'' [],
   pc 0 ''#ifdef _MSC_VER\<newline>'' [],
   pc 0 ''#pragma warning(push)\<newline>'' [],
   pc 0 ''#pragma warning(disable:4244)\<newline>'' [],
   pc 0 ''#endif\<newline>'' [],
   pc 0 ''#include <vector>\<newline>'' [],
   pc 0 ''#include <unordered_map>\<newline>'' [],
   pc 0 ''#include <string>\<newline>'' [],
   pc 0 ''#include <stdint.h>\<newline>'' [],
   pc 0 ''#include <string.h>\<newline>'' [],
   pc 0 ''\<newline>'' [],
   pc 0 ''#define USE_OPTIONAL 1\<newline>'' [],
   pc 0 ''\<newline>'' [],
   pc 0 ''#if __has_include(<optional>) && USE_OPTIONAL == 1\<newline>'' [],
   pc 0 ''#include <optional>\<newline>'' [],
   pc 0 ''#else\<newline>'' [],
   pc 0 ''#define NO_OPTIONAL\<newline>'' [],
   pc 0 ''#endif\<newline>'' [],
   pc 0 ''\<newline>'' [],
   pc 0 ''namespace codegen\<newline>'' [],
   pc 0 ''{\<newline>'' [],
   pc 0 ''template<typename T>\<newline>'' [],
   pc 0 ''#ifdef NO_OPTIONAL\<newline>'' [],
   pc 0 ''using optional = T;\<newline>'' [],
   pc 0 ''#else\<newline>'' [],
   pc 0 ''using optional = std::optional<T>;\<newline>'' [],
   pc 0 ''#endif\<newline>'' [],
   pc 0 ''}\<newline>'' [],
   pc 0 ''namespace rapidjson\<newline>'' [],
   pc 0 ''{\<newline>'' [],
   pc 0 ''    class RapidJSONDocument;\<newline>'' [],
   pc 0 ''}\<newline>'' [],
   pc 0 ''\<newline>'' [],
   pc 0 ''namespace %s\<newline>'' [S (mNamespace dm)],
   pc 0 ''{\<newline>'' [],
   pc 0 ''\<newline>'' [],
   pc 0 ''\<newline>'' [],
   pc 0 ''// Forward declare the two types of string vector containers.\<newline>'' [],
   pc 0 ''\<newline>'' []]\<close>

fun cpp_objects ::
  "float_io \<Rightarrow> DOM \<Rightarrow> string list \<times> string list \<Rightarrow> Object list \<Rightarrow> code"
where
  "cpp_objects io dm state [] = []"
| "cpp_objects io dm state (ob # obs) =
     (let (text, state') = EmitCpp.saveCPP io dm state ob
      in text @ cpp_objects io dm state' obs)"

definition dom_saveCPP :: "float_io \<Rightarrow> DOM \<Rightarrow> code" where
  "dom_saveCPP io dm = cpp_header_begin dm @ cpp_objects io dm ([], []) (mObjects dm)"

section \<open>Plain old data\<close>

definition strupr :: "string \<Rightarrow> string" where
  "strupr = map ascii_upper"

definition guard_name :: "DOM \<Rightarrow> bool \<Rightarrow> string" where
  "guard_name dm isDef =
     strupr (snprintf 512 ''%s%s_H'' [S (mFilename dm), S (if isDef then ''_IMPL'' else [])])"

definition pod_header_begin :: "DOM \<Rightarrow> bool \<Rightarrow> code" where
\<open>pod_header_begin dm isDef =
  [pc 0 ''#ifndef %s\<newline>'' [S (guard_name dm isDef)],
   pc 0 ''#define %s\<newline>'' [S (guard_name dm isDef)],
   pc 0 ''\<newline>'' [],
   pc 0 ''// clang-format off\<newline>'' [],
   pc 0 ''// CreateDOM: Schema Generation tool written by John W. Ratcliff, 2017\<newline>'' [],
   pc 0 ''// Warning:This source file was auto-generated by the CreateDOM tool. Do not try to edit this source file manually!\<newline>'' [],
   pc 0 ''// The Google DOCs Schema Spreadsheet for this source came from: %s\<newline>'' [S (mURL dm)],
   pc 0 ''\<newline>'' []]
  @ (if isDef then
    [pc 0 ''#include "%s"\<newline>'' [S (snprintf 512 ''%s.h'' [S (mFilename dm)])],
     pc 0 ''#include <string>\<newline>'' [],
     pc 0 ''#include <string.h>\<newline>'' [],
     pc 0 ''#include <vector>\<newline>'' [],
     pc 0 ''#include <unordered_map>\<newline>'' []]
   else [])
  @ [pc 0 ''#include <stdint.h>\<newline>'' [],
   pc 0 ''\<newline>'' [],
   pc 0 ''\<newline>'' [],
   pc 0 ''namespace %s\<newline>'' [S (mNamespace dm)],
   pc 0 ''{\<newline>'' [],
   pc 0 ''\<newline>'' []]
  @ (if isDef then
    [pc 0 ''\<newline>'' [],
     pc 0 ''// Forward declare the two types of string vector containers.\<newline>'' [],
     pc 0 ''\<newline>'' [],
     pc 0 ''// Declare the clone-object class for deep copies\<newline>'' [],
     pc 0 ''// of objects by the implementation classes\<newline>'' [],
     pc 0 ''// Not to be used with the base DOM classes;\<newline>'' [],
     pc 0 ''// they do not support deep copies\<newline>'' [],
     pc 0 ''// Also declares the virtual method to init the DOM contents.\<newline>'' [],
     pc 0 ''class CloneObject\<newline>'' [],
     pc 0 ''{\<newline>'' [],
     pc 0 ''public:\<newline>'' [],
     pc 1 ''virtual ~CloneObject() {  };\<newline>'' [],
     pc 1 ''// Declare the default virtual clone method; not implemented for DOM objects; only used for the implementation versions.\<newline>'' [],
     pc 1 ''virtual CloneObject *clone(void) const { return nullptr; };\<newline>'' [],
     pc 1 ''// Declare the default initDOM method; which is only needed for some implementation objects.\<newline>'' [],
     pc 1 ''virtual void initDOM(void) {  };\<newline>'' [],
     pc 0 ''};\<newline>'' []]
   else [])\<close>

text \<open>
  \<open>headerEnd\<close> prints its local \<open>temp\<close> without ever setting it; \<open>temp\<close> is a parameter here.
\<close>

definition pod_header_end :: "DOM \<Rightarrow> string \<Rightarrow> code" where
\<open>pod_header_end dm temp =
  [pc 0 ''\<newline>'' [],
   pc 0 ''\<newline>'' [],
   pc 0 ''} // End of %s namespace\<newline>'' [S (mNamespace dm)],
   pc 0 ''\<newline>'' [],
   pc 0 ''#endif // End of %s\<newline>'' [S temp]]\<close>

fun pod_objects ::
  "float_io \<Rightarrow> DOM \<Rightarrow> string list \<Rightarrow> string list \<times> string list \<Rightarrow> Object list \<Rightarrow> code \<times> code"
where
  "pod_objects io dm needs state [] = ([], [])"
| "pod_objects io dm needs state (ob # obs) =
     (let (impl, flat, state') = savePOD io dm needs state ob;
          (impls, flats) = pod_objects io dm needs state' obs
      in (impl @ impls, flat @ flats))"

text \<open>The calls on \<open>impl\<close> and on \<open>dom\<close>.\<close>

definition dom_savePOD :: "float_io \<Rightarrow> string \<Rightarrow> string \<Rightarrow> DOM \<Rightarrow> code \<times> code" where
  "dom_savePOD io temp1 temp2 dm =
     (let needs = map mName (filter mNeedsReflectionO (mObjects dm));
          (impl, flat) = pod_objects io dm needs ([], []) (mObjects dm)
      in (pod_header_begin dm True @ impl @ pod_header_end dm temp1,
          pod_header_begin dm False @ flat @ pod_header_end dm temp2))"

section \<open>Python\<close>

definition python_begin :: "DOM \<Rightarrow> code" where
\<open>python_begin dm =
  [pc 0 ''// clang-format off\<newline>'' [],
   pc 0 ''# CreateDOM: Schema Generation tool written by John W. Ratcliff, 2017\<newline>'' [],
   pc 0 ''# Warning:This source file was auto-generated by the CreateDOM tool. Do not try to edit this source file manually!\<newline>'' [],
   pc 0 ''# The Google DOCs Schema Spreadsheet for this source came from: %s\<newline>'' [S (mURL dm)],
   pc 0 ''\<newline>'' []]\<close>

definition dom_savePython :: "float_io \<Rightarrow> DOM \<Rightarrow> code" where
  "dom_savePython io dm =
     python_begin dm @ concat (map (EmitPython.savePython io dm) (mObjects dm))"

end
