(* ===== verification/Faults.thy ===== *)
theory Faults
  imports EmitDom
begin

text \<open>
  Where the emitters of src/src/CreateDOM.cpp assert. Only three texts can: the serializer of a
  member whose type nothing declares, the deserializer of a numeric map in a class that has other
  members, and the declaration of a map that is no array. \<open>generates\<close> says that none of them
  happens, and the lemmas show that it is exactly the condition under which the calls of a whole
  file are free of \<open>Abort\<close>.
\<close>

section \<open>Members\<close>

definition known_type :: "ClassEnumMap \<Rightarrow> string \<Rightarrow> bool" where
  "known_type classEnum t \<longleftrightarrow> isStandardType t \<or> t = ''string'' \<or> classEnum t \<noteq> None"

definition integer_type :: "string \<Rightarrow> bool" where
  "integer_type t \<longleftrightarrow>
     t \<in> {''u64'', ''u32'', ''u16'', ''u8'', ''i64'', ''i32'', ''i16'', ''i8''}"

definition own :: "MemberVariable \<Rightarrow> bool" where
  "own i \<longleftrightarrow> mInheritsFrom i = []"

lemma ser_member_no_abort:
  "no_abort (ser_member classEnum i) \<longleftrightarrow> (own i \<longrightarrow> known_type classEnum (mType i))"
  by (simp add: ser_member_def own_def known_type_def ser_standard_def ser_string_def
      ser_named_array_def ser_enum_def ser_object_def split: option.split)

lemma standard_none: "getStandardType t = st_none \<longleftrightarrow> \<not> isStandardType t \<and> t \<noteq> ''string''"
  by (simp add: getStandardType_def isStandardType_def)

lemma integer_flag:
  "snd (deserializeTypeName (getStandardType t)) \<longleftrightarrow> integer_type t \<or> getStandardType t = st_none"
  by (simp add: getStandardType_def integer_type_def)

lemma check_names_total:
  "deserializeTypeName st = (Some g, isNumeric) \<Longrightarrow> isNumeric \<or> check_names st \<noteq> None"
  by (cases st) auto

lemma deser_value_no_abort:
  "deserializeTypeName st = (Some g, isNumeric) \<Longrightarrow> no_abort (deser_value st isNumeric g i)"
  by (cases isNumeric; frule check_names_total)
    (auto simp: deser_value_def deser_numeric_array_def deser_numeric_def deser_checked_def)

lemma deser_map_no_abort:
  "no_abort (deser_map isNumeric nonMapItems i) \<longleftrightarrow> (isNumeric \<longrightarrow> nonMapItems = [])"
  by (simp add: deser_map_def)

lemma deser_standard_no_abort:
  assumes "getStandardType (mType i) \<noteq> st_none"
  shows "no_abort (deser_standard nonMapItems i) \<longleftrightarrow>
    (mIsMap i \<and> integer_type (mType i) \<longrightarrow> nonMapItems = [])"
proof (cases "deserializeTypeName (getStandardType (mType i))")
  case (Pair g isNumeric)
  then have flag: "isNumeric = integer_type (mType i)"
    using integer_flag[of "mType i"] assms by simp
  show ?thesis
    using Pair deser_value_no_abort[of "getStandardType (mType i)" _ isNumeric i]
    by (auto simp: deser_standard_def deser_map_no_abort flag split: option.split)
qed

lemma deser_named_no_abort: "no_abort (deser_named classEnum i)"
  by (simp add: deser_named_def deser_enum_map_def deser_array_def deser_enum_def deser_object_def
      split: option.split)

lemma deser_member_no_abort:
  "no_abort (deser_member classEnum nonMapItems i) \<longleftrightarrow>
     (own i \<and> mIsMap i \<and> integer_type (mType i) \<longrightarrow> nonMapItems = [])"
proof -
  have "integer_type (mType i) \<Longrightarrow> getStandardType (mType i) \<noteq> st_none"
    by (auto simp: integer_type_def standard_none isStandardType_def)
  then show ?thesis
    by (auto simp: deser_member_def own_def deser_named_no_abort deser_standard_no_abort)
qed

lemma cpp_member_no_abort:
  "no_abort (cpp_member io dm False i) \<longleftrightarrow> (own i \<and> mIsMap i \<longrightarrow> mIsArray i)"
  by (simp add: cpp_member_def own_def cpp_member_type_def cpp_member_name_def cpp_array_operator_def)

section \<open>Objects\<close>

lemma no_abort_comma: "no_abort (comma_calls css) \<longleftrightarrow> (\<forall>cs \<in> set css. no_abort cs)"
  by (auto simp: comma_calls_def split: list.split)

lemma no_abort_map_pc [simp]: "no_abort (map (\<lambda>x. pc n (f x) (g x)) xs)"
  by (induction xs) auto

lemma cpp_text_no_abort [simp]:
  "no_abort (cpp_class_definition isDef cs ob)" "no_abort cpp_end_class" "no_abort (cpp_alias ob)"
  "no_abort (cpp_enum ob)" "no_abort (cpp_equality ob)" "no_abort (cpp_assignment isDef ob)"
  "no_abort (cpp_inherited_constructor io dm isDef ob)" "no_abort (cpp_scratch_array isDef i)"
  by (auto simp: cpp_class_definition_def cpp_descriptions_def cpp_end_class_def cpp_alias_def
      cpp_enum_def cpp_equality_def cpp_assignment_def cpp_inherited_constructor_def
      cpp_scratch_array_def no_abort_comma)

lemma cpp_is_member_no_abort [simp]: "no_abort (cpp_is_member ob)"
  by (simp add: cpp_is_member_def is_member_tests_def split: list.split)

lemma cpp_class_body_no_abort:
  "no_abort (cpp_class_body io dm False ob) \<longleftrightarrow>
     (\<forall>i \<in> set (mItems ob). own i \<and> mIsMap i \<longrightarrow> mIsArray i)"
  by (auto simp: cpp_class_body_def cpp_member_no_abort)

definition plain_class :: "Object \<Rightarrow> bool" where
  "plain_class ob \<longleftrightarrow> mAliasO ob = [] \<and> \<not> stricmp0 (mTypeO ob) ''Enum''"

lemma cpp_objects_no_abort:
  "no_abort (cpp_objects io dm state obs) \<longleftrightarrow>
     (\<forall>ob \<in> set obs. plain_class ob \<longrightarrow>
       (\<forall>i \<in> set (mItems ob). own i \<and> mIsMap i \<longrightarrow> mIsArray i))"
proof (induction obs arbitrary: state)
  case (Cons ob obs)
  then show ?case
    by (auto simp: saveCPP_def plain_class_def cpp_class_body_no_abort Let_def
        split: prod.splits if_splits)
qed simp

lemma saveSerialize_no_abort:
  "no_abort (fst (saveSerialize classEnum ob))"
  "no_abort (snd (saveSerialize classEnum ob)) \<longleftrightarrow>
     (\<not> mIsEnum ob \<longrightarrow> (\<forall>i \<in> set (mItems ob). own i \<longrightarrow> known_type classEnum (mType i)))"
  by (auto simp: saveSerialize_def saveSerialize_header_def saveSerialize_impl_def ser_member_no_abort)

lemma saveDeserialize_no_abort:
  "no_abort (fst (saveDeserialize classEnum ob))"
  "no_abort (snd (saveDeserialize classEnum ob)) \<longleftrightarrow>
     (\<not> mIsEnum ob \<longrightarrow> (\<forall>i \<in> set (mItems ob).
        own i \<and> mIsMap i \<and> integer_type (mType i) \<longrightarrow> non_map_items ob = []))"
  by (auto simp: saveDeserialize_def saveDeserialize_impl_def deser_member_no_abort)

lemma saveTypeScript_no_abort:
  "no_abort (fst (saveTypeScript ob))" "no_abort (fst (snd (saveTypeScript ob)))"
  "no_abort (snd (snd (saveTypeScript ob)))"
  by (auto simp: saveTypeScript_def ts_enum_def ts_class_def ts_member_def descriptions_def
      enum_declarations_def enum_implementation_def enum_table_def enum_stringify_def
      enum_unstringify_def split: list.split)

section \<open>Files\<close>

definition generates :: "DOM \<Rightarrow> bool" where
  "generates dm \<longleftrightarrow>
     (\<forall>ob \<in> set (mObjects dm).
        (plain_class ob \<longrightarrow> (\<forall>i \<in> set (mItems ob). own i \<and> mIsMap i \<longrightarrow> mIsArray i)) \<and>
        (\<not> mIsEnum ob \<longrightarrow> (\<forall>i \<in> set (mItems ob). own i \<longrightarrow>
           known_type (classEnumMap (mObjects dm)) (mType i) \<and>
           (mIsMap i \<and> integer_type (mType i) \<longrightarrow> non_map_items ob = []))))"

definition file_texts :: "float_io \<Rightarrow> DOM \<Rightarrow> code list" where
  "file_texts io dm =
     [dom_saveCPP io dm, fst (dom_saveTypeScript dm), fst (snd (dom_saveTypeScript dm)),
      snd (snd (dom_saveTypeScript dm)), fst (dom_saveSerialize dm), snd (dom_saveSerialize dm),
      fst (dom_saveDeserialize dm), snd (dom_saveDeserialize dm)]"

lemma fixed_texts_no_abort [simp]:
  "no_abort (cpp_header_begin dm)" "no_abort dom_enum_header_begin"
  "no_abort (dom_enum_impl_begin dm)" "no_abort dom_serialize_impl_begin"
  "no_abort dom_deserialize_header_begin" "no_abort dom_deserialize_impl_begin"
  by (simp_all add: cpp_header_begin_def dom_enum_header_begin_def dom_enum_impl_begin_def
      dom_serialize_impl_begin_def dom_deserialize_header_begin_def dom_deserialize_impl_begin_def)

lemma file_texts_no_abort:
  "(\<forall>cs \<in> set (file_texts io dm). no_abort cs) \<longleftrightarrow> generates dm"
  by (auto simp: file_texts_def generates_def dom_saveCPP_def dom_saveTypeScript_def
      dom_saveSerialize_def dom_saveDeserialize_def Let_def cpp_objects_no_abort
      saveSerialize_no_abort saveDeserialize_no_abort saveTypeScript_no_abort)

text \<open>The only fault of these texts is the assertion.\<close>

definition only_asserts :: "code \<Rightarrow> bool" where
  "only_asserts cs \<longleftrightarrow> (\<forall>e. Abort e \<in> set cs \<longrightarrow> e = AssertFail)"

lemma run_with_Inl: "run_with put cs s = Inl e \<Longrightarrow> Abort e \<in> set cs"
  by (induction put cs s rule: run_with.induct) auto

lemma pc_not_Abort [simp]: "Abort e \<noteq> pc n f as" "pc n f as \<noteq> Abort e" "Abort e \<noteq> lf"
  by (simp_all add: pc_def lf_def)

lemma no_abort_set: "no_abort cs \<longleftrightarrow> (\<forall>e. Abort e \<notin> set cs)"
  by (induction cs rule: no_abort.induct) auto

lemma only_asserts_no_abort: "no_abort cs \<Longrightarrow> only_asserts cs"
  by (simp add: only_asserts_def no_abort_set)

lemma only_asserts_append [simp]:
  "only_asserts (xs @ ys) \<longleftrightarrow> only_asserts xs \<and> only_asserts ys"
  "only_asserts (concat xss) \<longleftrightarrow> (\<forall>xs \<in> set xss. only_asserts xs)"
  by (auto simp: only_asserts_def)

lemma members_only_assert:
  "only_asserts (ser_member classEnum i)"
  "only_asserts (deser_member classEnum nonMapItems i)"
  "only_asserts (cpp_member io dm False i)"
proof -
  show "only_asserts (ser_member classEnum i)"
    by (simp add: only_asserts_def ser_member_def ser_standard_def ser_string_def
        ser_named_array_def ser_enum_def ser_object_def split: option.split)
  have "only_asserts (deser_map isNumeric nonMapItems i)" for isNumeric
    by (simp add: only_asserts_def deser_map_def)
  then have "only_asserts (deser_standard nonMapItems i)"
    by (auto simp: deser_standard_def deser_value_no_abort intro!: only_asserts_no_abort
        split: prod.split option.split)
  moreover have "only_asserts (deser_named classEnum i)"
    by (simp add: only_asserts_no_abort deser_named_no_abort)
  ultimately show "only_asserts (deser_member classEnum nonMapItems i)"
    by (simp add: deser_member_def) (simp add: only_asserts_def)
  show "only_asserts (cpp_member io dm False i)"
    by (simp add: only_asserts_def cpp_member_def cpp_member_type_def cpp_member_name_def
        cpp_array_operator_def)
qed

lemma cpp_objects_only_assert: "only_asserts (cpp_objects io dm state obs)"
proof (induction obs arbitrary: state)
  case (Cons ob obs)
  have "only_asserts (cpp_class_body io dm False ob)"
    by (auto simp: cpp_class_body_def members_only_assert only_asserts_no_abort)
  with Cons show ?case
    by (auto simp: saveCPP_def only_asserts_no_abort Let_def split: prod.splits if_splits)
qed (simp add: only_asserts_def)

lemma objects_only_assert:
  "only_asserts (snd (saveSerialize classEnum ob))"
  "only_asserts (snd (saveDeserialize classEnum ob))"
  by (auto simp: saveSerialize_def saveSerialize_impl_def saveDeserialize_def
      saveDeserialize_impl_def only_asserts_def
      dest!: members_only_assert[unfolded only_asserts_def, rule_format])

lemma file_texts_only_assert: "cs \<in> set (file_texts io dm) \<Longrightarrow> only_asserts cs"
  by (auto simp: file_texts_def dom_saveCPP_def dom_saveTypeScript_def dom_saveSerialize_def
      dom_saveDeserialize_def Let_def cpp_objects_only_assert objects_only_assert
      saveSerialize_no_abort saveDeserialize_no_abort saveTypeScript_no_abort
      only_asserts_no_abort)

end
