(* ===== verification/EmitProto.thy ===== *)
theory EmitProto
  imports ValueText
begin

text \<open>
  \<open>Object::savePROTO\<close> (src/src/CreateDOM.cpp): protobuf enums and messages. Field numbers start
  at 1 and run through the members that are not inherited defaults and then through the
  subclasses of the \<open>oneof\<close>.
\<close>

definition proto_descriptions :: "Object \<Rightarrow> code" where
  "proto_descriptions ob =
     (if mShortDescriptionO ob \<noteq> [] then [pc 0 ''// %s\<newline>'' [S (mShortDescriptionO ob)]] else [])
     @ (if mLongDescriptionO ob \<noteq> [] then [pc 0 ''// %s\<newline>'' [S (mLongDescriptionO ob)]] else [])"

fun proto_enum_values :: "nat \<Rightarrow> MemberVariable list \<Rightarrow> code" where
  "proto_enum_values n [] = []"
| "proto_enum_values n (i # is) =
     [pc 1 ''%s = %d;'' [S (mMember i), D n], pc 10 ''// %s\<newline>'' [S (mShortDescription i)]]
     @ proto_enum_values (Suc n) is"

definition proto_enum :: "Object \<Rightarrow> code" where
  "proto_enum ob =
     [pc 0 ''\<newline>'' []] @ proto_descriptions ob
     @ [pc 0 ''enum %s\<newline>'' [S (mName ob)], pc 0 ''{\<newline>'' []]
     @ proto_enum_values 0 (mItems ob)
     @ [pc 0 ''}\<newline>'' [], pc 0 ''\<newline>'' []]"

definition proto_add_arrays :: "Object \<Rightarrow> string list \<Rightarrow> string list" where
  "proto_add_arrays ob arrays =
     fold (\<lambda>i a. if mIsArray i \<and> mType i \<notin> set a then a @ [mType i] else a) (mItems ob) arrays"

text \<open>The fields and the next field number.\<close>

definition inherited_default :: "MemberVariable \<Rightarrow> bool" where
  "inherited_default i \<longleftrightarrow> mInheritsFrom i \<noteq> [] \<and> mDefaultValue i \<noteq> []"

fun proto_fields :: "nat \<Rightarrow> MemberVariable list \<Rightarrow> code \<times> nat" where
  "proto_fields n [] = ([], n)"
| "proto_fields n (i # is) =
     (if inherited_default i then proto_fields n is
      else
        (let repeated = (if mIsArray i then ''repeated '' else []);
             type = (if mProtoType i = [] then mType i else mProtoType i);
             (rest, n') = proto_fields (Suc n) is
         in (pc 1 ''%s%s %s = %d;\<newline>''
               [S repeated, S (getPROTOTypeString type), S (mMember i), D n] # rest, n')))"

text \<open>The 512-byte \<open>scratch\<close> of a child's name is filled by \<open>strncpy\<close>.\<close>

fun proto_children :: "nat \<Rightarrow> string list \<Rightarrow> code" where
  "proto_children n [] = []"
| "proto_children n (k # ks) =
     (case strncpy_buf 512 k of
        Inl e \<Rightarrow> [Abort e]
      | Inr scratch \<Rightarrow>
          pc 2 ''%s %s = %d;\<newline>'' [S k, S (lowercase_first scratch), D n]
          # proto_children (Suc n) ks)"

definition proto_oneof :: "nat \<Rightarrow> string list \<Rightarrow> code" where
  "proto_oneof n children =
     (if children \<noteq> [] then
        [pc 1 ''oneof subtype\<newline>'' [], pc 1 ''{\<newline>'' []]
        @ proto_children n children
        @ [pc 1 ''}\<newline>'' [], pc 0 ''\<newline>'' []]
      else [])"

definition proto_message :: "Object \<Rightarrow> code" where
  "proto_message ob =
     (let (fields, n) = proto_fields 1 (mItems ob)
      in [pc 0 ''\<newline>'' []] @ proto_descriptions ob
         @ [pc 0 ''message %s'' [S (mName ob)], pc 0 ''\<newline>'' [], pc 0 ''{\<newline>'' []]
         @ fields @ proto_oneof n (mChildren ob)
         @ [pc 0 ''}\<newline>'' [], pc 0 ''\<newline>'' []])"

definition savePROTO :: "string list \<Rightarrow> Object \<Rightarrow> code \<times> string list" where
  "savePROTO arrays ob =
     (if stricmp0 (mTypeO ob) ''Enum'' then (proto_enum ob, arrays)
      else (proto_message ob, proto_add_arrays ob arrays))"

section \<open>Field numbers\<close>

definition proto_field :: "nat \<Rightarrow> MemberVariable \<Rightarrow> pcall" where
  "proto_field k i =
     pc 1 ''%s%s %s = %d;\<newline>''
       [S (if mIsArray i then ''repeated '' else []),
        S (getPROTOTypeString (if mProtoType i = [] then mType i else mProtoType i)),
        S (mMember i), D k]"

definition proto_child :: "nat \<Rightarrow> string \<Rightarrow> pcall" where
  "proto_child k name = pc 2 ''%s %s = %d;\<newline>'' [S name, S (lowercase_first name), D k]"

lemma proto_fields_numbered:
  "proto_fields n is =
     (let kept = filter (\<lambda>i. \<not> inherited_default i) is
      in (map (\<lambda>(k, i). proto_field k i) (enumerate n kept), n + length kept))"
proof (induction "is" arbitrary: n)
  case (Cons i "is")
  show ?case
    by (cases "inherited_default i") (simp_all add: Cons Let_def proto_field_def)
qed simp

lemma proto_children_numbered:
  "\<forall>k \<in> set ks. length k < 512 \<Longrightarrow>
   proto_children n ks = map (\<lambda>(k, name). proto_child k name) (enumerate n ks)"
  by (induction ks arbitrary: n) (simp_all add: proto_child_def strncpy_buf_def)



end
