(* ===== verification/Driver.thy ===== *)
theory Driver
  imports CsvReader Faults
begin

text \<open>
  From the command line to the files: the path helpers and the \<open>save\<close> methods of
  \<open>CreateDOMDef\<close> (src/src/CreateDOM.cpp), and \<open>main\<close> (src/app/main.cpp). Progress messages on
  the console are not modelled. A run that meets a fault returns it and leaves no world: no file
  is written before all texts of a call are complete.
\<close>

section \<open>Paths\<close>

definition isSlash :: "char \<Rightarrow> bool" where
  "isSlash c \<longleftrightarrow> c = CHR ''/'' \<or> c = CHR 0x5C"

definition max_dir_path :: nat where
  "max_dir_path = 512"

text \<open>The names \<open>recursiveCreatePath\<close> passes to \<open>createDir\<close>; \<open>n\<close> is the room left in \<open>mpath\<close>.\<close>

fun create_path :: "nat \<Rightarrow> string \<Rightarrow> string \<Rightarrow> string list" where
  "create_path n mpath [] = [mpath]"
| "create_path 0 mpath (c # cs) = [mpath]"
| "create_path (Suc n) mpath (c # cs) =
     (if isSlash c then [mpath] else []) @ create_path n (mpath @ [c]) cs"

definition createDir :: "string \<Rightarrow> world \<Rightarrow> world" where
  "createDir pathName w = w\<lparr>dirs := dirs w @ [pathName]\<rparr>"

definition recursiveCreatePath :: "string \<Rightarrow> world \<Rightarrow> world" where
  "recursiveCreatePath dirName w = fold createDir (create_path (max_dir_path - 1) [] dirName) w"

definition fpout :: "string \<Rightarrow> string \<Rightarrow> world \<Rightarrow> string \<times> world" where
  "fpout fname destDir w = (destDir @ ''/'' @ fname, recursiveCreatePath destDir w)"

section \<open>Saving\<close>

text \<open>\<open>finalize\<close> and then the destructor, at the end of a printer's scope.\<close>

definition close_printer :: "CodePrinter \<Rightarrow> world \<Rightarrow> fault + world" where
  "close_printer cp w =
     (let (cp', w') = finalize cp w in bind_fault (destroy_printer cp') (\<lambda>_. Inr w'))"

definition save_pod ::
  "float_io \<Rightarrow> string \<Rightarrow> string \<Rightarrow> DOM \<Rightarrow> string \<Rightarrow> string \<Rightarrow> world \<Rightarrow> fault + world"
where
  "save_pod io temp1 temp2 dm fimpl fdom w =
     (let (impl_code, dom_code) = dom_savePOD io temp1 temp2 dm
      in bind_fault (run_code impl_code (new_printer fimpl)) (\<lambda>impl.
         bind_fault (run_code dom_code (new_printer fdom)) (\<lambda>hpp.
         bind_fault (close_printer impl w) (close_printer hpp))))"

text \<open>
  \<open>CreateDOMDef::saveTypeScript\<close>: the header and the implementation printer come back with the
  enum, serialization and deserialization code, and the TypeScript file is written.
\<close>

definition CreateDOMDef_saveTypeScript ::
  "CodePrinter \<Rightarrow> CodePrinter \<Rightarrow> string \<Rightarrow> bool \<Rightarrow> CreateDOMDef \<Rightarrow> world \<Rightarrow>
     fault + (CodePrinter \<times> CodePrinter \<times> world)"
where
  "CreateDOMDef_saveTypeScript hpp cpp destDir saveTypeScriptFlag st w =
     (let dm = mDOM st in
      if mNamespace dm = [] then Inr (hpp, cpp, w)
      else if mFilename dm = [] then Inr (hpp, cpp, w)
      else
        (let (fdom, w1) = (if saveTypeScriptFlag
                           then fpout (snprintf 512 ''%s.ts'' [S (mFilename dm)]) destDir w
                           else ([], w));
             (ts_code, enum_h, enum_c) = dom_saveTypeScript dm;
             (ser_h, ser_c) = dom_saveSerialize dm;
             (des_h, des_c) = dom_saveDeserialize dm
         in bind_fault (run_code ts_code (new_printer fdom)) (\<lambda>ts.
            bind_fault (run_code (enum_h @ ser_h @ des_h) hpp) (\<lambda>hpp'.
            bind_fault (run_code (enum_c @ ser_c @ des_c) cpp) (\<lambda>cpp'.
            bind_fault (close_printer ts w1) (\<lambda>w2. Inr (hpp', cpp', w2)))))))"

definition header_tail :: "DOM \<Rightarrow> code" where
\<open>header_tail dm =
  [pc 0 ''} // End of namespace:%s\<newline>'' [S (mNamespace dm)],
   pc 0 ''#ifdef _MSC_VER\<newline>'' [],
   pc 0 ''#pragma warning(pop)\<newline>'' [],
   pc 0 ''#endif\<newline>'' []]\<close>

definition impl_tail :: "DOM \<Rightarrow> code" where
\<open>impl_tail dm = [pc 0 ''} // End of namespace:%s\<newline>'' [S (mNamespace dm)]]\<close>

definition CreateDOMDef_saveCPP ::
  "float_io \<Rightarrow> string \<Rightarrow> string \<Rightarrow> bool \<Rightarrow> CreateDOMDef \<Rightarrow> world \<Rightarrow> fault + world"
where
  "CreateDOMDef_saveCPP io temp1 temp2 saveTypeScriptFlag st w =
     (let dm = mDOM st in
      if mNamespace dm = [] then Inr w
      else if mFilename dm = [] then Inr w
      else
        (let fimpl = [];
             (fdom, w1) = fpout (snprintf 512 ''%s.h'' [S (mFilename dm)]) (mDestDir st) w;
             (fpCpp, w2) = fpout (snprintf 512 ''%s.cpp'' [S (mFilename dm)]) (mDestDir st) w1
         in if mPlainOldData dm then save_pod io temp1 temp2 dm fimpl fdom w2
            else
              bind_fault (run_code (dom_saveCPP io dm) (new_printer fdom)) (\<lambda>hpp.
              bind_fault (CreateDOMDef_saveTypeScript hpp (new_printer fpCpp) (mDestDir st)
                            saveTypeScriptFlag st w2) (\<lambda>(hpp', cpp', w3).
              bind_fault (run_code (header_tail dm) hpp') (\<lambda>hpp''.
              bind_fault (run_code (impl_tail dm) cpp') (\<lambda>cpp''.
              bind_fault (close_printer hpp'' w3) (close_printer cpp'')))))))"

definition CreateDOMDef_savePython :: "float_io \<Rightarrow> CreateDOMDef \<Rightarrow> world \<Rightarrow> fault + world" where
  "CreateDOMDef_savePython io st w =
     (let dm = mDOM st in
      if mNamespace dm = [] then Inr w
      else if mFilename dm = [] then Inr w
      else
        (let (fdom, w1) = fpout (snprintf 512 ''%s.py'' [S (mFilename dm)]) (mDestDir st) w
         in bind_fault (run_code (dom_savePython io dm) (new_printer fdom)) (\<lambda>cp.
              close_printer cp w1)))"

text \<open>\<open>savePROTOBUF\<close> only checks its settings and \<open>saveJSON\<close> is empty: neither writes.\<close>

definition CreateDOMDef_savePROTOBUF :: "CreateDOMDef \<Rightarrow> world \<Rightarrow> world" where
  "CreateDOMDef_savePROTOBUF st w =
     (if mNamespace (mDOM st) = [] then w else if mFilename (mDOM st) = [] then w else w)"

section \<open>main\<close>

text \<open>
  \<open>argv\<close> is the whole argument vector. \<open>temp1\<close> and \<open>temp2\<close> are the unset locals that
  \<open>headerEnd\<close> prints.
\<close>

definition main_app ::
  "float_io \<Rightarrow> string \<Rightarrow> string \<Rightarrow> string list \<Rightarrow> world \<Rightarrow> fault + world"
where
  "main_app io temp1 temp2 argv w =
     (if length argv < 3 then Inr w
      else
        (let csv = argv ! 1; destDir = argv ! 2
         in bind_fault (parseCSV (files w csv) (create destDir)) (\<lambda>st.
              CreateDOMDef_saveCPP io temp1 temp2 False st w)))"

section \<open>Closing printers\<close>

lemma close_printer_eq: "close_printer cp w = Inr (snd (finalize cp w))"
  by (simp add: close_printer_def destroy_printer_def finalize_def Let_def)

text \<open>
  A printer is settled in a world when finalizing it would not touch a file: it has no name or no
  text, its file cannot be opened, or the file already has the text.
\<close>

definition settled :: "CodePrinter \<Rightarrow> world \<Rightarrow> bool" where
  "settled cp w \<longleftrightarrow>
     mDestFileName cp = [] \<or> mOutput cp = [] \<or> \<not> writable w (mDestFileName cp) \<or>
     files w (mDestFileName cp) = Some (mOutput cp)"

lemma finalize_settled: "settled cp w \<Longrightarrow> snd (finalize cp w) = w"
  by (auto simp: settled_def finalize_def needSave_iff Let_def)

lemma settled_finalize: "settled cp (snd (finalize cp w))"
  by (auto simp: settled_def finalize_def needSave_iff Let_def)

lemma settled_frame:
  assumes "settled cp w" "mDestFileName cp' \<noteq> mDestFileName cp"
  shows "settled cp (snd (finalize cp' w))"
  using assms by (auto simp: settled_def finalize_def needSave_iff Let_def)

lemma settled_dirs [simp]: "settled cp (w\<lparr>dirs := d\<rparr>) = settled cp w"
  by (simp add: settled_def)

lemma finalize_frame:
  "f = [] \<or> f \<noteq> mDestFileName cp \<Longrightarrow> files (snd (finalize cp w)) f = files w f"
  "writable (snd (finalize cp w)) = writable w"
  by (auto simp: finalize_def Let_def)

lemma fpout_dirs: "\<exists>d. fpout fname destDir w = (destDir @ ''/'' @ fname, w\<lparr>dirs := d\<rparr>)"
proof -
  have "\<exists>d. fold createDir ps w = w\<lparr>dirs := d\<rparr>" for ps
  proof (induction ps arbitrary: w)
    case Nil
    show ?case by (rule exI[of _ "dirs w"]) simp
  next
    case (Cons p ps)
    from Cons[of "createDir p w"] show ?case by (auto simp: createDir_def)
  qed
  then show ?thesis by (simp add: fpout_def recursiveCreatePath_def)
qed

section \<open>The outcome of a save\<close>

text \<open>The calls on the three printers of the STL flavour.\<close>

definition header_calls :: "float_io \<Rightarrow> DOM \<Rightarrow> code" where
  "header_calls io dm =
     dom_saveCPP io dm @ fst (snd (dom_saveTypeScript dm)) @ fst (dom_saveSerialize dm) @
     fst (dom_saveDeserialize dm) @ header_tail dm"

definition impl_calls :: "DOM \<Rightarrow> code" where
  "impl_calls dm =
     snd (snd (dom_saveTypeScript dm)) @ snd (dom_saveSerialize dm) @
     snd (dom_saveDeserialize dm) @ impl_tail dm"

definition script_calls :: "DOM \<Rightarrow> code" where
  "script_calls dm = fst (dom_saveTypeScript dm)"

definition out_file :: "CreateDOMDef \<Rightarrow> string \<Rightarrow> string" where
  "out_file st fmt = mDestDir st @ ''/'' @ snprintf 512 fmt [S (mFilename (mDOM st))]"

definition saves :: "CreateDOMDef \<Rightarrow> bool" where
  "saves st \<longleftrightarrow> mNamespace (mDOM st) \<noteq> [] \<and> mFilename (mDOM st) \<noteq> []"

definition finish :: "CodePrinter list \<Rightarrow> world \<Rightarrow> world" where
  "finish cps w = fold (\<lambda>cp w. snd (finalize cp w)) cps w"

definition printed :: "code \<Rightarrow> CodePrinter \<Rightarrow> CodePrinter" where
  "printed cs cp = (case run_code cs cp of Inl e \<Rightarrow> cp | Inr cp' \<Rightarrow> cp')"

lemma run_code_outcome:
  assumes "only_asserts cs"
  shows "run_code cs cp = (if no_abort cs then Inr (printed cs cp) else Inl AssertFail)"
proof (cases "run_code cs cp")
  case (Inl e)
  then have "\<not> no_abort cs" "e = AssertFail"
    using assms run_with_no_abort[of printCode_buf cs cp] run_with_Inl[of printCode_buf cs cp e]
    by (auto simp: run_code_def only_asserts_def)
  with Inl show ?thesis by simp
next
  case (Inr cp')
  then have "no_abort cs" using run_with_no_abort[of printCode_buf cs cp] by (auto simp: run_code_def)
  with Inr show ?thesis by (simp add: printed_def)
qed

lemma printed_append:
  assumes "no_abort xs" "no_abort ys"
  shows "printed (xs @ ys) cp = printed ys (printed xs cp)"
proof -
  have run: "run_code cs p = Inr (printed cs p)" if "no_abort cs" for cs p
    using run_code_outcome[OF only_asserts_no_abort[OF that]] that by simp
  have "run_code (xs @ ys) cp = Inr (printed ys (printed xs cp))"
    by (simp add: run_code_append run assms)
  then show ?thesis by (simp add: printed_def)
qed

lemma printed_name [simp]: "mDestFileName (printed cs cp) = mDestFileName cp"
proof -
  have "run_with printCode_buf cs cp = Inr cp' \<Longrightarrow> mDestFileName cp' = mDestFileName cp" for cp'
    by (induction printCode_buf cs cp rule: run_with.induct) auto
  then show ?thesis by (simp add: printed_def run_code_def split: sum.split)
qed

lemma new_printer_name [simp]: "mDestFileName (new_printer f) = f"
  by (simp add: new_printer_def)

lemma tails_no_abort [simp]: "no_abort (header_tail dm)" "no_abort (impl_tail dm)"
  by (simp_all add: header_tail_def impl_tail_def)

text \<open>The three files of the STL flavour; without \<open>flag\<close> the TypeScript printer has no name.\<close>

definition stl_printers :: "float_io \<Rightarrow> bool \<Rightarrow> CreateDOMDef \<Rightarrow> CodePrinter list" where
  "stl_printers io flag st =
     [printed (script_calls (mDOM st)) (new_printer (if flag then out_file st ''%s.ts'' else [])),
      printed (header_calls io (mDOM st)) (new_printer (out_file st ''%s.h'')),
      printed (impl_calls (mDOM st)) (new_printer (out_file st ''%s.cpp''))]"

lemma file_text_outcome:
  assumes "cs \<in> set (file_texts io dm)"
  shows "run_code cs cp = (if no_abort cs then Inr (printed cs cp) else Inl AssertFail)"
  by (rule run_code_outcome[OF file_texts_only_assert[OF assms]])

lemma stl_outcome:
  assumes "saves st" "\<not> mPlainOldData (mDOM st)"
  shows "\<exists>d. CreateDOMDef_saveCPP io temp1 temp2 flag st w =
    (if generates (mDOM st) then Inr (finish (stl_printers io flag st) (w\<lparr>dirs := d\<rparr>))
     else Inl AssertFail)"
proof -
  let ?dm = "mDOM st"
  obtain ts eh ec where e: "dom_saveTypeScript ?dm = (ts, eh, ec)" by (metis surj_pair)
  obtain sh sc where s: "dom_saveSerialize ?dm = (sh, sc)" by fastforce
  obtain dh dc where d: "dom_saveDeserialize ?dm = (dh, dc)" by fastforce
  have texts: "file_texts io ?dm = [dom_saveCPP io ?dm, ts, eh, ec, sh, sc, dh, dc]"
    by (simp add: file_texts_def e s d)
  have gen: "generates ?dm \<longleftrightarrow> no_abort (dom_saveCPP io ?dm) \<and> no_abort ts \<and> no_abort eh \<and>
      no_abort ec \<and> no_abort sh \<and> no_abort sc \<and> no_abort dh \<and> no_abort dc"
    unfolding file_texts_no_abort[of io ?dm, symmetric] texts by auto
  have oa: "only_asserts cs" if "cs \<in> {dom_saveCPP io ?dm, ts, eh, ec, sh, sc, dh, dc}" for cs
    using that file_texts_only_assert[of cs io ?dm] by (auto simp: texts)
  have run: "run_code cs cp = (if no_abort cs then Inr (printed cs cp) else Inl AssertFail)"
    if "only_asserts cs" for cs cp
    by (rule run_code_outcome[OF that])
  note tail = run_code_outcome[OF only_asserts_no_abort[OF tails_no_abort(1)]]
    run_code_outcome[OF only_asserts_no_abort[OF tails_no_abort(2)]]
  obtain d1 where f1: "fpout (snprintf 512 ''%s.h'' [S (mFilename ?dm)]) (mDestDir st) w =
      (out_file st ''%s.h'', w\<lparr>dirs := d1\<rparr>)"
    using fpout_dirs by (metis append.assoc out_file_def)
  obtain d2 where f2: "fpout (snprintf 512 ''%s.cpp'' [S (mFilename ?dm)]) (mDestDir st)
      (w\<lparr>dirs := d1\<rparr>) = (out_file st ''%s.cpp'', w\<lparr>dirs := d2\<rparr>)"
    using fpout_dirs[of _ _ "w\<lparr>dirs := d1\<rparr>"] by (fastforce simp: out_file_def)
  obtain d3 where f3: "(if flag then fpout (snprintf 512 ''%s.ts'' [S (mFilename ?dm)]) (mDestDir st)
      (w\<lparr>dirs := d2\<rparr>) else ([], w\<lparr>dirs := d2\<rparr>)) =
      (if flag then out_file st ''%s.ts'' else [], w\<lparr>dirs := d3\<rparr>)"
    using fpout_dirs[of _ _ "w\<lparr>dirs := d2\<rparr>"] by (cases flag) (fastforce simp: out_file_def)+
  have sv: "mNamespace ?dm \<noteq> []" "mFilename ?dm \<noteq> []" using assms(1) by (simp_all add: saves_def)
  have script: "CreateDOMDef_saveTypeScript hpp cpp (mDestDir st) flag st (w\<lparr>dirs := d2\<rparr>) =
      bind_fault (run_code ts (new_printer (if flag then out_file st ''%s.ts'' else [])))
        (\<lambda>t. bind_fault (run_code (eh @ sh @ dh) hpp) (\<lambda>hpp'.
             bind_fault (run_code (ec @ sc @ dc) cpp) (\<lambda>cpp'.
             Inr (hpp', cpp', snd (finalize t (w\<lparr>dirs := d3\<rparr>))))))" for hpp cpp
    unfolding CreateDOMDef_saveTypeScript_def Let_def f3
    by (simp add: sv e s d close_printer_eq)
  have "CreateDOMDef_saveCPP io temp1 temp2 flag st w =
    (if generates ?dm then Inr (finish (stl_printers io flag st) (w\<lparr>dirs := d3\<rparr>))
     else Inl AssertFail)"
    unfolding CreateDOMDef_saveCPP_def Let_def f1 f2 prod.case script
    by (simp add: sv assms(2) gen run oa tail close_printer_eq stl_printers_def finish_def
        printed_append header_calls_def impl_calls_def script_calls_def e s d)
  then show ?thesis by blast
qed

text \<open>The plain-old-data flavour: the implementation printer has no name.\<close>

lemma pod_parts_no_abort [simp]:
  "no_abort (pod_class_definition isDef cs ob)" "no_abort pod_end_class" "no_abort (pod_alias ob)"
  "no_abort (pod_enum ob)" "no_abort (pod_assignment isDef ob)"
  "no_abort (pod_inherited_constructor io dm isDef ob)" "no_abort (pod_default_constructor isDef ob)"
  "no_abort (pod_destructor isDef ob)" "no_abort (pod_get_dom ob)"
  "no_abort (pod_copy_member isDef i)" "no_abort (pod_init_string i)"
  by (auto simp: pod_class_definition_def pod_end_class_def pod_alias_def pod_enum_def
      pod_assignment_def pod_comma_calls_def pod_inherited_constructor_def
      pod_default_constructor_def pod_destructor_def pod_get_dom_def pod_copy_member_def
      pod_init_string_def split: list.split)

lemma pod_members_no_abort [simp]:
  "no_abort (pod_init_member needs i)" "no_abort (pod_member io dm isDef i)"
  "no_abort (pod_scratch_array isDef i)"
  by (auto simp: pod_init_member_def pod_init_class_def pod_init_pointer_array_def
      pod_init_array_def pod_init_pointer_def pod_init_simple_def pod_member_def
      pod_member_type_def pod_member_name_def pod_scratch_array_def)

lemma pod_class_body_no_abort [simp]: "no_abort (pod_class_body io dm needs isDef ob)"
  by (auto simp: pod_class_body_def pod_deep_copy_def pod_init_dom_def pod_move_def)

lemma pod_objects_no_abort:
  "no_abort (fst (pod_objects io dm needs state obs)) \<and>
   no_abort (snd (pod_objects io dm needs state obs))"
proof (induction obs arbitrary: state)
  case (Cons ob obs)
  obtain impl flat state' where ob: "savePOD io dm needs state ob = (impl, flat, state')"
    by (metis surj_pair)
  have "no_abort (fst (savePOD io dm needs state ob)) \<and>
    no_abort (fst (snd (savePOD io dm needs state ob)))"
    by (simp add: savePOD_def Let_def split: prod.split)
  with ob have "no_abort impl" "no_abort flat" by simp_all
  moreover obtain ims fs where obs: "pod_objects io dm needs state' obs = (ims, fs)" by fastforce
  moreover have "no_abort ims \<and> no_abort fs" using Cons[of state'] obs by simp
  ultimately show ?case by (simp add: ob)
qed simp

definition pod_printers :: "float_io \<Rightarrow> string \<Rightarrow> string \<Rightarrow> CreateDOMDef \<Rightarrow> CodePrinter list" where
  "pod_printers io temp1 temp2 st =
     [printed (fst (dom_savePOD io temp1 temp2 (mDOM st))) (new_printer []),
      printed (snd (dom_savePOD io temp1 temp2 (mDOM st))) (new_printer (out_file st ''%s.h''))]"

lemma pod_outcome:
  assumes "saves st" "mPlainOldData (mDOM st)"
  shows "\<exists>d. CreateDOMDef_saveCPP io temp1 temp2 flag st w =
    Inr (finish (pod_printers io temp1 temp2 st) (w\<lparr>dirs := d\<rparr>))"
proof -
  let ?dm = "mDOM st"
  obtain a b where ab: "dom_savePOD io temp1 temp2 ?dm = (a, b)" by fastforce
  have "no_abort (fst (dom_savePOD io temp1 temp2 ?dm)) \<and>
      no_abort (snd (dom_savePOD io temp1 temp2 ?dm))"
    using pod_objects_no_abort[of io ?dm "map mName (filter mNeedsReflectionO (mObjects ?dm))"
        "([], [])" "mObjects ?dm"]
    by (auto simp: dom_savePOD_def Let_def pod_header_begin_def pod_header_end_def
        split: prod.splits)
  with ab have na: "no_abort a" "no_abort b" by simp_all
  note run = run_code_outcome[OF only_asserts_no_abort[OF na(1)]]
    run_code_outcome[OF only_asserts_no_abort[OF na(2)]]
  obtain d1 where f1: "fpout (snprintf 512 ''%s.h'' [S (mFilename ?dm)]) (mDestDir st) w =
      (out_file st ''%s.h'', w\<lparr>dirs := d1\<rparr>)"
    using fpout_dirs by (metis append.assoc out_file_def)
  obtain d2 where f2: "fpout (snprintf 512 ''%s.cpp'' [S (mFilename ?dm)]) (mDestDir st)
      (w\<lparr>dirs := d1\<rparr>) = (out_file st ''%s.cpp'', w\<lparr>dirs := d2\<rparr>)"
    using fpout_dirs[of _ _ "w\<lparr>dirs := d1\<rparr>"] by (fastforce simp: out_file_def)
  have sv: "mNamespace ?dm \<noteq> []" "mFilename ?dm \<noteq> []" using assms(1) by (simp_all add: saves_def)
  have "CreateDOMDef_saveCPP io temp1 temp2 flag st w =
      Inr (finish (pod_printers io temp1 temp2 st) (w\<lparr>dirs := d2\<rparr>))"
    unfolding CreateDOMDef_saveCPP_def Let_def f1 f2 prod.case
    by (simp add: sv assms(2) save_pod_def ab run na close_printer_eq pod_printers_def finish_def)
  then show ?thesis by blast
qed

lemma nothing_saved:
  "\<not> saves st \<Longrightarrow> CreateDOMDef_saveCPP io temp1 temp2 flag st w = Inr w"
  by (auto simp: saves_def CreateDOMDef_saveCPP_def Let_def)

text \<open>The printers a successful save closes, in order.\<close>

definition save_printers ::
  "float_io \<Rightarrow> string \<Rightarrow> string \<Rightarrow> bool \<Rightarrow> CreateDOMDef \<Rightarrow> CodePrinter list"
where
  "save_printers io temp1 temp2 flag st =
     (if \<not> saves st then []
      else if mPlainOldData (mDOM st) then pod_printers io temp1 temp2 st
      else stl_printers io flag st)"

definition save_succeeds :: "CreateDOMDef \<Rightarrow> bool" where
  "save_succeeds st \<longleftrightarrow> \<not> saves st \<or> mPlainOldData (mDOM st) \<or> generates (mDOM st)"

lemma save_outcome:
  "\<exists>d. CreateDOMDef_saveCPP io temp1 temp2 flag st w =
     (if save_succeeds st then Inr (finish (save_printers io temp1 temp2 flag st) (w\<lparr>dirs := d\<rparr>))
      else Inl AssertFail)"
proof (cases "saves st")
  case False
  then show ?thesis
    by (intro exI[of _ "dirs w"]) (simp add: nothing_saved save_printers_def save_succeeds_def finish_def)
next
  case True
  then show ?thesis
    using stl_outcome[OF True, of io temp1 temp2 flag w] pod_outcome[OF True, of io temp1 temp2 flag w]
    by (cases "mPlainOldData (mDOM st)"; cases "generates (mDOM st)")
      (simp_all add: save_printers_def save_succeeds_def)
qed

lemma finish_settled: "\<forall>cp \<in> set cps. settled cp w \<Longrightarrow> finish cps w = w"
  by (induction cps) (simp_all add: finish_def finalize_settled)

lemma finish_settles:
  "distinct (map mDestFileName (filter (\<lambda>cp. mDestFileName cp \<noteq> []) cps)) \<Longrightarrow>
   cp \<in> set cps \<Longrightarrow> settled cp (finish cps w)"
proof (induction cps rule: rev_induct)
  case (snoc c cps)
  have fin: "finish (cps @ [c]) w = snd (finalize c (finish cps w))"
    by (simp add: finish_def)
  show ?case
  proof (cases "cp = c \<or> mDestFileName cp = []")
    case True
    then show ?thesis by (auto simp: fin settled_finalize) (simp add: settled_def)
  next
    case False
    then have "cp \<in> set cps" using snoc.prems by simp
    moreover have "mDestFileName c \<noteq> mDestFileName cp"
      using snoc.prems(1) False \<open>cp \<in> set cps\<close> by (auto split: if_splits)
    ultimately show ?thesis
      using snoc by (simp add: fin settled_frame)
  qed
qed simp

lemma finish_files:
  "f = [] \<or> f \<notin> mDestFileName ` set cps \<Longrightarrow> files (finish cps w) f = files w f"
  "writable (finish cps w) = writable w"
  by (induction cps arbitrary: w) (auto simp: finish_def finalize_frame)

lemma out_files_distinct:
  assumes "length (mFilename (mDOM st)) \<le> 507"
  shows "distinct [out_file st ''%s.ts'', out_file st ''%s.h'', out_file st ''%s.cpp'']"
  using assms by (simp add: out_file_def snprintf_def)

lemma out_file_nonempty [simp]: "out_file st fmt \<noteq> []"
  by (simp add: out_file_def)

lemma save_printers_distinct:
  assumes "length (mFilename (mDOM st)) \<le> 507"
  shows "distinct (map mDestFileName
    (filter (\<lambda>cp. mDestFileName cp \<noteq> []) (save_printers io temp1 temp2 flag st)))"
  using out_files_distinct[OF assms]
  by (auto simp: save_printers_def pod_printers_def stl_printers_def)

section \<open>Properties of a save\<close>



text \<open>
  C16. The program touches nothing but its two outputs: after a run that ends, every file but
  \<open><destination>/<Filename>.h\<close> and, unless the schema asks for plain old data,
  \<open><destination>/<Filename>.cpp\<close> has the contents it had.
\<close>
theorem main_touches_only_outputs:
  assumes "main_app io temp1 temp2 argv w = Inr w'" "length argv \<ge> 3"
    and "parseCSV (files w (argv ! 1)) (create (argv ! 2)) = Inr st"
  shows "{f. files w' f \<noteq> files w f} \<subseteq>
    (\<lambda>e. argv ! 2 @ ''/'' @ snprintf 512 e [S (mFilename (mDOM st))]) `
      (if mPlainOldData (mDOM st) then {''%s.h''} else {''%s.h'', ''%s.cpp''})"
proof -
  let ?cps = "save_printers io temp1 temp2 False st"
  have "CreateDOMDef_saveCPP io temp1 temp2 False st w = Inr w'"
    using assms by (simp add: main_app_def Let_def)
  with save_outcome[of io temp1 temp2 False st w] obtain d where w': "w' = finish ?cps (w\<lparr>dirs := d\<rparr>)"
    by (auto split: if_splits)
  have dest: "mDestDir st = argv ! 2"
  proof (cases "files w (argv ! 1)")
    case None
    with assms(3) show ?thesis by (auto simp: parseCSV_def create_def)
  next
    case (Some data)
    with assms(3) parse_dest show ?thesis by simp
  qed
  have "files w' f = files w f" if "f \<notin> mDestFileName ` set ?cps - {[]}" for f
    using that finish_files(1)[of f ?cps] by (auto simp: w')
  then have "{f. files w' f \<noteq> files w f} \<subseteq> mDestFileName ` set ?cps - {[]}" by blast
  also have "\<dots> \<subseteq> (\<lambda>e. argv ! 2 @ ''/'' @ snprintf 512 e [S (mFilename (mDOM st))]) `
      (if mPlainOldData (mDOM st) then {''%s.h''} else {''%s.h'', ''%s.cpp''})"
    by (auto simp: save_printers_def pod_printers_def stl_printers_def out_file_def dest)
  finally show ?thesis .
qed

lemma create_path_prefixes:
  "create_path n m d =
     (let d' = take n d
      in map (\<lambda>k. m @ take k d') (filter (\<lambda>k. isSlash (d' ! k)) [0..<length d']) @ [m @ d'])"
proof (induction n m d rule: create_path.induct)
  case (3 n m c cs)
  let ?d = "take n cs"
  have "filter (\<lambda>k. isSlash ((c # ?d) ! k)) [0..<length (c # ?d)] =
      (if isSlash c then [0] else []) @ map Suc (filter (\<lambda>k. isSlash (?d ! k)) [0..<length ?d])"
    by (simp add: upt_conv_Cons map_Suc_upt[symmetric] filter_map comp_def del: upt_Suc map_Suc_upt)
  with 3 show ?case by (simp add: Let_def comp_def)
qed simp_all

text \<open>
  Directories are made parents first: creating a path asks for every prefix that ends in front
  of a slash, shortest first, and then for the path itself; only its first 511 characters count.
\<close>
theorem path_parents_first:
  "dirs (recursiveCreatePath d w) = dirs w @
     (let d' = take 511 d
      in map (\<lambda>k. take k d') (filter (\<lambda>k. isSlash (d' ! k)) [0..<length d']) @ [d'])"
proof -
  have "dirs (fold createDir ps w) = dirs w @ ps" for ps
    by (induction ps arbitrary: w) (simp_all add: createDir_def)
  note made = this
  show ?thesis
    unfolding recursiveCreatePath_def made create_path_prefixes max_dir_path_def by (simp add: Let_def)
qed

text \<open>A schema with one class, and a world with its file.\<close>

definition demo_schema_file :: string where
  "demo_schema_file = ''Namespace,n\<newline>Filename,f\<newline>P,,Class\<newline>,x,u8\<newline>''"

definition demo_world :: world where
  "demo_world = \<lparr>files = [''schema.csv'' \<mapsto> demo_schema_file], writable = (\<lambda>_. True),
     dirs = [], writes = []\<rparr>"

lemma demo_schema_parse:
  "\<exists>st. parseCSV (files demo_world ''schema.csv'') (create ''out'') = Inr st \<and>
     mFilename (mDOM st) = ''f'' \<and> saves st \<and> \<not> mPlainOldData (mDOM st) \<and> generates (mDOM st)"
proof -
  have "case parseCSV (files demo_world ''schema.csv'') (create ''out'') of
      Inr st \<Rightarrow> mFilename (mDOM st) = ''f'' \<and> saves st \<and> \<not> mPlainOldData (mDOM st) \<and> generates (mDOM st)
    | Inl _ \<Rightarrow> False"
    by code_simp
  then show ?thesis
    by (cases "parseCSV (files demo_world ''schema.csv'') (create ''out'')") auto
qed

lemma demo_save:
  "\<exists>st w'. parseCSV (files demo_world ''schema.csv'') (create ''out'') = Inr st \<and>
     mFilename (mDOM st) = ''f'' \<and> \<not> mPlainOldData (mDOM st) \<and>
     CreateDOMDef_saveCPP io temp1 temp2 False st demo_world = Inr w'"
proof -
  obtain st where st: "parseCSV (files demo_world ''schema.csv'') (create ''out'') = Inr st"
    "mFilename (mDOM st) = ''f''" "saves st" "\<not> mPlainOldData (mDOM st)" "generates (mDOM st)"
    using demo_schema_parse by blast
  then show ?thesis
    using save_outcome[of io temp1 temp2 False st demo_world] by (auto simp: save_succeeds_def)
qed


theorem main_touches_only_outputs_witness:
  "\<forall>io. \<exists>w'. main_app io [] [] [''gen'', ''schema.csv'', ''out''] demo_world = Inr w' \<and>
     {f. files w' f \<noteq> files demo_world f} \<subseteq> {''out/f.h'', ''out/f.cpp''}"
proof
  fix io
  let ?argv = "[''gen'', ''schema.csv'', ''out'']"
  obtain st w' where *: "parseCSV (files demo_world ''schema.csv'') (create ''out'') = Inr st"
    "mFilename (mDOM st) = ''f''" "\<not> mPlainOldData (mDOM st)"
    "CreateDOMDef_saveCPP io [] [] False st demo_world = Inr w'"
    using demo_save by blast
  then have run: "main_app io [] [] ?argv demo_world = Inr w'"
    by (simp add: main_app_def)
  have "{f. files w' f \<noteq> files demo_world f} \<subseteq> {''out/f.h'', ''out/f.cpp''}"
    using main_touches_only_outputs[OF run, of st] * by (simp add: snprintf_def)
  with run show "\<exists>w'. main_app io [] [] ?argv demo_world = Inr w' \<and>
     {f. files w' f \<noteq> files demo_world f} \<subseteq> {''out/f.h'', ''out/f.cpp''}"
    by blast
qed

end
