(* ===== verification/StringHelper.thy ===== *)
theory StringHelper
  imports Prelude
begin

text \<open>
  The string routines of src/src/StringHelper.cpp. A \<open>const char *\<close> into a NUL-terminated buffer
  is the text from it up to the terminator, so advancing a pointer drops characters; a null
  pointer is \<open>None\<close>. An out parameter \<open>next\<close> is passed in with its old value and comes back as
  part of the result. Reading through a null pointer is the fault \<open>NullDeref\<close>, reading behind the
  terminator \<open>ReadPastEnd\<close>. Floating-point values come from a record of the operations the code
  uses, for any type \<open>'f\<close>.
\<close>

section \<open>Scanning\<close>

definition isDigit :: "char \<Rightarrow> bool" where
  "isDigit c \<longleftrightarrow> in_range CHR ''0'' CHR ''9'' c \<or> c = CHR ''-'' \<or> c = CHR ''+''"

definition isWhitespace :: "char \<Rightarrow> bool" where
  "isWhitespace c \<longleftrightarrow>
     c = CHR '' '' \<or> c = CHR 0x09 \<or> c = CHR 0x0D \<or> c = CHR 0x0A \<or> c = CHR '','' \<or> c = CHR ''&''"

definition skipWhitespace :: "string \<Rightarrow> string" where
  "skipWhitespace str = dropWhile isWhitespace str"

definition skipDigits :: "string \<Rightarrow> string option" where
  "skipDigits str =
     (let str = dropWhile isDigit str in if str = [] then None else Some str)"

text \<open>The loop over \<open>&...;\<close> entities at the front of the string.\<close>

function skip_entities :: "string \<Rightarrow> string" where
  "skip_entities [] = []"
| "skip_entities (c # str) =
     (if c = CHR ''&'' then
        (let str = dropWhile (\<lambda>c. c \<noteq> CHR '';'') (c # str)
         in skip_entities (if str \<noteq> [] then tl str else str))
      else c # str)"
  by pat_completeness auto
termination
proof (relation "measure length", goal_cases)
  case (2 c str x)
  have "length (dropWhile (\<lambda>c. c \<noteq> CHR '';'') str) \<le> length str"
    by (rule length_dropWhile_le)
  with 2 show ?case by (auto intro: le_less_trans[of _ "length (dropWhile (\<lambda>c. c \<noteq> CHR '';'') str)"])
qed simp

definition skipNonDigits :: "string option \<Rightarrow> string option" where
  "skipNonDigits str =
     (case str of
        None \<Rightarrow> None
      | Some str \<Rightarrow>
          (let str = dropWhile (\<lambda>c. \<not> isDigit c) (skip_entities str)
           in if str = [] then None else Some str))"

section \<open>Hexadecimal\<close>

definition getHex :: "char \<Rightarrow> u32" where
  "getHex c =
     (let c = ascii_lower c
      in if in_range CHR ''0'' CHR ''9'' c then of_nat (code_of c - 48)
         else if in_range CHR ''a'' CHR ''f'' c then of_nat (10 + code_of c - 97)
         else 0)"

definition char_at :: "string \<Rightarrow> nat \<Rightarrow> fault + char" where
  "char_at foo i =
     (if i < length foo then Inr (foo ! i) else if i = length foo then Inr nul else Inl ReadPastEnd)"

text \<open>The value and the offset stored through \<open>endptr\<close>.\<close>

definition getHEX1 :: "string \<Rightarrow> fault + (u8 \<times> nat)" where
  "getHEX1 foo =
     bind_fault (char_at foo 0) (\<lambda>c0. bind_fault (char_at foo 1) (\<lambda>c1.
       Inr (ucast (push_bit 4 (getHex c0) OR getHex c1), 2)))"

definition getHEX2 :: "string \<Rightarrow> fault + (u16 \<times> nat)" where
  "getHEX2 foo =
     bind_fault (char_at foo 0) (\<lambda>c0. bind_fault (char_at foo 1) (\<lambda>c1.
     bind_fault (char_at foo 2) (\<lambda>c2. bind_fault (char_at foo 3) (\<lambda>c3.
       Inr (ucast (push_bit 12 (getHex c0) OR push_bit 8 (getHex c1) OR push_bit 4 (getHex c2)
                   OR getHex c3), 4)))))"

fun hex4_loop :: "nat \<Rightarrow> nat \<Rightarrow> string \<Rightarrow> u32 \<Rightarrow> fault + u32" where
  "hex4_loop 0 i foo ret = Inr ret"
| "hex4_loop (Suc n) i foo ret =
     bind_fault (char_at foo i) (\<lambda>c. hex4_loop n (Suc i) foo (push_bit 4 ret OR getHex c))"

definition getHEX4 :: "string \<Rightarrow> fault + (u32 \<times> nat)" where
  "getHEX4 foo = bind_fault (hex4_loop 8 0 foo 0) (\<lambda>ret. Inr (ret, 8))"

fun hex_loop :: "string \<Rightarrow> u32 \<Rightarrow> u32 \<times> string" where
  "hex_loop [] ret = (ret, [])"
| "hex_loop (c # foo) ret =
     (let l = ascii_lower c
      in if in_range CHR ''0'' CHR ''9'' l
         then hex_loop foo (push_bit 4 ret OR of_nat (code_of l - 48))
         else if in_range CHR ''a'' CHR ''f'' l
         then hex_loop foo (push_bit 4 ret OR of_nat (10 + code_of l - 97))
         else (ret, c # foo))"

definition getHEX :: "string \<Rightarrow> u32 \<times> string" where
  "getHEX foo = hex_loop foo 0"

section \<open>Numbers\<close>

definition maxnum :: nat where
  "maxnum = 32"

text \<open>Skipping blanks and one entity in front of a number.\<close>

definition number_start :: "string \<Rightarrow> string" where
  "number_start str =
     (let str = skipWhitespace str
      in if str \<noteq> [] \<and> hd str = CHR ''&'' then
           (let str = dropWhile (\<lambda>c. c \<noteq> CHR '';'') str
            in skipWhitespace (if str \<noteq> [] then tl str else str))
         else str)"

text \<open>
  The copy loop: the copied characters, the text behind the last \<open>$\<close> among them, and the new
  \<open>next\<close>, which stays null when \<open>dest\<close> is full before the token ends.
\<close>

fun copy_token ::
  "nat \<Rightarrow> string \<Rightarrow> string option \<Rightarrow> string \<times> string option \<times> string option"
where
  "copy_token 0 str hex = ([], hex, None)"
| "copy_token (Suc n) [] hex = ([], hex, Some [])"
| "copy_token (Suc n) (c # str) hex =
     (if isWhitespace c then ([], hex, Some (c # str))
      else (let hex' = (if c = CHR ''$'' then Some str else hex);
                (dest, hex'', next) = copy_token n str hex'
            in (ascii_lower c # dest, hex'', next)))"

definition getUintValue :: "string option \<Rightarrow> string option \<Rightarrow> u32 \<times> string option" where
  "getUintValue str next =
     (case str of
        None \<Rightarrow> (0, next)
      | Some s \<Rightarrow>
          (if s = [] then (0, next)
           else (let (dest, _, next') = copy_token (maxnum - 1) (number_start s) None
                 in (atoi dest, next'))))"

record 'f float_lib =
  f_zero :: 'f
  f_one :: 'f
  f_max :: 'f
  f_min :: 'f
  f_bits :: "u32 \<Rightarrow> 'f"
  f_atof :: "string \<Rightarrow> 'f"

definition getFloatValue ::
  "'f float_lib \<Rightarrow> string option \<Rightarrow> string option \<Rightarrow> 'f \<times> string option"
where
  "getFloatValue fl str next =
     (case str of
        None \<Rightarrow> (f_zero fl, next)
      | Some s \<Rightarrow>
          (if s = [] then (f_zero fl, next)
           else
             (let (dest, hex, next') = copy_token (maxnum - 1) (number_start s) None;
                  ret = (case hex of
                           Some h \<Rightarrow> f_bits fl (fst (getHEX h))
                         | None \<Rightarrow>
                             (if dest \<noteq> [] \<and> hd dest = CHR ''f'' then
                                (if dest = ''fltmax'' \<or> dest = ''fmax'' then f_max fl
                                 else if dest = ''fltmin'' \<or> dest = ''fmin'' then f_min fl
                                 else f_zero fl)
                              else if dest \<noteq> [] \<and> hd dest = CHR ''t'' then f_one fl
                              else f_atof fl dest))
              in (ret, next'))))"

text \<open>\<open>*mynext\<close>: the fault, or whether the character is not NUL.\<close>

definition deref_nonzero :: "string option \<Rightarrow> fault + bool" where
  "deref_nonzero p = (case p of None \<Rightarrow> Inl NullDeref | Some s \<Rightarrow> Inr (s \<noteq> []))"

definition at_digit :: "string option \<Rightarrow> bool" where
  "at_digit p = (case p of None \<Rightarrow> False | Some s \<Rightarrow> s \<noteq> [] \<and> isDigit (hd s))"

text \<open>\<open>getVec3\<close> and \<open>getUint3\<close> have the same shape, with the number reader in the place of \<open>get\<close>.\<close>

definition getVec3 ::
  "'f float_lib \<Rightarrow> string option \<Rightarrow> string option \<Rightarrow>
     fault + (bool \<times> string option \<times> 'f \<times> 'f \<times> 'f)"
where
  "getVec3 fl str next =
     (let str = skipNonDigits str; z0 = f_zero fl in
      if at_digit str then
        (let (x, mynext) = getFloatValue fl str None
         in bind_fault (deref_nonzero mynext) (\<lambda>more.
              if more then
                (let (y, mynext) = getFloatValue fl mynext mynext
                 in if mynext \<noteq> None then
                      (let (z, mynext) = getFloatValue fl mynext mynext
                       in Inr (True, mynext, x, y, z))
                    else Inr (False, mynext, x, y, z0))
              else Inr (False, mynext, x, z0, z0)))
      else Inr (False, next, z0, z0, z0))"

definition getUint3 ::
  "string option \<Rightarrow> string option \<Rightarrow> fault + (bool \<times> string option \<times> u32 \<times> u32 \<times> u32)"
where
  "getUint3 str next =
     (let str = skipNonDigits str in
      if at_digit str then
        (let (i1, mynext) = getUintValue str None
         in bind_fault (deref_nonzero mynext) (\<lambda>more.
              if more then
                (let (i2, mynext) = getUintValue mynext mynext
                 in if mynext \<noteq> None then
                      (let (i3, mynext) = getUintValue mynext mynext
                       in Inr (True, mynext, i1, i2, i3))
                    else Inr (False, mynext, i1, i2, 0))
              else Inr (False, mynext, i1, 0, 0)))
      else Inr (False, next, 0, 0, 0))"

definition getUint1 :: "string option \<Rightarrow> string option \<Rightarrow> bool \<times> string option \<times> u32" where
  "getUint1 str next =
     (let str = skipNonDigits str in
      if at_digit str then
        (let (i1, mynext) = getUintValue str None in (True, mynext, i1))
      else (False, next, 0))"

definition getVec4 ::
  "'f float_lib \<Rightarrow> string option \<Rightarrow> string option \<Rightarrow>
     bool \<times> string option \<times> 'f \<times> 'f \<times> 'f \<times> 'f"
where
  "getVec4 fl str next =
     (let str = skipNonDigits str; z0 = f_zero fl in
      if at_digit str then
        (let (x, mynext) = getFloatValue fl str None
         in if mynext \<noteq> None \<and> mynext \<noteq> Some [] then
              (let (y, mynext) = getFloatValue fl mynext mynext
               in if mynext \<noteq> None then
                    (let (z, mynext) = getFloatValue fl mynext mynext
                     in if mynext \<noteq> None then
                          (let (w, mynext) = getFloatValue fl mynext mynext
                           in (True, mynext, x, y, z, w))
                        else (False, mynext, x, y, z, z0))
                  else (False, mynext, x, y, z0, z0))
            else (False, mynext, x, z0, z0, z0))
      else (False, next, z0, z0, z0, z0))"

definition getUint32Value :: "string option \<Rightarrow> u32 \<times> string option" where
  "getUint32Value str =
     (case skipNonDigits str of
        None \<Rightarrow> (0, None)
      | Some s \<Rightarrow> (atoi s, (case skipDigits s of None \<Rightarrow> None | Some r \<Rightarrow> skipNonDigits (Some r))))"

definition helper_getBool :: "string option \<Rightarrow> bool" where
  "helper_getBool v =
     (case v of
        None \<Rightarrow> False
      | Some [] \<Rightarrow> False
      | Some (c # cs) \<Rightarrow>
          (if isDigit c then atoi (c # cs) \<noteq> 0
           else c = CHR ''t'' \<or> c = CHR ''T'' \<or> c = CHR ''y'' \<or> c = CHR ''Y''))"

section \<open>Text\<close>

fun normalizePathSlashes :: "string \<Rightarrow> string" where
  "normalizePathSlashes [] = []"
| "normalizePathSlashes (c # fname) =
     (if c = CHR ''/'' then CHR 0x5C else c) # normalizePathSlashes fname"

text \<open>The inner loop of \<open>stristr\<close>: whether \<open>scan1\<close> is used up.\<close>

fun match_rest :: "string \<Rightarrow> string \<Rightarrow> bool" where
  "match_rest [] scan2 = True"
| "match_rest (a # scan1) [] = False"
| "match_rest (a # scan1) (b # scan2) =
     (if ascii_upper a \<noteq> ascii_upper b then False else match_rest scan1 scan2)"

text \<open>An empty \<open>subString\<close> has the NUL as its first character, which never occurs in the source.\<close>

fun stristr :: "string \<Rightarrow> string \<Rightarrow> string option" where
  "stristr [] subString = None"
| "stristr (c # sourceString) subString =
     (case subString of
        [] \<Rightarrow> stristr sourceString subString
      | f # scan1 \<Rightarrow>
          (if ascii_upper c = ascii_upper f \<and> match_rest scan1 sourceString
           then Some (c # sourceString)
           else stristr sourceString subString))"

section \<open>Hexadecimal text\<close>

text \<open>The digits of a number in base 16, as a printer of lower case hexadecimal writes them.\<close>

definition hex_char :: "nat \<Rightarrow> char" where
  "hex_char d = char_of (if d < 10 then 48 + d else 87 + d)"

fun hex_of :: "nat \<Rightarrow> string" where
  "hex_of n = (if n < 16 then [hex_char n] else hex_of (n div 16) @ [hex_char (n mod 16)])"

declare hex_of.simps [simp del]

definition hex_digit :: "char \<Rightarrow> bool" where
  "hex_digit c \<longleftrightarrow> in_range CHR ''0'' CHR ''9'' (ascii_lower c) \<or>
     in_range CHR ''a'' CHR ''f'' (ascii_lower c)"

lemma shift_or: "v < 16 \<Longrightarrow> push_bit 4 (w :: u32) OR of_nat v = w * 16 + of_nat v"
proof -
  assume v: "v < 16"
  have "\<not> bit (push_bit 4 w) n \<or> \<not> bit (of_nat v :: u32) n" for n
  proof (cases "n < 4")
    case False
    have "v < 2 ^ n"
      using v False power_increasing[of 4 n "2::nat"] by simp
    then have "\<not> bit v n" by (simp add: bit_iff_odd)
    then show ?thesis by (simp add: bit_of_nat_iff)
  qed (simp add: bit_push_bit_iff)
  then have "push_bit 4 w + of_nat v = push_bit 4 w OR of_nat v"
    by (intro disjunctive_add) blast
  then show ?thesis by (simp add: push_bit_eq_mult)
qed

lemma hex_loop_digit:
  "hex_digit c \<Longrightarrow> hex_loop (c # foo) ret = hex_loop foo (push_bit 4 ret OR getHex c)"
  by (auto simp: hex_digit_def getHex_def Let_def)

lemma hex_loop_stop: "\<not> hex_digit c \<Longrightarrow> hex_loop (c # foo) ret = (ret, c # foo)"
  by (simp add: hex_digit_def Let_def)

lemma hex_char_digit: "v < 16 \<Longrightarrow> ascii_lower c = hex_char v \<Longrightarrow> hex_digit c \<and> getHex c = of_nat v"
proof -
  assume v: "v < 16" and c: "ascii_lower c = hex_char v"
  have codes: "code_of CHR ''0'' = 48" "code_of CHR ''9'' = 57" "code_of CHR ''a'' = 97"
    "code_of CHR ''f'' = 102"
    by (simp_all add: code_of_def)
  have "code_of (hex_char v) = (if v < 10 then 48 + v else 87 + v)"
    using v by (simp add: hex_char_def)
  then show "hex_digit c \<and> getHex c = of_nat v"
    using v by (auto simp: hex_digit_def getHex_def Let_def c in_range_def codes)
qed

lemma hex_loop_append:
  "\<forall>c \<in> set s. hex_digit c \<Longrightarrow> hex_loop (s @ foo) ret = hex_loop foo (fst (hex_loop s ret))"
  by (induction s arbitrary: ret) (auto simp: hex_loop_digit simp del: hex_loop.simps(2))

lemma hex_loop_value:
  "map ascii_lower s = hex_of n \<Longrightarrow> (\<forall>c \<in> set s. hex_digit c) \<and> hex_loop s 0 = (of_nat n, [])"
proof (induction n arbitrary: s rule: hex_of.induct)
  case (1 n)
  show ?case
  proof (cases "n < 16")
    case True
    with "1.prems" obtain c where s: "s = [c]" "ascii_lower c = hex_char n"
      by (auto simp: hex_of.simps[of n])
    with hex_char_digit[OF True s(2)] show ?thesis
      by (simp add: hex_loop_digit del: hex_loop.simps(2))
  next
    case False
    with "1.prems" have "map ascii_lower s = hex_of (n div 16) @ [hex_char (n mod 16)]"
      by (simp add: hex_of.simps[of n])
    then obtain s' c where s: "s = s' @ [c]" "map ascii_lower s' = hex_of (n div 16)"
      "ascii_lower c = hex_char (n mod 16)"
      by (auto simp: map_eq_append_conv)
    note c = hex_char_digit[OF _ s(3)]
    have IH: "(\<forall>c \<in> set s'. hex_digit c) \<and> hex_loop s' 0 = (of_nat (n div 16), [])"
      using "1.IH"[OF False s(2)] .
    have "of_nat n = (of_nat (n div 16 * 16 + n mod 16) :: u32)"
      by (simp only: div_mult_mod_eq)
    also have "\<dots> = of_nat (n div 16) * 16 + of_nat (n mod 16)"
      by (simp only: of_nat_add of_nat_mult of_nat_numeral)
    finally have "(of_nat (n div 16) * 16 + of_nat (n mod 16) :: u32) = of_nat n"
      by (rule sym)
    then show ?thesis
      using IH c by (auto simp: s(1) hex_loop_append hex_loop_digit shift_or
          simp del: hex_loop.simps(2))
  qed
qed

text \<open>
  C32. \<open>getHEX\<close> reads back what a hexadecimal printer writes: for any spelling, upper or lower case,
  of the digits of \<open>n\<close> it returns \<open>n\<close> (modulo \<open>2 ^ 32\<close>, the shift drops the rest) and stops
  at the first character that is no digit.
\<close>
theorem getHEX_reads_back:
  assumes "map ascii_lower s = hex_of n" "rest = [] \<or> \<not> hex_digit (hd rest)"
  shows "getHEX (s @ rest) = (of_nat n, rest)"
proof -
  have "hex_loop rest ret = (ret, rest)" for ret
    using assms(2) by (cases rest) (auto simp: hex_loop_stop simp del: hex_loop.simps(2))
  with hex_loop_value[OF assms(1)] show ?thesis
    by (simp add: getHEX_def hex_loop_append)
qed

theorem getHEX_reads_back_witness: "getHEX ''Be;'' = (0xBE, '';'')"
proof -
  have hex: "map ascii_lower ''Be'' = hex_of 0xBE"
    by (simp add: hex_of.simps hex_char_def ascii_lower_def in_range_def char_add_def code_of_def)
      code_simp
  have "\<not> hex_digit CHR '';''" by code_simp
  then have "getHEX (''Be'' @ '';'') = (of_nat 0xBE, '';'')"
    by (intro getHEX_reads_back[OF hex]) simp
  then show ?thesis by simp
qed

lemma hex4_loop_digits:
  "i + n \<le> length foo \<Longrightarrow> \<forall>c \<in> set (take n (drop i foo)). hex_digit c \<Longrightarrow>
   hex4_loop n i foo ret = Inr (fst (hex_loop (take n (drop i foo)) ret))"
proof (induction n arbitrary: i ret)
  case (Suc n)
  then have i: "i < length foo" by simp
  have step: "take (Suc n) (drop i foo) = foo ! i # take n (drop (Suc i) foo)"
    using i by (simp add: Cons_nth_drop_Suc[symmetric])
  have "hex_digit (foo ! i)" using Suc.prems(2) unfolding step by simp
  moreover have "hex4_loop n (Suc i) foo (push_bit 4 ret OR getHex (foo ! i)) =
      Inr (fst (hex_loop (take n (drop (Suc i) foo)) (push_bit 4 ret OR getHex (foo ! i))))"
    using Suc.prems unfolding step by (intro Suc.IH) auto
  ultimately show ?case
    using i unfolding step by (simp add: char_at_def hex_loop_digit del: hex_loop.simps(2))
qed simp

lemma hex4_loop_split:
  "hex4_loop (m + n) i foo ret = bind_fault (hex4_loop m i foo ret) (hex4_loop n (i + m) foo)"
proof (induction m arbitrary: i ret)
  case (Suc m)
  then show ?case by (cases "char_at foo i") simp_all
qed simp

text \<open>
  On hexadecimal digits \<open>getHEX4\<close> agrees with \<open>getHEX\<close> of the first eight. With seven digits it
  takes the terminator for an eighth digit zero, and with fewer it reads behind the terminator.
\<close>
theorem getHEX4_agrees:
  assumes "\<forall>c \<in> set foo. hex_digit c"
  shows "getHEX4 foo =
    (if length foo < 7 then Inl ReadPastEnd
     else if length foo = 7 then Inr (push_bit 4 (fst (getHEX foo)), 8)
     else Inr (fst (getHEX (take 8 foo)), 8))"
proof -
  have prefix: "hex4_loop n 0 foo 0 = Inr (fst (hex_loop (take n foo) 0))" if "n \<le> length foo" for n
  proof -
    have "\<forall>c \<in> set (take n (drop 0 foo)). hex_digit c"
      using assms set_take_subset[of n foo] by auto
    from hex4_loop_digits[OF _ this, of 0] that show ?thesis by simp
  qed
  consider "length foo < 7" | "length foo = 7" | "8 \<le> length foo" by linarith
  then show ?thesis
  proof cases
    case 1
    define k where "k = 6 - length foo"
    have "hex4_loop 8 0 foo 0 = hex4_loop (length foo + Suc (Suc k)) 0 foo 0"
      using 1 by (simp add: k_def)
    also have "\<dots> = Inl ReadPastEnd"
      unfolding hex4_loop_split by (simp add: prefix char_at_def)
    finally show ?thesis using 1 by (simp add: getHEX4_def)
  next
    case 2
    have "getHex nul = 0"
      by (simp add: getHex_def nul_def ascii_lower_def in_range_def code_of_def Let_def)
    moreover have "hex4_loop 8 0 foo 0 = hex4_loop (7 + 1) 0 foo 0" by simp
    ultimately show ?thesis
      using 2 unfolding getHEX4_def hex4_loop_split by (simp add: prefix char_at_def getHEX_def)
  next
    case 3
    then show ?thesis by (simp add: getHEX4_def getHEX_def prefix)
  qed
qed

theorem getHEX4_agrees_witness: "getHEX4 ''10000001'' = Inr (fst (getHEX ''10000001''), 8)"
proof -
  have "\<forall>c \<in> set ''10000001''. hex_digit c"
    by (simp add: hex_digit_def ascii_lower_def in_range_def code_of_def)
  from getHEX4_agrees[OF this] show ?thesis by simp
qed

section \<open>Searching\<close>

definition ci_prefix :: "string \<Rightarrow> string \<Rightarrow> bool" where
  "ci_prefix sub s \<longleftrightarrow> prefix (map ascii_upper sub) (map ascii_upper s)"

lemma match_rest_iff: "match_rest sub s \<longleftrightarrow> ci_prefix sub s"
  by (induction sub s rule: match_rest.induct) (auto simp: ci_prefix_def)

lemma find_shift:
  "find P (map (\<lambda>k. drop k (c # src)) [0..<length (c # src)]) =
     (if P (c # src) then Some (c # src) else find P (map (\<lambda>k. drop k src) [0..<length src]))"
proof -
  have "[0..<length (c # src)] = 0 # map Suc [0..<length src]"
    by (simp add: map_Suc_upt upt_conv_Cons del: upt_Suc)
  then show ?thesis by (simp add: comp_def)
qed

text \<open>
  C33. \<open>stristr\<close> returns the first position at which the substring occurs, case ignored, and null
  when it occurs nowhere. An empty substring is never found (\<open>strstr\<close> would find it at once).
\<close>
theorem stristr_first_match:
  "stristr src sub =
     (if sub = [] then None
      else find (ci_prefix sub) (map (\<lambda>k. drop k src) [0..<length src]))"
proof (induction src)
  case (Cons c src)
  show ?case
  proof (cases sub)
    case Nil
    with Cons show ?thesis by simp
  next
    case sub: (Cons f r)
    have "ci_prefix sub (c # src) \<longleftrightarrow> ascii_upper c = ascii_upper f \<and> match_rest r src"
      by (auto simp: sub match_rest_iff) (auto simp: ci_prefix_def)
    with Cons show ?thesis
      by (subst find_shift) (simp add: sub)
  qed
qed simp

section \<open>Numbers back from text\<close>

lemma number_start_skips: "number_start s = skipWhitespace s"
proof -
  have "skipWhitespace s \<noteq> [] \<Longrightarrow> \<not> isWhitespace (hd (skipWhitespace s))"
    by (simp add: skipWhitespace_def hd_dropWhile)
  then show ?thesis by (auto simp: number_start_def Let_def isWhitespace_def)
qed

definition token :: "string \<Rightarrow> bool" where
  "token s \<longleftrightarrow> s \<noteq> [] \<and> length s \<le> 30 \<and> (\<forall>c \<in> set s. \<not> isWhitespace c)"

definition gap :: "string \<Rightarrow> bool" where
  "gap s \<longleftrightarrow> s = [] \<or> isWhitespace (hd s)"

lemma copy_token_stops:
  "\<forall>c \<in> set s. \<not> isWhitespace c \<Longrightarrow> length s < n \<Longrightarrow> gap rest \<Longrightarrow>
   \<exists>h. copy_token n (s @ rest) hex = (map ascii_lower s, h, Some rest)"
proof (induction s arbitrary: n hex)
  case Nil
  then show ?case by (cases n; cases rest) (auto simp: gap_def)
next
  case (Cons c s)
  then obtain m where n: "n = Suc m" "length s < m" by (cases n) auto
  obtain h where "copy_token m (s @ rest) (if c = CHR ''$'' then Some (s @ rest) else hex) =
      (map ascii_lower s, h, Some rest)"
    using Cons.IH[OF _ n(2) Cons.prems(3)] Cons.prems(1) by fastforce
  with Cons.prems(1) show ?case by (auto simp: n(1) Let_def)
qed

lemma copy_token_full:
  "\<forall>c \<in> set s. \<not> isWhitespace c \<Longrightarrow> n \<le> length s \<Longrightarrow> \<exists>d h. copy_token n (s @ rest) hex = (d, h, None)"
proof (induction n arbitrary: s hex)
  case (Suc n)
  then obtain c s' where s: "s = c # s'" by (cases s) auto
  obtain d h where "copy_token n (s' @ rest) (if c = CHR ''$'' then Some (s' @ rest) else hex) = (d, h, None)"
    using Suc.IH[of s'] Suc.prems s by fastforce
  with Suc.prems s show ?case by (auto simp: Let_def)
qed simp

lemma dec_length: "n < 10 ^ Suc k \<Longrightarrow> length (dec n) \<le> Suc k"
proof (induction k arbitrary: n)
  case (Suc k)
  show ?case
  proof (cases "n < 10")
    case False
    have "n div 10 < 10 ^ Suc k" using Suc.prems by (simp add: less_mult_imp_div_less)
    from Suc.IH[OF this] False show ?thesis by (subst dec.simps) simp
  qed (subst dec.simps, simp)
qed (subst dec.simps, simp)

lemma dec_digit_plain:
  "is_dec_digit c \<Longrightarrow> \<not> isWhitespace c \<and> isDigit c \<and> ascii_lower c = c \<and> \<not> is_space c \<and>
     c \<noteq> CHR ''-'' \<and> c \<noteq> CHR ''+'' \<and> c \<noteq> CHR ''&'' \<and> digit_value c < 10"
proof -
  assume c: "is_dec_digit c"
  have codes: "code_of CHR ''0'' = 48" "code_of CHR ''9'' = 57" "code_of CHR ''A'' = 65"
    by (simp_all add: code_of_def)
  with c have r: "48 \<le> code_of c" "code_of c \<le> 57" by (simp_all add: is_dec_digit_def in_range_def)
  have "c \<noteq> d" if "code_of d < 48" for d using r that by auto
  then have "c \<noteq> CHR ''-''" "c \<noteq> CHR ''+''" "c \<noteq> CHR ''&''" "c \<noteq> CHR '' ''" "c \<noteq> CHR 0x09"
    "c \<noteq> CHR 0x0D" "c \<noteq> CHR 0x0A" "c \<noteq> CHR '',''"
    by (simp_all add: code_of_def)
  with r c show ?thesis
    by (simp add: isWhitespace_def isDigit_def is_dec_digit_def ascii_lower_def in_range_def codes
        is_space_def digit_value_def)
qed

lemma dec_plain:
  "\<forall>c \<in> set (dec n). \<not> isWhitespace c" "map ascii_lower (dec n) = dec n"
proof -
  have d: "\<forall>c \<in> set (dec n). is_dec_digit c" by (rule dec_digits)
  then show "\<forall>c \<in> set (dec n). \<not> isWhitespace c" using dec_digit_plain by blast
  show "map ascii_lower (dec n) = dec n"
    using d dec_digit_plain by (intro map_idI) blast
qed

lemma atoi_dec: "n < 2 ^ 63 \<Longrightarrow> atoi (dec n) = of_nat n"
  by (simp add: atoi_def signed_value_def dec_front clamp_def)

lemma u32_dec: "length (dec (unat (u :: u32))) < 31" "atoi (dec (unat u)) = u"
proof -
  have "unat u < 2 ^ 32" using unsigned_less[of u] by simp
  then show "length (dec (unat u)) < 31" "atoi (dec (unat u)) = u"
    using dec_length[of "unat u" 9] by (simp_all add: atoi_dec)
qed

lemma getUintValue_dec:
  assumes "\<forall>c \<in> set g. isWhitespace c" "gap rest"
  shows "getUintValue (Some (g @ dec (unat u) @ rest)) next = (u, Some rest)"
proof -
  have first: "dropWhile isWhitespace (dec (unat u) @ rest) = dec (unat u) @ rest"
    using dec_plain(1)[of "unat u"] by (cases "dec (unat u)") auto
  have "skipWhitespace (g @ dec (unat u) @ rest) = dec (unat u) @ rest"
    using assms(1) first by (simp add: skipWhitespace_def)
  moreover obtain h where "copy_token 31 (dec (unat u) @ rest) None =
      (map ascii_lower (dec (unat u)), h, Some rest)"
    using copy_token_stops[OF dec_plain(1) u32_dec(1) assms(2)] by blast
  ultimately show ?thesis
    by (simp add: getUintValue_def number_start_skips maxnum_def dec_plain(2) u32_dec(2))
qed





text \<open>
  The entity-skipping step of the number readers never runs: blanks are skipped first, and an
  ampersand counts as a blank, so \<open>number_start\<close> only skips blanks and the name of an entity in
  front of a number is read as the number.
\<close>
theorem entities_never_skipped: "number_start s = skipWhitespace s"
  by (rule number_start_skips)

end
