(* ===== verification/Itoa.thy ===== *)
theory Itoa
  imports Prelude
begin

text \<open>
  The integer-to-text routines of src/src/itoa_jeaiii.cpp (the branch that writes two characters
  at a time). \<open>t\<close> is a 32.32 fixed-point number: its upper half indexes a table of digit pairs,
  its lower half times 100 is the next pair. The buffer is a map from addresses to characters;
  an index outside the table is a fault. The invariant \<open>fixed_point\<close> relates \<open>t\<close> to the digits
  still to print; with it every routine is shown to write exactly the decimal text.
\<close>

section \<open>The macros\<close>

type_synonym mem = "nat \<Rightarrow> char"

text \<open>The two-character literals, and the 16-bit value of one.\<close>

definition s_100s_text :: "string list" where
  "s_100s_text =
    [''00'', ''10'', ''20'', ''30'', ''40'', ''50'', ''60'', ''70'', ''80'', ''90'',
     ''01'', ''11'', ''21'', ''31'', ''41'', ''51'', ''61'', ''71'', ''81'', ''91'',
     ''02'', ''12'', ''22'', ''32'', ''42'', ''52'', ''62'', ''72'', ''82'', ''92'',
     ''03'', ''13'', ''23'', ''33'', ''43'', ''53'', ''63'', ''73'', ''83'', ''93'',
     ''04'', ''14'', ''24'', ''34'', ''44'', ''54'', ''64'', ''74'', ''84'', ''94'',
     ''05'', ''15'', ''25'', ''35'', ''45'', ''55'', ''65'', ''75'', ''85'', ''95'',
     ''06'', ''16'', ''26'', ''36'', ''46'', ''56'', ''66'', ''76'', ''86'', ''96'',
     ''07'', ''17'', ''27'', ''37'', ''47'', ''57'', ''67'', ''77'', ''87'', ''97'',
     ''08'', ''18'', ''28'', ''38'', ''48'', ''58'', ''68'', ''78'', ''88'', ''98'',
     ''09'', ''19'', ''29'', ''39'', ''49'', ''59'', ''69'', ''79'', ''89'', ''99'']"

definition multichar :: "string \<Rightarrow> u16" where
  "multichar s = of_nat (code_of (s ! 0) * 256 + code_of (s ! 1))"

definition s_100s :: "u16 list" where
  "s_100s = map multichar s_100s_text"

definition shift_of :: "nat \<Rightarrow> nat" where
  "shift_of N = N div 5 * N * 53 div 16"

definition A :: "nat \<Rightarrow> u32 \<Rightarrow> u64" where
  "A N u =
     (let t = push_bit (32 + shift_of N) 1 div of_nat (10 ^ N) + 1 - of_nat (N div 9);
          t = t * ucast u;
          t = drop_bit (shift_of N) t
      in t + of_nat (N div 5 * 4))"

definition char_plus :: "char \<Rightarrow> nat \<Rightarrow> char" where
  "char_plus c n = char_of (code_of c + n)"

text \<open>\<open>W\<close> stores a table entry at \<open>b + N\<close>, low byte first.\<close>

definition W :: "nat \<Rightarrow> u64 \<Rightarrow> nat \<Rightarrow> mem \<Rightarrow> fault + mem" where
  "W N I b m =
     (if unat I < length s_100s then
        (let v = unat (s_100s ! unat I)
         in Inr (m(b + N := char_of (v mod 256), b + N + 1 := char_of (v div 256))))
      else Inl ReadPastEnd)"

definition Q :: "nat \<Rightarrow> u64 \<Rightarrow> nat \<Rightarrow> mem \<Rightarrow> mem" where
  "Q N t b m =
     m(b + N := char_plus (char_of (unat (drop_bit 32 (10 * ucast (ucast t :: u32) :: u64)))) 48)"

definition E :: "u64 \<Rightarrow> u64" where
  "E t = 100 * ucast (ucast t :: u32)"

datatype emit_step = DoD nat | DoQ nat | DoE

fun run_steps :: "emit_step list \<Rightarrow> u64 \<Rightarrow> nat \<Rightarrow> mem \<Rightarrow> fault + mem" where
  "run_steps [] t b m = Inr m"
| "run_steps (DoD N # ss) t b m = bind_fault (W N (drop_bit 32 t) b m) (run_steps ss t b)"
| "run_steps (DoQ N # ss) t b m = run_steps ss t b (Q N t b m)"
| "run_steps (DoE # ss) t b m = run_steps ss (E t) b m"

text \<open>The macros \<open>L0\<close> to \<open>L9\<close>: the argument of \<open>A\<close> and the steps behind it.\<close>

definition steps_of :: "nat \<Rightarrow> emit_step list" where
  "steps_of n =
     (if n = 2 then [DoD 0, DoQ 2]
      else if n = 3 then [DoD 0, DoE, DoD 2]
      else if n = 4 then [DoD 0, DoE, DoD 2, DoQ 4]
      else if n = 5 then [DoD 0, DoE, DoD 2, DoE, DoD 4]
      else if n = 6 then [DoD 0, DoE, DoD 2, DoE, DoD 4, DoQ 6]
      else if n = 7 then [DoD 0, DoE, DoD 2, DoE, DoD 4, DoE, DoD 6]
      else if n = 8 then [DoD 0, DoE, DoD 2, DoE, DoD 4, DoE, DoD 6, DoQ 8]
      else [DoD 0, DoE, DoD 2, DoE, DoD 4, DoE, DoD 6, DoE, DoD 8])"

definition L :: "nat \<Rightarrow> u32 \<Rightarrow> nat \<Rightarrow> mem \<Rightarrow> fault + mem" where
  "L n u b m =
     (if n = 0 then Inr (m(b := char_plus (char_of (unat u)) 48))
      else if n = 1 then W 0 (ucast u) b m
      else run_steps (steps_of n) (A (n - 1) u) b m)"

text \<open>\<open>LG\<close> selects by the number of digits, \<open>LN\<close> moves \<open>b\<close> on, \<open>LZ\<close> stores the terminator.\<close>

definition LG :: "(nat \<Rightarrow> 'a) \<Rightarrow> u32 \<Rightarrow> 'a" where
  "LG F u =
     (if u < 100 then (if u < 10 then F 0 else F 1)
      else if u < 1000000 then
        (if u < 10000 then (if u < 1000 then F 2 else F 3)
         else (if u < 100000 then F 4 else F 5))
      else if u < 100000000 then (if u < 10000000 then F 6 else F 7)
      else (if u < 1000000000 then F 8 else F 9))"

definition LN :: "(nat \<Rightarrow> u32 \<Rightarrow> nat \<Rightarrow> mem \<Rightarrow> fault + mem) \<Rightarrow>
    u32 \<Rightarrow> nat \<Rightarrow> mem \<Rightarrow> nat \<Rightarrow> fault + (mem \<times> nat)" where
  "LN emit u b m N = bind_fault (emit N u b m) (\<lambda>m'. Inr (m', b + N + 1))"

definition LZ :: "(nat \<Rightarrow> u32 \<Rightarrow> nat \<Rightarrow> mem \<Rightarrow> fault + mem) \<Rightarrow>
    u32 \<Rightarrow> nat \<Rightarrow> mem \<Rightarrow> nat \<Rightarrow> fault + mem" where
  "LZ emit u b m N = bind_fault (emit N u b m) (\<lambda>m'. Inr (m'(b + N + 1 := nul)))"

section \<open>The routines\<close>

definition u32toa_jeaiii :: "u32 \<Rightarrow> nat \<Rightarrow> mem \<Rightarrow> fault + mem" where
  "u32toa_jeaiii u b m = LG (LZ L u b m) u"

definition i32toa_jeaiii :: "s32 \<Rightarrow> nat \<Rightarrow> mem \<Rightarrow> fault + mem" where
  "i32toa_jeaiii i b m =
     (let (u, b, m) = (if sint i < 0 then (0 - i, b + 1, m(b := CHR ''-'')) else (i, b, m))
      in LG (LZ L u b m) u)"

definition u64toa_jeaiii :: "u64 \<Rightarrow> nat \<Rightarrow> mem \<Rightarrow> fault + mem" where
  "u64toa_jeaiii n b m =
     (if (ucast (drop_bit 32 n) :: u32) = 0 then (let u = ucast n in LG (LZ L u b m) u)
      else
        (let a = n div 100000000 in
         bind_fault
           (if (ucast (drop_bit 32 a) :: u32) = 0 then (let u = ucast a in LG (LN L u b m) u)
            else
              (let u = ucast (a div 100000000) in
               bind_fault (LG (LN L u b m) u) (\<lambda>(m', b').
               (let u = ucast (a mod 100000000) in LN L u b' m' 7))))
           (\<lambda>(m', b'). let u = ucast (n mod 100000000) in LZ L u b' m' 7)))"

definition i64toa_jeaiii :: "s64 \<Rightarrow> nat \<Rightarrow> mem \<Rightarrow> fault + mem" where
  "i64toa_jeaiii i b m =
     (let (n, b, m) = (if sint i < 0 then (0 - i, b + 1, m(b := CHR ''-'')) else (i, b, m))
      in u64toa_jeaiii n b m)"

section \<open>Text in memory\<close>

primrec write_text :: "mem \<Rightarrow> nat \<Rightarrow> string \<Rightarrow> mem" where
  "write_text m b [] = m"
| "write_text m b (c # cs) = write_text (m(b := c)) (b + 1) cs"

lemma write_text_append: "write_text m b (xs @ ys) = write_text (write_text m b xs) (b + length xs) ys"
  by (induction xs arbitrary: m b) auto

lemma write_text_apply:
  "write_text m b s i = (if b \<le> i \<and> i < b + length s then s ! (i - b) else m i)"
  by (induction s arbitrary: m b) (auto simp: nth_Cons')

section \<open>The steps\<close>

definition fixed_point :: "u64 \<Rightarrow> nat \<Rightarrow> nat \<Rightarrow> bool" where
  "fixed_point t v K \<longleftrightarrow>
     v * 2 ^ 32 \<le> unat t * 10 ^ K \<and> unat t * 10 ^ K < (v + 1) * 2 ^ 32"

lemma table_text:
  "map (\<lambda>s. (code_of (s ! 0), code_of (s ! 1))) s_100s_text =
   map (\<lambda>i. (48 + i mod 10, 48 + i div 10)) [0..<100]"
proof -
  have "[0..<100] = 0 # 1 # [2..<100]"
    by (simp add: upt_conv_Cons numeral_2_eq_2)
  then show ?thesis
    by (simp add: s_100s_text_def code_of_def upt_rec_numeral)
qed

lemma length_table [simp]: "length s_100s = 100" "length s_100s_text = 100"
  by (simp_all add: s_100s_def s_100s_text_def)

lemma table_entry:
  assumes "i < 100"
  shows "unat (s_100s ! i) = (48 + i mod 10) * 256 + (48 + i div 10)"
proof -
  have "map (\<lambda>s. (code_of (s ! 0), code_of (s ! 1))) s_100s_text ! i =
    (48 + i mod 10, 48 + i div 10)"
    unfolding table_text using assms by simp
  then have "s_100s ! i = of_nat ((48 + i mod 10) * 256 + (48 + i div 10))"
    using assms by (simp add: s_100s_def multichar_def)
  moreover have "(48 + i mod 10) * 256 + (48 + i div 10) < 2 ^ 16"
    using assms by simp
  ultimately show ?thesis
    by (simp only: unat_of_nat) (simp add: take_bit_nat_eq_self)
qed

lemma byte_pair:
  fixes y :: nat
  assumes "y < 256"
  shows "(x * 256 + y) mod 256 = y" "(x * 256 + y) div 256 = x"
  using assms by simp_all

lemma W_writes:
  assumes "unat I < 100"
  shows "W N I b m = Inr (write_text m (b + N) (pad_dec 2 (unat I)))"
proof -
  have *: "unat (s_100s ! unat I) mod 256 = 48 + unat I div 10"
    "unat (s_100s ! unat I) div 256 = 48 + unat I mod 10"
    unfolding table_entry[OF assms] using assms by (intro byte_pair, simp)+
  have "char_of (unat (s_100s ! unat I)) = (char_of (unat (s_100s ! unat I) mod 256) :: char)"
    by simp
  then have "char_of (unat (s_100s ! unat I)) = digit_char (unat I div 10)"
    by (simp only: * digit_char_def)
  moreover have "pad_dec 2 (unat I) = [digit_char (unat I div 10), digit_char (unat I mod 10)]"
    using assms by (simp add: numeral_2_eq_2)
  ultimately show ?thesis
    using assms * by (simp add: W_def Let_def) (simp add: digit_char_def)
qed

lemma unat_high: "unat (drop_bit 32 (t :: u64)) = unat t div 2 ^ 32"
  by (simp add: drop_bit_eq_div unat_div)

lemma unat_low: "unat (ucast (ucast (t :: u64) :: u32) :: u64) = unat t mod 2 ^ 32"
  by (simp add: unsigned_ucast_eq take_bit_eq_mod unat_mod)

lemma fixed_point_high:
  assumes "fixed_point t v K"
  shows "unat (drop_bit 32 t) = v div 10 ^ K"
proof -
  let ?q = "unat t div 2 ^ 32"
  have "?q * 10 ^ K * 2 ^ 32 \<le> unat t * 10 ^ K"
    using div_times_less_eq_dividend[of "unat t" "2 ^ 32"] by (simp add: mult.commute mult.left_commute)
  with assms have "?q * 10 ^ K * 2 ^ 32 < (v + 1) * 2 ^ 32"
    unfolding fixed_point_def by (elim conjE) (rule le_less_trans)
  then have "?q * 10 ^ K < v + 1" by simp
  then have "?q * 10 ^ K \<le> v" by simp
  then have le: "?q \<le> v div 10 ^ K" by (simp add: less_eq_div_iff_mult_less_eq)
  have "v div 10 ^ K * 2 ^ 32 * 10 ^ K \<le> v * 2 ^ 32"
    using div_times_less_eq_dividend[of v "10 ^ K"] by (simp add: mult.commute mult.left_commute)
  with assms have "v div 10 ^ K * 2 ^ 32 * 10 ^ K \<le> unat t * 10 ^ K"
    unfolding fixed_point_def by (elim conjE) (rule order_trans)
  then have "v div 10 ^ K * 2 ^ 32 \<le> unat t" by simp
  then have "v div 10 ^ K \<le> ?q" by (simp add: less_eq_div_iff_mult_less_eq)
  with le show ?thesis by (simp add: unat_high)
qed

text \<open>The fractional part times \<open>10 ^ j\<close> is the fixed-point number of the digits that are left.\<close>

lemma fixed_point_frac:
  assumes "fixed_point t v (K + j)" "j \<le> 2" "unat t' = 10 ^ j * (unat t mod 2 ^ 32)"
  shows "fixed_point t' (v mod 10 ^ (K + j)) K"
proof -
  define q where "q = unat t div 2 ^ 32"
  define B where "B = (10 :: nat) ^ (K + j)"
  have t: "unat t = q * 2 ^ 32 + unat t mod 2 ^ 32" by (simp add: q_def)
  have q: "q = v div B"
    using fixed_point_high[OF assms(1)] by (simp add: q_def B_def unat_high)
  have v: "v = q * B + v mod B" by (simp add: q)
  have t': "unat t' * 10 ^ K = (unat t mod 2 ^ 32) * B"
    by (simp add: assms(3) B_def power_add mult.commute mult.left_commute)
  have tB: "unat t * B = q * B * 2 ^ 32 + (unat t mod 2 ^ 32) * B"
    by (subst t) (simp add: algebra_simps)
  have "v * 2 ^ 32 \<le> unat t * B" "unat t * B < (v + 1) * 2 ^ 32"
    using assms(1) by (simp_all add: fixed_point_def B_def)
  moreover have "v * 2 ^ 32 = q * B * 2 ^ 32 + (v mod B) * 2 ^ 32"
    by (subst v) (simp add: algebra_simps)
  ultimately have "(v mod B) * 2 ^ 32 \<le> (unat t mod 2 ^ 32) * B"
    "(unat t mod 2 ^ 32) * B < (v mod B + 1) * 2 ^ 32"
    using tB by simp_all
  then show ?thesis
    by (simp add: fixed_point_def t' flip: B_def)
qed

lemma unat_E: "unat (E t) = 10 ^ 2 * (unat t mod 2 ^ 32)"
proof -
  have "unat t mod 2 ^ 32 < 2 ^ 32" by simp
  then have "100 * (unat t mod 2 ^ 32) < 2 ^ 64" by simp
  then show ?thesis
    by (simp add: E_def unat_word_ariths unat_low)
qed

lemma unat_Q: "unat (10 * ucast (ucast (t :: u64) :: u32) :: u64) = 10 ^ 1 * (unat t mod 2 ^ 32)"
proof -
  have "unat t mod 2 ^ 32 < 2 ^ 32" by simp
  then have "10 * (unat t mod 2 ^ 32) < 2 ^ 64" by simp
  then show ?thesis
    by (simp add: unat_word_ariths unat_low)
qed

lemma Q_writes:
  assumes "fixed_point t v 1"
  shows "Q N t b m = write_text m (b + N) (pad_dec 1 (v mod 10))"
proof -
  let ?t = "10 * ucast (ucast t :: u32) :: u64"
  have "fixed_point ?t (v mod 10) 0"
    using fixed_point_frac[of t v 0 1 ?t] assms by (simp add: unat_Q)
  from fixed_point_high[OF this] have "unat (drop_bit 32 ?t) = v mod 10" by simp
  then show ?thesis
    by (simp add: Q_def char_plus_def digit_char_def add.commute)
qed

lemma D_writes:
  assumes "fixed_point t v K" "v < 10 ^ (K + 2)"
  shows "W N (drop_bit 32 t) b m = Inr (write_text m (b + N) (pad_dec 2 (v div 10 ^ K)))"
proof -
  have "v div 10 ^ K < 100"
    using assms(2) by (simp add: less_mult_imp_div_less power_add mult.commute)
  then show ?thesis
    using W_writes[of "drop_bit 32 t"] by (simp add: fixed_point_high[OF assms(1)])
qed

text \<open>The steps behind the first pair, for \<open>K\<close> more digits.\<close>

fun tail_steps :: "nat \<Rightarrow> nat \<Rightarrow> emit_step list" where
  "tail_steps N 0 = []"
| "tail_steps N (Suc 0) = [DoQ N]"
| "tail_steps N (Suc (Suc K)) = DoE # DoD N # tail_steps (N + 2) K"

lemma tail_steps_write:
  "fixed_point t v K \<Longrightarrow>
   run_steps (tail_steps N K) t b m = Inr (write_text m (b + N) (pad_dec K (v mod 10 ^ K)))"
proof (induction N K arbitrary: t v m rule: tail_steps.induct)
  case (2 N)
  then show ?case using Q_writes[of t v N b m] by (simp add: fun_eq_iff)
next
  case (3 N K)
  let ?w = "v mod 10 ^ Suc (Suc K)"
  have fp: "fixed_point (E t) ?w K"
    using fixed_point_frac[of t v K 2 "E t"] 3(2) by (simp add: unat_E)
  have "?w < 10 ^ (K + 2)" by (simp add: mod_less_divisor)
  from D_writes[OF fp this, of N b m]
  have first: "run_steps (tail_steps N (Suc (Suc K))) t b m =
    run_steps (tail_steps (N + 2) K) (E t) b (write_text m (b + N) (pad_dec 2 (?w div 10 ^ K)))"
    by simp
  have split: "pad_dec (Suc (Suc K)) ?w = pad_dec 2 (?w div 10 ^ K) @ pad_dec K (?w mod 10 ^ K)"
    using pad_dec_add[of 2 K ?w] by (metis add_2_eq_Suc)
  show ?case
    by (simp only: first 3(1)[OF fp] split write_text_append length_pad_dec add.assoc)
qed simp

section \<open>The digit emitters\<close>

lemma small_cases: "N \<in> {1..8 :: nat} \<Longrightarrow>
  N = 1 \<or> N = 2 \<or> N = 3 \<or> N = 4 \<or> N = 5 \<or> N = 6 \<or> N = 7 \<or> N = 8"
  by auto

lemma A_eq:
  assumes "N \<in> {1..8}" "unat u < 10 ^ (N + 2)"
  shows "unat (A N u) =
    (2 ^ (32 + shift_of N) div 10 ^ N + 1) * unat u div 2 ^ shift_of N + N div 5 * 4"
proof -
  have "unat u < 2 ^ 32" using unsigned_less[of u] by simp
  with assms(2) small_cases[OF assms(1)] show ?thesis
    by (elim disjE) (simp_all add: A_def shift_of_def Let_def unat_word_ariths
        drop_bit_eq_div unsigned_ucast_eq take_bit_eq_mod unat_div push_bit_eq_mult)
qed

lemma A_fixed_point:
  assumes "N \<in> {1..8}" "unat u < 10 ^ (N + 2)"
  shows "fixed_point (A N u) (unat u) N"
proof -
  let ?S = "2 ^ shift_of N :: nat" and ?C = "2 ^ (32 + shift_of N) div 10 ^ N + 1 :: nat"
  define q where "q = ?C * unat u div ?S"
  have q: "q * ?S \<le> ?C * unat u" "?C * unat u < q * ?S + ?S"
    using div_times_less_eq_dividend[of "?C * unat u" ?S]
      dividend_less_div_times[of ?S "?C * unat u"] by (simp_all add: q_def)
  have "unat u < 2 ^ 32" using unsigned_less[of u] by simp
  with assms(2) q small_cases[OF assms(1)] show ?thesis
    unfolding fixed_point_def A_eq[OF assms] q_def[symmetric]
    by (elim disjE) (simp_all add: shift_of_def)
qed

lemma steps_of_eq: "n \<in> {2..9} \<Longrightarrow> steps_of n = DoD 0 # tail_steps 2 (n - 1)"
proof -
  assume "n \<in> {2..9}"
  then have "n = 2 \<or> n = 3 \<or> n = 4 \<or> n = 5 \<or> n = 6 \<or> n = 7 \<or> n = 8 \<or> n = 9"
    by auto
  then show ?thesis
    by (elim disjE) (simp_all add: steps_of_def eval_nat_numeral)
qed

lemma L_writes:
  assumes "n \<le> 9" "unat u < 10 ^ Suc n"
  shows "L n u b m = Inr (write_text m b (pad_dec (Suc n) (unat u)))"
proof (cases "n \<ge> 2")
  case True
  then obtain N where n: "n = Suc N" and N: "N \<in> {1..8}"
    using assms(1) by (cases n) auto
  have fp: "fixed_point (A N u) (unat u) N"
    using A_fixed_point[OF N] assms(2) n by simp
  have "L n u b m = run_steps (DoD 0 # tail_steps 2 N) (A N u) b m"
    using True assms(1) steps_of_eq[of n] n by (simp add: L_def)
  also have "\<dots> = run_steps (tail_steps 2 N) (A N u) b
      (write_text m b (pad_dec 2 (unat u div 10 ^ N)))"
    using D_writes[OF fp, of 0 b m] assms(2) n by simp
  also have "\<dots> = Inr (write_text m b (pad_dec 2 (unat u div 10 ^ N) @ pad_dec N (unat u mod 10 ^ N)))"
    by (simp add: tail_steps_write[OF fp] write_text_append)
  finally show ?thesis
    using pad_dec_add[of 2 N "unat u"] n by simp
next
  case False
  then consider "n = 0" | "n = 1" by linarith
  then show ?thesis
  proof cases
    case 1
    with assms(2) show ?thesis
      by (simp add: L_def char_plus_def digit_char_def add.commute)
  next
    case 2
    with assms(2) have "unat (ucast u :: u64) = unat u"
      by (simp add: unsigned_ucast_eq take_bit_nat_eq_self order_less_trans[OF assms(2)])
    with 2 assms(2) W_writes[of "ucast u" 0 b m] show ?thesis
      by (simp add: L_def numeral_2_eq_2)
  qed
qed

section \<open>The interface of the digit emitters\<close>

text \<open>\<open>emit n\<close> writes \<open>n + 1\<close> digits; the selection macros and the routines rest on that alone.\<close>

lemma LG_cases:
  obtains n where "n \<le> 9" "unat u < 10 ^ Suc n" "dec (unat u) = pad_dec (Suc n) (unat u)"
    "\<And>F. LG F u = F n"
proof -
  define n :: nat where "n = LG (\<lambda>n. n) u"
  have u: "unat u < 2 ^ 32" using unsigned_less[of u] by simp
  have eq: "LG F u = F n" for F :: "nat \<Rightarrow> 'z"
    by (simp add: LG_def n_def)
  have "n \<le> 9 \<and> unat u < 10 ^ Suc n \<and> (n = 0 \<or> 10 ^ n \<le> unat u)"
    using u by (auto simp: n_def LG_def word_less_nat_alt)
  with dec_pad that eq show thesis by (metis LG_def)
qed

locale digit_emitter =
  fixes emit :: "nat \<Rightarrow> u32 \<Rightarrow> nat \<Rightarrow> mem \<Rightarrow> fault + mem"
  assumes emit_digits:
    "n \<le> 9 \<Longrightarrow> unat u < 10 ^ Suc n \<Longrightarrow>
     emit n u b m = Inr (write_text m b (pad_dec (Suc n) (unat u)))"
begin

lemma LZ_writes:
  "n \<le> 9 \<Longrightarrow> unat u < 10 ^ Suc n \<Longrightarrow>
   LZ emit u b m n = Inr (write_text m b (pad_dec (Suc n) (unat u) @ [nul]))"
  by (simp add: LZ_def emit_digits write_text_append del: pad_dec.simps)

lemma LN_writes:
  "n \<le> 9 \<Longrightarrow> unat u < 10 ^ Suc n \<Longrightarrow>
   LN emit u b m n = Inr (write_text m b (pad_dec (Suc n) (unat u)), b + Suc n)"
  by (simp add: LN_def emit_digits del: pad_dec.simps)

lemma LG_LZ: "LG (LZ emit u b m) u = Inr (write_text m b (dec (unat u) @ [nul]))"
proof (rule LG_cases[of u])
  fix n
  assume n: "n \<le> 9" "unat u < 10 ^ Suc n" "dec (unat u) = pad_dec (Suc n) (unat u)"
    "\<And>F :: nat \<Rightarrow> fault + mem. LG F u = F n"
  show ?thesis by (simp only: n(3,4) LZ_writes[OF n(1,2)])
qed

lemma LG_LN:
  "LG (LN emit u b m) u = Inr (write_text m b (dec (unat u)), b + length (dec (unat u)))"
proof (rule LG_cases[of u])
  fix n
  assume n: "n \<le> 9" "unat u < 10 ^ Suc n" "dec (unat u) = pad_dec (Suc n) (unat u)"
    "\<And>F :: nat \<Rightarrow> fault + (mem \<times> nat). LG F u = F n"
  show ?thesis by (simp only: n(3,4) LN_writes[OF n(1,2)] length_pad_dec)
qed

end

interpretation digits: digit_emitter L
  by unfold_locales (rule L_writes)

section \<open>Correctness of the routines\<close>

text \<open>
  C7. \<open>u32toa_jeaiii\<close> never reads outside its table and, for every 32-bit value, writes exactly
  the decimal text and its terminator at \<open>b\<close>; every other byte keeps its value.
\<close>
theorem u32toa_writes_decimal:
  "u32toa_jeaiii u b m = Inr (write_text m b (dec (unat u) @ [nul]))"
  by (simp add: u32toa_jeaiii_def digits.LG_LZ)

text \<open>
  \<open>i32toa_jeaiii\<close> writes the signed decimal text and its terminator for every 32-bit value,
  the most negative one (whose negation wraps) included.
\<close>
theorem i32toa_writes_decimal:
  "i32toa_jeaiii i b m = Inr (write_text m b (dec_int (sint i) @ [nul]))"
  by (simp add: i32toa_jeaiii_def digits.LG_LZ dec_int_def unat_minus_negative unat_nonnegative)

lemma high_word_zero: "(ucast (drop_bit 32 (n :: u64)) :: u32) = 0 \<longleftrightarrow> unat n < 2 ^ 32"
proof -
  have "unat n < 2 ^ 64" using unsigned_less[of n] by simp
  then have "unat n div 2 ^ 32 < 2 ^ 32" by (simp add: less_mult_imp_div_less)
  then have "unat (ucast (drop_bit 32 n) :: u32) = unat n div 2 ^ 32"
    by (simp add: unsigned_ucast_eq take_bit_nat_eq_self unat_high)
  then show ?thesis
    by (metis div_eq_0_iff unat_0 unat_eq_zero zero_less_numeral zero_less_power less_irrefl)
qed

lemma unat_low_word: "unat n < 2 ^ 32 \<Longrightarrow> unat (ucast (n :: u64) :: u32) = unat n"
  by (simp add: unsigned_ucast_eq take_bit_nat_eq_self)

lemma u64toa_text: "u64toa_jeaiii n b m = Inr (write_text m b (dec (unat n) @ [nul]))"
proof (cases "unat n < 2 ^ 32")
  case True
  then show ?thesis
    by (simp add: u64toa_jeaiii_def high_word_zero digits.LG_LZ unat_low_word Let_def)
next
  case False
  define a where "a = n div 100000000"
  have a: "unat a = unat n div 10 ^ 8" by (simp add: a_def unat_div)
  have n64: "unat n < 2 ^ 64" using unsigned_less[of n] by simp
  have low: "unat (ucast (k mod 100000000 :: u64) :: u32) = unat k mod 10 ^ 8" for k
    by (subst unat_low_word) (simp_all add: unat_mod order_less_trans[OF mod_less_divisor])
  have last: "LZ L (ucast (n mod 100000000)) b' m' 7 =
      Inr (write_text m' b' (pad_dec 8 (unat n mod 10 ^ 8) @ [nul]))" for b' m'
    using digits.LZ_writes[of 7 "ucast (n mod 100000000)" b' m'] low[of n] by simp
  have n_eq: "dec (unat n) = dec (unat a) @ pad_dec 8 (unat n mod 10 ^ 8)"
    unfolding a by (rule dec_split) (use False in simp)
  show ?thesis
  proof (cases "unat a < 2 ^ 32")
    case True
    then show ?thesis
      using False by (simp add: u64toa_jeaiii_def high_word_zero digits.LG_LN unat_low_word Let_def
          last n_eq write_text_append flip: a_def)
  next
    case far: False
    have top: "unat (ucast (a div 100000000) :: u32) = unat a div 10 ^ 8"
      using n64 by (subst unat_low_word) (simp_all add: unat_div a)
    have mid: "LN L (ucast (a mod 100000000)) b' m' 7 =
        Inr (write_text m' b' (pad_dec 8 (unat a mod 10 ^ 8)), b' + 8)" for b' m'
      using digits.LN_writes[of 7 "ucast (a mod 100000000)" b' m'] low[of a] by simp
    have a_eq: "dec (unat a) = dec (unat a div 10 ^ 8) @ pad_dec 8 (unat a mod 10 ^ 8)"
      by (rule dec_split) (use far in simp)
    show ?thesis
      using False far by (simp add: u64toa_jeaiii_def high_word_zero digits.LG_LN top mid Let_def
          last n_eq a_eq write_text_append add.assoc flip: a_def)
  qed
qed

text \<open>
  C6. \<open>u64toa_jeaiii\<close> writes the decimal text of every 64-bit value and its terminator: the
  blocks of eight digits behind the first one keep their leading zeros.
\<close>
theorem u64toa_writes_decimal:
  "u64toa_jeaiii n b m = Inr (write_text m b (dec (unat n) @ [nul]))"
  by (rule u64toa_text)

text \<open>\<open>i64toa_jeaiii\<close> writes the signed decimal text of every 64-bit value.\<close>
theorem i64toa_writes_decimal:
  "i64toa_jeaiii i b m = Inr (write_text m b (dec_int (sint i) @ [nul]))"
  by (simp add: i64toa_jeaiii_def u64toa_text dec_int_def unat_minus_negative unat_nonnegative)

end
