(* ===== verification/GeneratedKeys.thy ===== *)
theory GeneratedKeys
  imports Faults
begin

text \<open>
  The JSON keys in the generated C++ text: those \<open>serializeTo\<close> writes with \<open>AddMember\<close>, those
  \<open>deserializeFrom\<close> looks up with \<open>FindMember\<close>, and the names \<open>isMember\<close> tests. They are read off
  the text of the emitted lines, so the lemmas relate the three emitters through what they print.
\<close>

section \<open>Reading a key off a line\<close>

abbreviation dquote :: char where
  "dquote \<equiv> CHR 0x22"

text \<open>The quoted text behind \<open>lead\<close> at the start of a line (blanks aside), if the line has it.\<close>

definition key_of :: "string \<Rightarrow> string \<Rightarrow> string option" where
  "key_of lead t =
     (let l = dropWhile (\<lambda>c. c = CHR '' '') t
      in if prefix lead l then Some (takeWhile (\<lambda>c. c \<noteq> dquote) (drop (length lead) l)) else None)"

fun keys :: "string \<Rightarrow> code \<Rightarrow> string list" where
  "keys lead [] = []"
| "keys lead (PrintCode n t # cs) =
     (case key_of lead t of None \<Rightarrow> keys lead cs | Some k \<Rightarrow> k # keys lead cs)"
| "keys lead (Abort e # cs) = keys lead cs"

definition add_lead :: string where
  "add_lead = ''d.AddMember('' @ [dquote]"

definition find_lead :: string where
  "find_lead = ''auto found = d.FindMember('' @ [dquote]"

text \<open>Text without quotes, short enough for the buffers of the emitters.\<close>

definition plain_name :: "string \<Rightarrow> bool" where
  "plain_name s \<longleftrightarrow> dquote \<notin> set s \<and> length s < 512"

lemma keys_append [simp]: "keys lead (xs @ ys) = keys lead xs @ keys lead ys"
  by (induction xs rule: keys.induct[of _ lead]) (auto split: option.split)

lemma keys_concat: "keys lead (concat xss) = concat (map (keys lead) xss)"
  by (induction xss) simp_all

lemma keys_pc [simp]:
  "keys lead (pc n f as # cs) =
     (case key_of lead (snprintf 4096 f as) of None \<Rightarrow> keys lead cs | Some k \<Rightarrow> k # keys lead cs)"
  by (simp add: pc_def)

lemma key_of_quoteless:
  assumes "dquote \<in> set lead" "dquote \<notin> set t"
  shows "key_of lead t = None"
proof -
  have "\<not> prefix lead (dropWhile (\<lambda>c. c = CHR '' '') t)"
    using assms by (metis set_dropWhileD set_mono_prefix subsetD)
  then show ?thesis by (simp add: key_of_def)
qed

lemma set_vformat:
  "x \<in> set (vformat f as) \<Longrightarrow> x \<in> set f \<or> (\<exists>a \<in> set as. x \<in> set (arg_text a))"
  by (induction f as rule: vformat.induct) (auto split: list.splits if_splits)

lemma quoteless_snprintf:
  "dquote \<notin> set f \<Longrightarrow> \<forall>a \<in> set as. dquote \<notin> set (arg_text a) \<Longrightarrow> dquote \<notin> set (snprintf n f as)"
  using set_vformat[of dquote f as] by (auto simp: snprintf_def dest!: in_set_takeD)

lemma key_of_plain [simp]:
  "dquote \<in> set lead \<Longrightarrow> dquote \<notin> set f \<Longrightarrow> \<forall>a \<in> set as. dquote \<notin> set (arg_text a) \<Longrightarrow>
   key_of lead (snprintf n f as) = None"
  by (simp add: key_of_quoteless quoteless_snprintf)

lemma lf_keys [simp]: "keys add_lead (lf # cs) = keys add_lead cs"
  "keys find_lead (lf # cs) = keys find_lead cs"
  by (simp_all add: lf_def key_of_def lf_char_def add_lead_def find_lead_def)

lemma takeWhile_name:
  assumes "dquote \<notin> set m" "length m < k"
  shows "takeWhile (\<lambda>c. c \<noteq> dquote) (take k (m @ dquote # r)) = m"
proof -
  have "takeWhile (\<lambda>c. c \<noteq> dquote) (m @ dquote # r) = m" for r
    using assms(1) by (induction m) auto
  moreover obtain j where "k = length m + Suc j" using assms(2) less_imp_Suc_add by fastforce
  ultimately show ?thesis by simp
qed

lemma quoted_line:
  assumes "plain_name m" "t = take k (lead @ m @ dquote # r)" "length lead + 512 < k"
    "lead \<noteq> []" "hd lead \<noteq> CHR '' ''"
  shows "key_of lead t = Some m"
proof -
  have t: "t = lead @ take (k - length lead) (m @ dquote # r)"
    using assms(2,3) by simp
  then have "dropWhile (\<lambda>c. c = CHR '' '') t = t" using assms(4,5) by (cases lead) auto
  moreover have "prefix lead t" "drop (length lead) t = take (k - length lead) (m @ dquote # r)"
    by (simp_all add: t)
  moreover have "length m < k - length lead" "dquote \<notin> set m"
    using assms(1,3) by (auto simp: plain_name_def)
  ultimately show ?thesis
    unfolding key_of_def Let_def by (simp add: takeWhile_name del: take_append)
qed

lemma vformat_lead:
  "CHR ''%'' \<notin> set lead \<Longrightarrow> f \<noteq> [] \<Longrightarrow> vformat (lead @ f) as = lead @ vformat f as"
proof (induction lead)
  case (Cons c lead)
  then obtain d r where "lead @ f = d # r" by (cases "lead @ f") auto
  moreover have "c \<noteq> CHR ''%''" using Cons.prems(1) by auto
  ultimately have "vformat (c # (lead @ f)) as = c # vformat (lead @ f) as" by simp
  with Cons show ?case by simp
qed simp

lemma vformat_blank: "vformat (CHR '' '' # f) as = CHR '' '' # vformat f as"
  by (cases f) simp_all

lemma snprintf_blank: "1 < n \<Longrightarrow> snprintf n (CHR '' '' # f) as = CHR '' '' # snprintf (n - 1) f as"
  by (simp add: snprintf_def vformat_blank take_Cons')

lemma key_of_blank: "key_of lead (CHR '' '' # t) = key_of lead t"
  by (simp add: key_of_def)

lemma key_of_format:
  assumes "plain_name m" "prefix (lead @ ''%s'' @ [dquote]) f"
    "length lead + 600 < n" "lead \<noteq> []" "hd lead \<noteq> CHR '' ''" "CHR ''%'' \<notin> set lead"
  shows "key_of lead (snprintf n f (S m # as)) = Some m"
proof -
  obtain r where f: "f = lead @ ''%s'' @ dquote # r"
    using assms(2) by (auto elim: prefixE)
  have "vformat f (S m # as) = lead @ vformat (CHR ''%'' # CHR ''s'' # dquote # r) (S m # as)"
    using vformat_lead[OF assms(6), of "CHR ''%'' # CHR ''s'' # dquote # r" "S m # as"]
    by (simp add: f)
  also have "\<dots> = lead @ m @ vformat (dquote # r) as" by simp
  also have "vformat (dquote # r) as = dquote # vformat r as"
    by (cases r) simp_all
  finally show ?thesis
    using assms(3) by (intro quoted_line[where k = "n - 1" and r = "vformat r as", OF assms(1) _ _ assms(4,5)])
      (auto simp: snprintf_def)
qed

lemma lead_facts [simp]:
  "length add_lead + 600 < 4092" "length find_lead + 600 < 4096" "add_lead \<noteq> []" "find_lead \<noteq> []"
  "hd add_lead \<noteq> CHR '' ''" "hd find_lead \<noteq> CHR '' ''" "CHR ''%'' \<notin> set add_lead"
  "CHR ''%'' \<notin> set find_lead" "dquote \<in> set add_lead" "dquote \<in> set find_lead"
  "length add_lead + 600 < 4096"
  by (simp_all add: add_lead_def find_lead_def)

lemma key_formats [simp]:
  \<open>plain_name m \<Longrightarrow> prefix ''d.AddMember("%s"'' f \<Longrightarrow>
     key_of add_lead (snprintf 4096 f (S m # as)) = Some m\<close>
  \<open>plain_name m \<Longrightarrow> prefix ''    d.AddMember("%s"'' f \<Longrightarrow>
     key_of add_lead (snprintf 4096 f (S m # as)) = Some m\<close>
  \<open>plain_name m \<Longrightarrow> prefix ''auto found = d.FindMember("%s"'' f \<Longrightarrow>
     key_of find_lead (snprintf 4096 f (S m # as)) = Some m\<close>
proof -
  assume m: "plain_name m"
  show \<open>prefix ''d.AddMember("%s"'' f \<Longrightarrow> key_of add_lead (snprintf 4096 f (S m # as)) = Some m\<close>
    by (rule key_of_format[OF m]) (simp_all add: add_lead_def)
  show \<open>prefix ''auto found = d.FindMember("%s"'' f \<Longrightarrow>
      key_of find_lead (snprintf 4096 f (S m # as)) = Some m\<close>
    by (rule key_of_format[OF m]) (simp_all add: find_lead_def)
  show \<open>prefix ''    d.AddMember("%s"'' f \<Longrightarrow> key_of add_lead (snprintf 4096 f (S m # as)) = Some m\<close>
  proof -
    assume \<open>prefix ''    d.AddMember("%s"'' f\<close>
    then obtain g where f: \<open>f = CHR '' '' # CHR '' '' # CHR '' '' # CHR '' '' # g\<close>
      \<open>prefix ''d.AddMember("%s"'' g\<close>
      by (auto elim!: prefixE)
    have "key_of add_lead (snprintf 4092 g (S m # as)) = Some m"
      using f(2) by (intro key_of_format[OF m]) (simp_all add: add_lead_def)
    then show ?thesis by (simp add: f(1) snprintf_blank key_of_blank)
  qed
qed

section \<open>One member\<close>

definition plain_member :: "MemberVariable \<Rightarrow> bool" where
  "plain_member i \<longleftrightarrow> plain_name (mMember i) \<and> plain_name (mType i)"

lemma plain_noquote [simp]: "plain_name s \<Longrightarrow> dquote \<notin> set s"
  by (simp add: plain_name_def)

lemma written_key:
  assumes "plain_member i" "known_type ce (mType i)"
  shows "keys add_lead (ser_member ce i) =
    (if own i \<and> \<not> (mIsMap i \<and> mIsArray i) then [mMember i] else [])"
  using assms
  by (cases "ce (mType i)") (auto simp: ser_member_def ser_standard_def ser_string_def
      ser_named_array_def ser_enum_def ser_object_def own_def plain_member_def known_type_def)

lemma type_names_plain [simp]:
  "plain_name t \<Longrightarrow> dquote \<notin> set (getCppTypeString t b)"
  "dquote \<notin> set (case fst (deserializeTypeName st) of None \<Rightarrow> [] | Some g \<Rightarrow> g)"
  by (auto simp: getCppTypeString_def plain_name_def) (cases st; simp)

lemma accessor_plain: "deserializeTypeName st = (Some g, n) \<Longrightarrow> dquote \<notin> set g"
  by (cases st) auto

lemma check_names_plain: "check_names st = Some (c, g) \<Longrightarrow> dquote \<notin> set c \<and> dquote \<notin> set g"
  by (cases st) auto

lemma looked_up_standard:
  assumes "plain_member i" "getStandardType (mType i) \<noteq> st_none"
  shows "keys find_lead (deser_standard nonMapItems i) = (if mIsMap i then [] else [mMember i])"
proof -
  obtain g n where st: "deserializeTypeName (getStandardType (mType i)) = (Some g, n)"
    using assms(2) by (cases "getStandardType (mType i)") auto
  have "keys find_lead (deser_value (getStandardType (mType i)) n g i) = [mMember i]"
    using accessor_plain[OF st] check_names_plain[of "getStandardType (mType i)"] assms(1)
    by (auto simp: deser_value_def deser_numeric_array_def deser_numeric_def deser_checked_def
        plain_member_def split: option.split)
  moreover have "keys find_lead (deser_map n nonMapItems i) = []"
    using assms(1) by (simp add: deser_map_def plain_member_def)
  ultimately show ?thesis by (simp add: deser_standard_def st)
qed

lemma looked_up_named:
  assumes "plain_member i" "ce (mType i) \<noteq> None"
  shows "keys find_lead (deser_named ce i) = (if mIsMap i \<and> mIsArray i then [] else [mMember i])"
  using assms
  by (auto simp: deser_named_def deser_enum_map_def deser_array_def deser_enum_def deser_object_def
      plain_member_def)

lemma looked_up_key:
  assumes "plain_member i" "known_type ce (mType i)" "mIsMap i \<longrightarrow> mIsArray i"
  shows "keys find_lead (deser_member ce nonMapItems i) = (if own i \<and> \<not> mIsMap i then [mMember i] else [])"
proof (cases "getStandardType (mType i) = st_none")
  case True
  then have "ce (mType i) \<noteq> None" using assms(2) by (simp add: standard_none known_type_def)
  with True assms show ?thesis
    by (auto simp: deser_member_def own_def looked_up_named plain_member_def)
next
  case False
  moreover have "dquote \<notin> set (mMember i)" "dquote \<notin> set (mType i)"
    using assms(1) by (simp_all add: plain_member_def)
  ultimately show ?thesis
    using assms(1) by (simp add: deser_member_def own_def looked_up_standard)
qed

section \<open>One class\<close>

text \<open>
  A class whose names are plain, whose own members have known types, and whose maps are arrays:
  what \<open>generates\<close> asks for, object by object.
\<close>

definition plain_object :: "ClassEnumMap \<Rightarrow> Object \<Rightarrow> bool" where
  "plain_object ce ob \<longleftrightarrow>
     plain_name (mName ob) \<and> plain_name (mInheritsFromO ob) \<and>
     list_all (\<lambda>i. plain_member i \<and> (own i \<longrightarrow> known_type ce (mType i) \<and> (mIsMap i \<longrightarrow> mIsArray i)))
       (mItems ob)"

lemma non_map_filter: "non_map_items ob = map mMember (filter (\<lambda>i. own i \<and> \<not> mIsMap i) (mItems ob))"
  by (simp add: non_map_items_def own_def)

lemma concat_keys:
  "(\<And>i. i \<in> set xs \<Longrightarrow> f i = (if P i then [g i] else [])) \<Longrightarrow>
   concat (map f xs) = map g (filter P xs)"
  by (induction xs) auto

lemma written_keys:
  assumes "plain_object ce ob"
  shows "keys add_lead (saveSerialize_impl ce ob) = non_map_items ob"
proof -
  have "concat (map (keys add_lead \<circ> ser_member ce) (mItems ob)) = non_map_items ob"
    unfolding non_map_filter
  proof (rule concat_keys)
    fix i assume "i \<in> set (mItems ob)"
    with assms have "plain_member i" "own i \<longrightarrow> known_type ce (mType i) \<and> (mIsMap i \<longrightarrow> mIsArray i)"
      by (auto simp: plain_object_def list_all_iff)
    then show "(keys add_lead \<circ> ser_member ce) i =
        (if own i \<and> \<not> mIsMap i then [mMember i] else [])"
      using written_key[of i ce] by (cases "own i") (auto simp: ser_member_def own_def)
  qed
  then show ?thesis
    using assms by (simp add: saveSerialize_impl_def plain_object_def keys_concat comp_def)
qed

lemma looked_up_keys:
  assumes "plain_object ce ob"
  shows "keys find_lead (saveDeserialize_impl ce ob) = non_map_items ob"
proof -
  have "concat (map (keys find_lead \<circ> deser_member ce (non_map_items ob)) (mItems ob)) =
      non_map_items ob"
    unfolding non_map_filter[of ob]
  proof (rule concat_keys)
    fix i assume "i \<in> set (mItems ob)"
    with assms have "plain_member i" "own i \<longrightarrow> known_type ce (mType i) \<and> (mIsMap i \<longrightarrow> mIsArray i)"
      by (auto simp: plain_object_def list_all_iff)
    then show "(keys find_lead \<circ> deser_member ce
          (map mMember (filter (\<lambda>i. own i \<and> \<not> mIsMap i) (mItems ob)))) i =
        (if own i \<and> \<not> mIsMap i then [mMember i] else [])"
      using looked_up_key[of i ce] by (cases "own i") (auto simp: deser_member_def own_def)
  qed
  then show ?thesis
    using assms by (simp add: saveDeserialize_impl_def plain_object_def keys_concat comp_def)
qed

text \<open>
  C26. The two halves of the generated JSON code use the same keys: for a class with plain names and
  known member types, \<open>deserializeFrom\<close> looks up exactly the keys \<open>serializeTo\<close> writes, in the same
  order, and these are the names of the class's own members that are no maps.
\<close>
theorem json_keys_agree:
  assumes "plain_object ce ob"
  shows "keys find_lead (saveDeserialize_impl ce ob) = keys add_lead (saveSerialize_impl ce ob) \<and>
    keys add_lead (saveSerialize_impl ce ob) = non_map_items ob"
  using written_keys[OF assms] looked_up_keys[OF assms] by simp

definition demo_class :: Object where
  "demo_class = new_object\<lparr>mName := ''P'', mItems :=
     [new_member\<lparr>mMember := ''x'', mType := ''u32''\<rparr>,
      new_member\<lparr>mMember := ''tags'', mType := ''string'', mIsString := True, mIsMap := True,
        mIsArray := True, mMapType := ''string''\<rparr>,
      new_member\<lparr>mMember := ''kids'', mType := ''P'', mIsArray := True\<rparr>]\<rparr>"

lemma demo_class_plain: "plain_object [''P'' \<mapsto> False] demo_class"
  by (simp add: plain_object_def demo_class_def new_object_def new_member_def plain_member_def
      plain_name_def own_def known_type_def isStandardType_def) (rule exI[of _ False], simp)

theorem json_keys_agree_witness:
  "keys find_lead (saveDeserialize_impl [''P'' \<mapsto> False] demo_class) = [''x'', ''kids''] \<and>
   keys add_lead (saveSerialize_impl [''P'' \<mapsto> False] demo_class) = [''x'', ''kids'']"
proof -
  have "non_map_items demo_class = [''x'', ''kids'']"
    by (simp add: non_map_items_def demo_class_def new_object_def new_member_def)
  with json_keys_agree[OF demo_class_plain] show ?thesis by simp
qed

section \<open>The names \<open>isMember\<close> tests\<close>

definition test_lead :: string where
  "test_lead = ''strcmp(name,'' @ [dquote]"

definition if_test_lead :: string where
  "if_test_lead = ''if ( strcmp(name,'' @ [dquote]"

definition tested :: "code \<Rightarrow> string list" where
  "tested cs = keys if_test_lead cs @ keys test_lead cs"

lemma test_formats [simp]:
  \<open>plain_name m \<Longrightarrow> prefix ''strcmp(name,"%s"'' f \<Longrightarrow>
     key_of test_lead (snprintf 4096 f (S m # as)) = Some m\<close>
  \<open>plain_name m \<Longrightarrow> prefix ''if ( strcmp(name,"%s"'' f \<Longrightarrow>
     key_of if_test_lead (snprintf 4096 f (S m # as)) = Some m\<close>
proof -
  assume m: "plain_name m"
  show \<open>prefix ''strcmp(name,"%s"'' f \<Longrightarrow> key_of test_lead (snprintf 4096 f (S m # as)) = Some m\<close>
    by (rule key_of_format[OF m]) (simp_all add: test_lead_def)
  show \<open>prefix ''if ( strcmp(name,"%s"'' f \<Longrightarrow>
      key_of if_test_lead (snprintf 4096 f (S m # as)) = Some m\<close>
    by (rule key_of_format[OF m]) (simp_all add: if_test_lead_def)
qed

lemma test_leads [simp]: "dquote \<in> set test_lead" "dquote \<in> set if_test_lead"
  "keys test_lead (lf # cs) = keys test_lead cs" "keys if_test_lead (lf # cs) = keys if_test_lead cs"
  by (simp_all add: test_lead_def if_test_lead_def lf_def lf_char_def key_of_def)

lemma key_of_other_start:
  "lead \<noteq> [] \<Longrightarrow> hd lead \<noteq> c \<Longrightarrow> c \<noteq> CHR '' '' \<Longrightarrow> c \<noteq> CHR ''%'' \<Longrightarrow>
   key_of lead (snprintf 4096 (c # f) as) = None"
  by (cases lead; cases f) (auto simp: key_of_def snprintf_def take_Cons')

lemma other_start [simp]:
  "key_of test_lead (snprintf 4096 (CHR ''i'' # f) as) = None"
  "key_of if_test_lead (snprintf 4096 (CHR ''s'' # f) as) = None"
  by (simp_all add: key_of_other_start test_lead_def if_test_lead_def)

lemma middle_tests:
  \<open>list_all plain_name ms \<Longrightarrow>
   keys test_lead (map (\<lambda>m. pc 3 ''strcmp(name,"%s") == 0 ||\<newline>'' [S m]) ms) = ms\<close>
  \<open>keys if_test_lead (map (\<lambda>m. pc 3 ''strcmp(name,"%s") == 0 ||\<newline>'' [S m]) ms) = []\<close>
  by (induction ms) simp_all

lemma tests_of_names:
  assumes "list_all plain_name names"
  shows "tested (is_member_tests names) = names"
proof (cases names)
  case (Cons n ns)
  show ?thesis
  proof (cases ns rule: rev_cases)
    case Nil
    with assms Cons show ?thesis by (simp add: tested_def is_member_tests_def)
  next
    case (snoc ms l)
    with assms Cons show ?thesis
      by (cases ms) (simp_all add: tested_def is_member_tests_def middle_tests)
  qed
qed (simp add: tested_def is_member_tests_def)

text \<open>
  C27. The generated \<open>isMember\<close> answers for every key the class has: it compares the name with all
  members that are no maps, so with every key that \<open>deserializeFrom\<close> looks up by name. A string map,
  which collects the remaining keys, asks it which to skip.
\<close>
theorem is_member_covers_keys:
  assumes "plain_object ce ob"
  shows "tested (cpp_is_member ob) = all_non_map_items ob \<and>
    set (keys find_lead (saveDeserialize_impl ce ob)) \<subseteq> set (tested (cpp_is_member ob))"
proof -
  have "list_all plain_name (all_non_map_items ob)"
    using assms by (auto simp: plain_object_def list_all_iff all_non_map_items_def plain_member_def)
  from tests_of_names[OF this] assms have "tested (cpp_is_member ob) = all_non_map_items ob"
    by (simp add: cpp_is_member_def tested_def plain_object_def)
  moreover have "set (non_map_items ob) \<subseteq> set (all_non_map_items ob)"
    by (auto simp: non_map_items_def all_non_map_items_def)
  ultimately show ?thesis by (simp add: looked_up_keys[OF assms])
qed

theorem is_member_covers_keys_witness:
  "tested (cpp_is_member demo_class) = [''x'', ''kids'']"
proof -
  have "all_non_map_items demo_class = [''x'', ''kids'']"
    by (simp add: all_non_map_items_def demo_class_def new_object_def new_member_def)
  with is_member_covers_keys[OF demo_class_plain] show ?thesis by simp
qed

end
