(* ===== verification/GeneratedBraces.thy ===== *)
theory GeneratedBraces
  imports Driver
begin

text \<open>
  The braces of the generated C++ text. \<open>closed\<close> says of a list of calls that its text closes
  every brace it opens and no other, wherever it stands. The emitters are closed when the names and
  texts of the schema contain no braces themselves; a printer that runs them prints text with
  balanced braces, since the blanks it adds do not matter (\<open>printer.scan_output\<close>).
\<close>

section \<open>Scanning for braces\<close>

definition braces :: "nat \<Rightarrow> char \<Rightarrow> nat option" where
  "braces d c =
     (if c = CHR ''{'' then Some (Suc d)
      else if c = CHR ''}'' then (case d of 0 \<Rightarrow> None | Suc e \<Rightarrow> Some e)
      else Some d)"

definition closed :: "code \<Rightarrow> bool" where
  "closed cs \<longleftrightarrow> (\<forall>d. scan_code braces d cs = Some d)"

definition tidy :: "string \<Rightarrow> bool" where
  "tidy s \<longleftrightarrow> CHR ''{'' \<notin> set s \<and> CHR ''}'' \<notin> set s"

definition short :: "string \<Rightarrow> bool" where
  "short s \<longleftrightarrow> tidy s \<and> length s < 512"

lemma short_tidy [simp]: "short s \<Longrightarrow> tidy s"
  by (simp add: short_def)

lemma tidy_append [simp]: "tidy (s @ t) \<longleftrightarrow> tidy s \<and> tidy t"
  by (auto simp: tidy_def)

lemma tidy_Cons [simp]: "tidy (c # t) \<longleftrightarrow> c \<noteq> CHR ''{'' \<and> c \<noteq> CHR ''}'' \<and> tidy t"
  by (auto simp: tidy_def)

lemma tidy_Nil [simp]: "tidy []"
  by (simp add: tidy_def)

lemma scan_tidy: "tidy s \<Longrightarrow> scan braces d s = Some d"
  by (induction s) (auto simp: braces_def)

text \<open>
  The braces of a text are all a scan sees. A call prints the braces of its format when its
  arguments have none and the text fits the buffer of \<open>printCode\<close>; a text without braces may
  be cut.
\<close>

fun braces_of :: "string \<Rightarrow> string" where
  "braces_of [] = []"
| "braces_of (c # f) =
     (if c = CHR ''%'' then braces_of (tl f)
      else if c = CHR ''{'' \<or> c = CHR ''}'' then c # braces_of f
      else braces_of f)"

lemma scan_tidy_append: "tidy s \<Longrightarrow> scan braces d (s @ t) = scan braces d t"
  by (simp add: scan_append scan_tidy)

lemma scan_vformat:
  "\<forall>a \<in> set as. tidy (arg_text a) \<Longrightarrow> scan braces d (vformat f as) = scan braces d (braces_of f)"
  by (induction f as arbitrary: d rule: vformat.induct)
     (auto simp: braces_def scan_tidy_append split: list.split option.split)

lemma tidy_vformat:
  "\<forall>a \<in> set as. tidy (arg_text a) \<Longrightarrow> braces_of f = [] \<Longrightarrow> tidy (vformat f as)"
  by (induction f as rule: vformat.induct) (auto split: list.splits if_splits)

lemma tidy_take: "tidy s \<Longrightarrow> tidy (take n s)"
  by (auto simp: tidy_def dest: in_set_takeD)

lemma tidy_snprintf:
  "\<forall>a \<in> set as. tidy (arg_text a) \<Longrightarrow> braces_of f = [] \<Longrightarrow> tidy (snprintf n f as)"
  by (simp add: snprintf_def tidy_take tidy_vformat)

lemma scan_pc [simp]:
  assumes "\<forall>a \<in> set as. tidy (arg_text a)" "braces_of f = b"
    "b = [] \<or> length f + sum_list (map (\<lambda>a. length (arg_text a)) as) < 4096"
  shows "scan_code braces d (pc n f as # cs) =
     (case scan braces d b of None \<Rightarrow> None | Some e \<Rightarrow> scan_code braces e cs)"
proof (cases "b = []")
  case True
  with assms show ?thesis by (simp add: pc_def scan_tidy tidy_snprintf)
next
  case False
  with assms length_vformat[of f as] have "snprintf 4096 f as = vformat f as"
    by (intro snprintf_short) linarith
  with assms show ?thesis by (simp add: pc_def scan_vformat)
qed

lemma scan_lf [simp]: "scan_code braces d (lf # cs) = scan_code braces d cs"
  by (simp add: lf_def braces_def lf_char_def)

lemma scan_brace [simp]:
  "scan braces d (CHR ''{'' # s) = scan braces (Suc d) s"
  "scan braces (Suc d) (CHR ''}'' # s) = scan braces d s"
  "c \<noteq> CHR ''{'' \<Longrightarrow> c \<noteq> CHR ''}'' \<Longrightarrow> scan braces d (c # s) = scan braces d s"
  by (simp_all add: braces_def)

declare scan.simps(2) [simp del]

lemma scan_closed [simp]:
  "closed xs \<Longrightarrow> scan_code braces d (xs @ ys) = scan_code braces d ys"
  "closed xs \<Longrightarrow> scan_code braces d xs = Some d"
  by (simp_all add: closed_def scan_code_append)

lemma closed_Nil [simp]: "closed []"
  by (simp add: closed_def)

lemma closed_append [simp]: "closed xs \<Longrightarrow> closed ys \<Longrightarrow> closed (xs @ ys)"
  by (simp add: closed_def scan_code_append)

lemma closed_concat: "(\<And>xs. xs \<in> set xss \<Longrightarrow> closed xs) \<Longrightarrow> closed (concat xss)"
  by (induction xss) simp_all

lemma closedI: "(\<And>d. scan_code braces d cs = Some d) \<Longrightarrow> closed cs"
  by (simp add: closed_def)

lemma scan_append_code [simp]:
  "scan_code braces d (xs @ ys) =
     (case scan_code braces d xs of None \<Rightarrow> None | Some e \<Rightarrow> scan_code braces e ys)"
  by (rule scan_code_append)

text \<open>The simplifier walks a list of calls from its front only.\<close>

lemma scan_code_front [cong]: "d = e \<Longrightarrow> scan_code braces d cs = scan_code braces e cs"
  by simp

lemma scan_if [simp]:
  "scan_code braces d (if b then xs else ys) = (if b then scan_code braces d xs else scan_code braces d ys)"
  by simp

section \<open>Serialization\<close>

definition tidy_member :: "MemberVariable \<Rightarrow> bool" where
  "tidy_member i \<longleftrightarrow>
     short (mMember i) \<and> short (mType i) \<and> short (mMapType i) \<and> short (mAlias i) \<and>
     short (mInheritsFrom i) \<and> short (mDefaultValue i) \<and> short (mQualifiedDefaultValue i) \<and>
     tidy (mShortDescription i)"

lemma tidy_memberD [simp]:
  "tidy_member i \<Longrightarrow> tidy (mMember i)" "tidy_member i \<Longrightarrow> tidy (mType i)"
  "tidy_member i \<Longrightarrow> tidy (mMapType i)" "tidy_member i \<Longrightarrow> tidy (mAlias i)"
  "tidy_member i \<Longrightarrow> tidy (mInheritsFrom i)" "tidy_member i \<Longrightarrow> tidy (mDefaultValue i)"
  "tidy_member i \<Longrightarrow> tidy (mQualifiedDefaultValue i)" "tidy_member i \<Longrightarrow> tidy (mShortDescription i)"
  by (simp_all add: tidy_member_def)

lemma ser_member_closed:
  assumes "tidy_member i" "own i \<longrightarrow> known_type ce (mType i)"
  shows "closed (ser_member ce i)"
proof (rule closedI)
  fix d
  have "closed (ser_standard i)"
    using assms(1) unfolding closed_def ser_standard_def by simp
  moreover have "closed (ser_string i)"
    using assms(1) unfolding closed_def ser_string_def by simp
  moreover have "closed (ser_named_array ce i)"
    using assms(1) unfolding closed_def ser_named_array_def by simp
  moreover have "closed (ser_enum i)" "closed (ser_object i)"
    using assms(1) unfolding closed_def ser_enum_def ser_object_def by simp_all
  ultimately show "scan_code braces d (ser_member ce i) = Some d"
    using assms(2) by (cases "ce (mType i)") (auto simp: ser_member_def own_def known_type_def)
qed

definition tidy_object :: "Object \<Rightarrow> bool" where
  "tidy_object ob \<longleftrightarrow>
     short (mName ob) \<and> short (mInheritsFromO ob) \<and> short (mAliasO ob) \<and>
     tidy (mShortDescriptionO ob) \<and> tidy (mLongDescriptionO ob) \<and>
     list_all tidy_member (mItems ob)"

lemma tidy_objectD [simp]:
  "tidy_object ob \<Longrightarrow> tidy (mName ob)" "tidy_object ob \<Longrightarrow> tidy (mInheritsFromO ob)"
  "tidy_object ob \<Longrightarrow> tidy (mAliasO ob)" "tidy_object ob \<Longrightarrow> tidy (mShortDescriptionO ob)"
  "tidy_object ob \<Longrightarrow> tidy (mLongDescriptionO ob)"
  by (simp_all add: tidy_object_def list_all_iff)

lemma tidy_items: "tidy_object ob \<Longrightarrow> i \<in> set (mItems ob) \<Longrightarrow> tidy_member i"
  by (simp only: tidy_object_def list_all_iff)

lemma closed_members:
  "(\<And>i. i \<in> set xs \<Longrightarrow> closed (f i)) \<Longrightarrow> closed (concat (map f xs))"
  by (rule closed_concat) auto

lemma saveSerialize_header_closed: "tidy_object ob \<Longrightarrow> closed (saveSerialize_header ob)"
  unfolding closed_def saveSerialize_header_def by simp

lemma saveSerialize_impl_closed:
  "tidy_object ob \<Longrightarrow> closed (concat (map (ser_member ce) (mItems ob))) \<Longrightarrow> closed (saveSerialize_impl ce ob)"
  unfolding closed_def saveSerialize_impl_def by simp

lemma saveSerialize_closed:
  assumes "tidy_object ob"
    "\<not> mIsEnum ob \<longrightarrow> (\<forall>i \<in> set (mItems ob). own i \<longrightarrow> known_type ce (mType i))"
  shows "closed (fst (saveSerialize ce ob))" "closed (snd (saveSerialize ce ob))"
proof -
  show "closed (fst (saveSerialize ce ob))"
    using assms(1) saveSerialize_header_closed by (simp add: saveSerialize_def)
  have "closed (concat (map (ser_member ce) (mItems ob)))" if "\<not> mIsEnum ob"
    using assms that by (intro closed_members ser_member_closed) (auto intro: tidy_items)
  with assms(1) show "closed (snd (saveSerialize ce ob))"
    by (simp add: saveSerialize_def saveSerialize_impl_closed)
qed

section \<open>Deserialization\<close>

lemma getCppTypeString_tidy [simp]: "tidy t \<Longrightarrow> tidy (getCppTypeString t b)"
  by (simp add: getCppTypeString_def)

lemma accessor_tidy: "deserializeTypeName st = (Some g, n) \<Longrightarrow> tidy g"
  by (cases st) auto

lemma check_names_tidy: "check_names st = Some (c, g) \<Longrightarrow> tidy c \<and> tidy g"
  by (cases st) auto

lemma deser_value_closed:
  assumes "deserializeTypeName st = (Some g, n)" "tidy_member i"
  shows "closed (deser_value st n g i)"
proof (cases n)
  case True
  with accessor_tidy[OF assms(1)] assms(2) show ?thesis
    unfolding closed_def deser_value_def deser_numeric_array_def deser_numeric_def by simp
next
  case False
  then obtain c h where c: "check_names st = Some (c, h)"
    using check_names_total[OF assms(1)] by auto
  have "closed (deser_checked st c h g i)"
    using accessor_tidy[OF assms(1)] check_names_tidy[OF c] assms(2)
    unfolding closed_def deser_checked_def by simp
  with False assms(2) show ?thesis
    unfolding closed_def deser_value_def c option.case prod.case by simp
qed

lemma deser_map_closed:
  "tidy_member i \<Longrightarrow> (isNumeric \<longrightarrow> nonMapItems = []) \<Longrightarrow> closed (deser_map isNumeric nonMapItems i)"
  unfolding closed_def deser_map_def by (cases "nonMapItems = []") simp_all

lemma closed_todo: "closed [pc 2 ''// TODO: Need to deserialize this type.\<newline>'' []]"
  unfolding closed_def by simp

lemma deser_named_closed:
  assumes "tidy_member i"
  shows "closed (deser_named ce i)"
proof -
  have "closed (deser_enum_map i)" "closed (deser_array b i)" "closed (deser_enum i)"
    "closed (deser_object i)" for b
    using assms unfolding closed_def deser_enum_map_def deser_array_def deser_enum_def deser_object_def
    by simp_all
  with assms show ?thesis 
    by (auto simp: deser_named_def closed_todo split: option.split)
qed

lemma deser_member_wrap:
  "tidy_member i \<Longrightarrow>
   closed (if getStandardType (mType i) \<noteq> st_none then deser_standard xs i else deser_named ce i) \<Longrightarrow>
   closed (deser_member ce xs i)"
  unfolding closed_def deser_member_def by (cases "mInheritsFrom i = []") simp_all

lemma deser_member_closed:
  assumes "tidy_member i" "own i \<and> mIsMap i \<and> integer_type (mType i) \<longrightarrow> nonMapItems = []"
  shows "closed (deser_member ce nonMapItems i)"
proof (cases "getStandardType (mType i) \<noteq> st_none \<and> own i")
  case True
  obtain g n where st: "deserializeTypeName (getStandardType (mType i)) = (Some g, n)"
    using True by (cases "getStandardType (mType i)") auto
  have "n = integer_type (mType i)" using integer_flag[of "mType i"] st True by simp
  then have "closed (deser_standard nonMapItems i)"
    using True assms deser_map_closed[OF assms(1), of n nonMapItems] deser_value_closed[OF st assms(1)]
    by (auto simp: deser_standard_def st)
  with True assms(1) show ?thesis by (intro deser_member_wrap) simp_all
next
  case False
  show ?thesis
  proof (cases "own i")
    case True
    with False deser_named_closed[OF assms(1), of ce] assms(1) show ?thesis
      by (intro deser_member_wrap) simp_all
  qed (simp add: deser_member_def own_def)
qed

lemma saveDeserialize_impl_closed:
  "tidy_object ob \<Longrightarrow> closed (concat (map (deser_member ce (non_map_items ob)) (mItems ob))) \<Longrightarrow>
   closed (saveDeserialize_impl ce ob)"
  unfolding closed_def saveDeserialize_impl_def by simp

lemma saveDeserialize_closed:
  assumes "tidy_object ob"
    "\<not> mIsEnum ob \<longrightarrow> (\<forall>i \<in> set (mItems ob).
        own i \<and> mIsMap i \<and> integer_type (mType i) \<longrightarrow> non_map_items ob = [])"
  shows "closed (fst (saveDeserialize ce ob))" "closed (snd (saveDeserialize ce ob))"
proof -
  show "closed (fst (saveDeserialize ce ob))" by (simp add: saveDeserialize_def closedI)
  have "closed (concat (map (deser_member ce (non_map_items ob)) (mItems ob)))" if "\<not> mIsEnum ob"
    using assms that by (intro closed_members deser_member_closed) (auto intro: tidy_items)
  with assms(1) show "closed (snd (saveDeserialize ce ob))"
    by (simp add: saveDeserialize_def saveDeserialize_impl_closed)
qed

section \<open>Enums\<close>

lemma tidy_memberD_length:
  "tidy_member i \<Longrightarrow> length (mMember i) < 512" "tidy_member i \<Longrightarrow> length (mType i) < 512"
  "tidy_member i \<Longrightarrow> length (mAlias i) < 512" "tidy_member i \<Longrightarrow> length (mDefaultValue i) < 512"
  "tidy_member i \<Longrightarrow> length (mQualifiedDefaultValue i) < 512"
  by (simp_all only: tidy_member_def short_def)

lemma enum_string_tidy [simp]: "tidy_member i \<Longrightarrow> tidy (enum_string i)"
  by (cases "mAlias i = []") (simp_all add: enum_string_def)

lemma enum_string_length: "tidy_member i \<Longrightarrow> length (enum_string i) < 512"
  using tidy_memberD_length[of i] by (cases "mAlias i = []") (simp_all add: enum_string_def)

lemma enum_row_closed:
  assumes "tidy_object ob" "tidy_member i"
  shows \<open>closed [pc 1 ''{ %s::%s, "%s" },\<newline>'' [S (mName ob), S (mMember i), S (enum_string i)]]\<close>
proof -
  have "length (mName ob) < 512" using assms(1) by (simp only: tidy_object_def short_def)
  with assms tidy_memberD_length(1)[OF assms(2)] enum_string_length[OF assms(2)] show ?thesis
    unfolding closed_def by simp
qed

lemma closed_rows: "(\<And>i. i \<in> set xs \<Longrightarrow> closed [f i]) \<Longrightarrow> closed (map f xs)"
proof (induction xs)
  case (Cons i xs)
  then have "closed ([f i] @ map f xs)" by (intro closed_append) simp_all
  then show ?case by simp
qed simp

lemma enum_table_closed:
  assumes "tidy_object ob"
  shows "closed (enum_table ob)"
proof -
  note rows = closed_rows[of "mItems ob", OF enum_row_closed[OF assms tidy_items[OF assms]]]
  from assms rows show ?thesis unfolding closed_def enum_table_def by simp
qed

lemma enum_stringify_closed: "tidy_object ob \<Longrightarrow> closed (enum_stringify ob)"
  unfolding closed_def enum_stringify_def by simp

lemma enum_unstringify_closed:
  assumes "tidy_object ob"
  shows "closed (enum_unstringify ob)"
proof (cases "mItems ob")
  case Nil
  from assms show ?thesis unfolding closed_def enum_unstringify_def Nil list.case by simp
next
  case (Cons i is')
  with assms have "tidy (mMember i)" by (simp add: tidy_items)
  with assms show ?thesis unfolding closed_def enum_unstringify_def Cons list.case by simp
qed

lemma enum_declarations_closed: "tidy_object ob \<Longrightarrow> closed (enum_declarations ob)"
  unfolding closed_def enum_declarations_def by simp

lemma saveTypeScript_closed:
  assumes "tidy_object ob"
  shows "closed (fst (snd (saveTypeScript ob)))" "closed (snd (snd (saveTypeScript ob)))"
  using assms by (simp_all add: saveTypeScript_def enum_implementation_def enum_declarations_closed
      enum_table_closed enum_stringify_closed enum_unstringify_closed)

section \<open>Classes\<close>

definition opens :: "code \<Rightarrow> bool" where
  "opens cs \<longleftrightarrow> (\<forall>d. scan_code braces d cs = Some (Suc d))"

definition closes :: "code \<Rightarrow> bool" where
  "closes cs \<longleftrightarrow> (\<forall>d. scan_code braces (Suc d) cs = Some d)"

lemma closed_between: "opens xs \<Longrightarrow> closed ys \<Longrightarrow> closes zs \<Longrightarrow> closed (xs @ ys @ zs)"
  by (simp add: opens_def closes_def closed_def scan_code_append)

lemma opens_append: "opens xs \<Longrightarrow> closed ys \<Longrightarrow> opens (xs @ ys)"
  by (simp add: opens_def closed_def scan_code_append)

lemma ascii_upper_tidy: "ascii_upper c = CHR ''{'' \<or> ascii_upper c = CHR ''}'' \<Longrightarrow> ascii_upper c = c"
proof -
  have "code_of (ascii_upper c) \<in> {65..90}" if "ascii_upper c \<noteq> c"
    using that by (auto simp: ascii_upper_def in_range_def code_of_def char_sub_def split: if_splits)
  moreover have "code_of (ascii_upper c) \<in> {123, 125}"
    if "ascii_upper c = CHR ''{'' \<or> ascii_upper c = CHR ''}''"
    using that by (auto simp: code_of_def)
  ultimately show "ascii_upper c = CHR ''{'' \<or> ascii_upper c = CHR ''}'' \<Longrightarrow> ascii_upper c = c"
    by fastforce
qed

lemma upcase_tidy [simp]: "tidy s \<Longrightarrow> tidy (upcase_first s)"
proof (cases s)
  case (Cons c cs)
  assume "tidy s"
  with Cons ascii_upper_tidy[of c] show ?thesis by (auto simp: upcase_first_def)
qed (simp add: upcase_first_def)

lemma names_tidy [simp]:
  "tidy s \<Longrightarrow> tidy (getClassNameString s b)"
  "tidy s \<Longrightarrow> tidy (getMemberName s b m)" "tidy_member i \<Longrightarrow> tidy (map_key_type i)"
  "tidy_member i \<Longrightarrow> tidy (vector_name i)" "tidy_member i \<Longrightarrow> tidy (equal_name i)"
proof -
  show "tidy s \<Longrightarrow> tidy (getClassNameString s b)" "tidy s \<Longrightarrow> tidy (getMemberName s b m)"
    by (simp_all add: getClassNameString_def getMemberName_def tidy_snprintf)
  show k: "tidy_member i \<Longrightarrow> tidy (map_key_type i)" by (simp add: map_key_type_def)
  then show "tidy_member i \<Longrightarrow> tidy (vector_name i)"
    by (simp add: vector_name_def tidy_snprintf Let_def)
  show "tidy_member i \<Longrightarrow> tidy (equal_name i)" by (simp add: equal_name_def)
qed

lemma cpp_class_definition_opens:
  "tidy_object ob \<Longrightarrow> opens (cpp_class_definition False cs ob)"
  unfolding opens_def cpp_class_definition_def cpp_descriptions_def by (simp add: doClone_def)

lemma cpp_end_class_closes: "closes cpp_end_class"
  unfolding closes_def cpp_end_class_def by simp

lemma test_row_closed:
  \<open>tidy n \<Longrightarrow> closed [pc 3 ''strcmp(name,"%s") == 0 ||\<newline>'' [S n]]\<close>
  unfolding closed_def by simp

lemma is_member_tests_closed:
  assumes "\<forall>n \<in> set ns. tidy n"
  shows "closed (is_member_tests ns)"
proof (cases ns rule: remdups_adj.cases)
  case 1
  show ?thesis unfolding 1 is_member_tests_def list.case by simp
next
  case (2 n)
  from assms show ?thesis unfolding 2 closed_def is_member_tests_def list.case by simp
next
  case (3 n m ms)
  have "last (m # ms) \<in> set ns" "\<And>x. x \<in> set (butlast (m # ms)) \<Longrightarrow> x \<in> set ns"
    using 3 last_in_set[of "m # ms"] by (auto dest: in_set_butlastD split: if_splits)
  then have "tidy n" "tidy (last (m # ms))" "\<And>x. x \<in> set (butlast (m # ms)) \<Longrightarrow> tidy x"
    using assms 3 by auto
  moreover note closed_rows[of "butlast (m # ms)", OF test_row_closed, OF this(3)]
  ultimately show ?thesis unfolding 3 closed_def is_member_tests_def list.case by simp
qed

lemma cpp_alias_closed: "tidy_object ob \<Longrightarrow> closed (cpp_alias ob)"
  unfolding closed_def cpp_alias_def by simp

lemma enum_item_closed:
  "tidy_member i \<Longrightarrow>
   closed ((if mDefaultValue i = [] then [pc 1 ''%s,'' [S (mMember i)]]
            else [pc 1 ''%s=%s,'' [S (mMember i), S (mDefaultValue i)]])
           @ [pc 10 ''// %s\<newline>'' [S (mShortDescription i)]])"
  unfolding closed_def by simp

lemma cpp_enum_closed: "tidy_object ob \<Longrightarrow> closed (cpp_enum ob)"
  using closed_members[of "mItems ob", OF enum_item_closed[OF tidy_items]]
  unfolding closed_def cpp_enum_def by simp

lemma equal_item_closed:
  "tidy_member i \<Longrightarrow>
   closed (if mInheritsFrom i \<noteq> [] then []
           else [pc 2 ''equal &= %s == other.%s;\<newline>'' [S (equal_name i), S (equal_name i)]])"
  unfolding closed_def by simp

lemma cpp_equality_closed: "tidy_object ob \<Longrightarrow> closed (cpp_equality ob)"
  using closed_members[of "mItems ob", OF equal_item_closed[OF tidy_items]]
  unfolding closed_def cpp_equality_def by simp

lemma cpp_is_member_closed:
  assumes "tidy_object ob"
  shows "closed (cpp_is_member ob)"
proof -
  have "\<forall>n \<in> set (all_non_map_items ob). tidy n"
    using tidy_items[OF assms] by (auto simp: all_non_map_items_def)
  with assms is_member_tests_closed show ?thesis
    unfolding closed_def cpp_is_member_def by simp
qed

lemma closed_comma: "(\<And>cs. cs \<in> set css \<Longrightarrow> closed cs) \<Longrightarrow> closed (comma_calls css)"
proof (cases css)
  case (Cons c cs)
  have "closed (pc 0 '','' [] # c)" if "closed c" for c
    using that unfolding closed_def by simp
  then show "(\<And>cs. cs \<in> set css \<Longrightarrow> closed cs) \<Longrightarrow> ?thesis"
    by (auto simp: comma_calls_def Cons intro!: closed_append closed_members)
qed (simp add: comma_calls_def)

lemma assignment_rows_closed:
  assumes "tidy_member i"
  shows
    "closed [pc 0 ''const %s &_%s'' [S (getCppTypeString (mType i) b), S (getMemberName (mMember i) b (mIsMap i))]]"
    "closed [pc 2 ''%s = _%s;\<newline>'' [S (getMemberName (mMember i) b (mIsMap i)), S (getMemberName (mMember i) b (mIsMap i))]]"
  using assms unfolding closed_def by simp_all

lemma cpp_assignment_closed:
  assumes "tidy_object ob"
  shows "closed (cpp_assignment b ob)"
proof -
  have "closed (comma_calls (map (\<lambda>i. [pc 0 ''const %s &_%s'' [S (getCppTypeString (mType i) b), S (getMemberName (mMember i) b (mIsMap i))]]) (mItems ob)))"
    by (rule closed_comma) (auto intro!: assignment_rows_closed tidy_items[OF assms])
  moreover note closed_members[of "mItems ob", OF assignment_rows_closed(2)[of _ b, OF tidy_items[OF assms]]]
  moreover have "length (getClassNameString (mName ob) b) < 512"
    using assms by (simp only: tidy_object_def short_def getClassNameString_def)
      (simp add: length_snprintf)
  ultimately show ?thesis
    using assms unfolding closed_def cpp_assignment_def by simp
qed

section \<open>Default values\<close>

text \<open>What the C++ library prints for a number is short and has no braces.\<close>

definition tidy_io :: "float_io \<Rightarrow> bool" where
  "tidy_io io \<longleftrightarrow>
     (\<forall>s. short (strtof_text io s) \<and> short (strtod_text io s) \<and>
        (case vec3_text io s of (x, y, z) \<Rightarrow> short x \<and> short y \<and> short z) \<and>
        (case quat_text io s of (x, y, z, w) \<Rightarrow> short x \<and> short y \<and> short z \<and> short w))"

lemma tidy_ioD:
  "tidy_io io \<Longrightarrow> tidy (strtof_text io s) \<and> length (strtof_text io s) < 512"
  "tidy_io io \<Longrightarrow> tidy (strtod_text io s) \<and> length (strtod_text io s) < 512"
  "tidy_io io \<Longrightarrow> vec3_text io s = (x, y, z) \<Longrightarrow>
     tidy x \<and> tidy y \<and> tidy z \<and> length x < 512 \<and> length y < 512 \<and> length z < 512"
  "tidy_io io \<Longrightarrow> quat_text io s = (x, y, z, w) \<Longrightarrow>
     tidy x \<and> tidy y \<and> tidy z \<and> tidy w \<and> length x < 512 \<and> length y < 512 \<and> length z < 512 \<and>
     length w < 512"
proof -
  assume a: "tidy_io io"
  show "tidy (strtof_text io s) \<and> length (strtof_text io s) < 512"
    "tidy (strtod_text io s) \<and> length (strtod_text io s) < 512"
    using a by (simp_all add: tidy_io_def short_def)
  show "tidy x \<and> tidy y \<and> tidy z \<and> length x < 512 \<and> length y < 512 \<and> length z < 512"
    if "vec3_text io s = (x, y, z)"
    using spec[OF a[unfolded tidy_io_def], of s] that by (simp add: short_def)
  show "tidy x \<and> tidy y \<and> tidy z \<and> tidy w \<and> length x < 512 \<and> length y < 512 \<and> length z < 512 \<and>
     length w < 512" if "quat_text io s = (x, y, z, w)"
    using spec[OF a[unfolded tidy_io_def], of s] that by (simp add: short_def)
qed

lemma dec_short: "n < 10 ^ Suc k \<Longrightarrow> tidy (dec n) \<and> length (dec n) \<le> Suc k"
proof (induction k arbitrary: n)
  case 0
  then have "code_of (digit_char n) \<in> {48..57}" by (simp add: digit_char_def)
  then have "digit_char n \<noteq> CHR ''{''" "digit_char n \<noteq> CHR ''}''" by (auto simp: code_of_def)
  with 0 show ?case by (simp add: dec.simps)
next
  case (Suc k)
  have "code_of (digit_char (n mod 10)) \<in> {48..57}" by (simp add: digit_char_def)
  then have d: "digit_char (n mod 10) \<noteq> CHR ''{''" "digit_char (n mod 10) \<noteq> CHR ''}''"
    by (auto simp: code_of_def)
  have "n div 10 < 10 ^ Suc k" using Suc.prems by (simp add: less_mult_imp_div_less mult.commute)
  from Suc.IH[OF this] d show ?case
    by (cases "n < 10") (auto simp: dec.simps[of n])
qed

lemma integer_text_short:
  "tidy (signed_text dv) \<and> length (signed_text dv) < 512"
  "tidy (unsigned_text dv) \<and> length (unsigned_text dv) < 512"
proof -
  have n: "tidy (dec n) \<and> length (dec n) \<le> 20" if "n < 2 ^ 64" for n
    using dec_short[of n 19] that by simp
  have "strtoull0 dv < 2 ^ 64" by (rule strtoull0_range)
  then show "tidy (unsigned_text dv) \<and> length (unsigned_text dv) < 512"
    using n[of "strtoull0 dv"] n[of 0] by (simp add: unsigned_text_def)
  have i: "tidy (dec_int i) \<and> length (dec_int i) < 512" if "- (2 ^ 63) \<le> i" "i < 2 ^ 63" for i
    using that n[of "nat i"] n[of "nat (- i)"] by (auto simp: dec_int_def nat_less_iff)
  show "tidy (signed_text dv) \<and> length (signed_text dv) < 512"
    using i[of "strtoll0 dv"] i[of 0] strtoll0_range[of dv] by (simp add: signed_text_def)
qed

lemma float_texts_short:
  assumes "tidy_io io"
  shows "tidy (double_text io dv) \<and> length (double_text io dv) < 512"
    "vec3_values io dv = (x, y, z) \<Longrightarrow>
       tidy x \<and> tidy y \<and> tidy z \<and> length x < 512 \<and> length y < 512 \<and> length z < 512"
    "quat_values io dv = (x, y, z, w) \<Longrightarrow>
       tidy x \<and> tidy y \<and> tidy z \<and> tidy w \<and> length x < 512 \<and> length y < 512 \<and> length z < 512 \<and>
       length w < 512"
proof -
  show "tidy (double_text io dv) \<and> length (double_text io dv) < 512"
    using tidy_ioD(2)[OF assms, of dv]
    by (simp add: double_text_def zero_text_def flt_max_text_def flt_min_text_def)
  show "tidy x \<and> tidy y \<and> tidy z \<and> length x < 512 \<and> length y < 512 \<and> length z < 512"
    if "vec3_values io dv = (x, y, z)"
    using that tidy_ioD(3)[OF assms, of dv x y z]
    by (cases "dv = []") (auto simp: vec3_values_def zero_text_def)
  show "tidy x \<and> tidy y \<and> tidy z \<and> tidy w \<and> length x < 512 \<and> length y < 512 \<and> length z < 512 \<and>
       length w < 512" if "quat_values io dv = (x, y, z, w)"
    using that tidy_ioD(4)[OF assms, of dv x y z w]
    by (cases "dv = []") (auto simp: quat_values_def zero_text_def one_text_def)
qed

lemma initializer_short:
  assumes io: "tidy_io io" and i: "tidy_member i"
  shows "tidy (getCppValueInitializer io dm i) \<and> length (getCppValueInitializer io dm i) < 3072"
proof -
  let ?dv = "mDefaultValue i"
  define P :: "string \<Rightarrow> bool" where "P s \<longleftrightarrow> tidy s \<and> length s < 3072" for s
  obtain x y z where v: "vec3_values io ?dv = (x, y, z)" by (cases "vec3_values io ?dv")
  obtain x' y' z' w' where q: "quat_values io ?dv = (x', y', z', w')" by (cases "quat_values io ?dv")
  have "P []" "P ''FLT_MAX''" "P ''FLT_MIN''" "P ''true''" "P ''false''"
    by (simp_all add: P_def)
  moreover have "P ([CHR 0x22] @ ?dv @ [CHR 0x22])" "P (mQualifiedDefaultValue i)"
    using i tidy_memberD_length(4,5)[OF i] by (simp_all add: P_def)
  moreover have "P (signed_text ?dv)" "P (unsigned_text ?dv)" "P (double_text io ?dv)"
    using integer_text_short[of ?dv] float_texts_short(1)[OF io, of ?dv] by (simp_all add: P_def)
  moreover have "P ((if ?dv \<noteq> [] then strtof_text io ?dv else zero_text) @ ''f'')"
    using tidy_ioD(1)[OF io, of ?dv] by (simp add: P_def zero_text_def)
  moreover have "P (x @ ''f, '' @ y @ ''f, '' @ z @ ''f'')"
    "P (x' @ ''f, '' @ y' @ ''f, '' @ z' @ ''f, '' @ w' @ ''f'')"
    using float_texts_short(2)[OF io v] float_texts_short(3)[OF io q] by (simp_all add: P_def)
  ultimately have "P (getCppValueInitializer io dm i)"
    unfolding getCppValueInitializer_def Let_def v q prod.case
    by (simp split: option.split)
  then show ?thesis by (simp add: P_def)
qed

lemma rvalue_tidy:
  assumes "tidy_io io" "tidy_member i"
  shows "tidy (getCppRValue io dm b i)"
  using assms initializer_short[OF assms, of dm]
  by (auto simp: getCppRValue_def split: option.split)

section \<open>Class bodies\<close>

lemma inherited_row_closed:
  assumes "tidy_io io" "tidy_member i"
  shows "closed
    (if mInheritsFrom i \<noteq> [] \<and> mDefaultValue i \<noteq> [] then
      [pc 2 ''%s%s::%s = %s;\<newline>'' [S (mInheritsFrom i), S (if b then ''Def'' else ''''), S (getMemberName (mMember i) b (mIsMap i)), S (getCppRValue io dm b i)]]
     else [])"
  using assms rvalue_tidy[OF assms] unfolding closed_def by simp

lemma cpp_inherited_constructor_closed:
  assumes "tidy_io io" "tidy_object ob"
  shows "closed (cpp_inherited_constructor io dm b ob)"
  using assms closed_members[of "mItems ob", OF inherited_row_closed[OF assms(1) tidy_items[OF assms(2)]]]
  unfolding closed_def cpp_inherited_constructor_def by simp

lemma cpp_member_type_closed:
  "tidy_member i \<Longrightarrow> (mIsMap i \<longrightarrow> mIsArray i) \<Longrightarrow> closed (cpp_member_type False i)"
  unfolding closed_def cpp_member_type_def by (cases "mIsMap i") simp_all

lemma cpp_member_name_closed:
  assumes "tidy_io io" "tidy_member i"
  shows "closed (cpp_member_name io dm b i)"
  using assms initializer_short[OF assms, of dm] unfolding closed_def cpp_member_name_def by simp

lemma cpp_array_operator_closed: "tidy_member i \<Longrightarrow> closed (cpp_array_operator i)"
  unfolding closed_def cpp_array_operator_def by simp

lemma cpp_member_closed:
  assumes "tidy_io io" "tidy_member i" "own i \<and> mIsMap i \<longrightarrow> mIsArray i"
  shows "closed (cpp_member io dm False i)"
  using assms by (auto simp: cpp_member_def own_def cpp_member_type_closed cpp_member_name_closed
      cpp_array_operator_closed)

lemma cpp_scratch_array_closed: "closed (cpp_scratch_array False i)"
  by (simp add: cpp_scratch_array_def)

lemma closed_if: "closed xs \<Longrightarrow> closed ys \<Longrightarrow> closed (if b then xs else ys)"
  by simp

lemma cpp_class_body_closed:
  assumes "tidy_io io" "tidy_object ob" "\<forall>i \<in> set (mItems ob). own i \<and> mIsMap i \<longrightarrow> mIsArray i"
  shows "closed (cpp_class_body io dm False ob)"
proof -
  have "closed (concat (map (cpp_member io dm False) (mItems ob)))"
    using assms by (intro closed_members cpp_member_closed) (auto intro: tidy_items)
  moreover have "closed (concat (map (cpp_scratch_array False) (mItems ob)))"
    by (intro closed_members cpp_scratch_array_closed)
  ultimately show ?thesis
    using assms unfolding cpp_class_body_def if_False
    by (intro closed_append closed_if) (simp_all add: cpp_is_member_closed cpp_equality_closed
        cpp_assignment_closed cpp_inherited_constructor_closed)
qed

lemma cpp_objects_closed:
  assumes "tidy_io io" "\<forall>ob \<in> set obs. tidy_object ob \<and>
    (plain_class ob \<longrightarrow> (\<forall>i \<in> set (mItems ob). own i \<and> mIsMap i \<longrightarrow> mIsArray i))"
  shows "closed (cpp_objects io dm state obs)"
  using assms(2)
proof (induction obs arbitrary: state)
  case (Cons ob obs)
  obtain arrays clones where state: "state = (arrays, clones)" by (cases state)
  have "closed (fst (EmitCpp.saveCPP io dm state ob))"
  proof (cases "plain_class ob")
    case True
    then have "closed (cpp_class_definition False clones ob @ cpp_class_body io dm False ob @ cpp_end_class)"
      using Cons.prems assms(1)
      by (intro closed_between cpp_class_definition_opens cpp_class_body_closed cpp_end_class_closes)
        simp_all
    with True show ?thesis by (simp add: saveCPP_def plain_class_def state)
  next
    case False
    with Cons.prems show ?thesis
      by (auto simp: saveCPP_def plain_class_def state cpp_alias_closed cpp_enum_closed)
  qed
  with Cons show ?case by (cases "EmitCpp.saveCPP io dm state ob") auto
qed simp

section \<open>Files\<close>

definition tidy_dom :: "DOM \<Rightarrow> bool" where
  "tidy_dom dm \<longleftrightarrow>
     short (mNamespace dm) \<and> short (mFilename dm) \<and> tidy (mURL dm) \<and>
     list_all tidy_object (mObjects dm)"

lemma tidy_domD:
  "tidy_dom dm \<Longrightarrow> tidy (mNamespace dm)" "tidy_dom dm \<Longrightarrow> length (mNamespace dm) < 512"
  "tidy_dom dm \<Longrightarrow> tidy (mFilename dm)" "tidy_dom dm \<Longrightarrow> tidy (mURL dm)"
  "tidy_dom dm \<Longrightarrow> ob \<in> set (mObjects dm) \<Longrightarrow> tidy_object ob"
  by (simp_all add: tidy_dom_def short_def list_all_iff)

lemma fixed_parts_closed:
  "closed dom_enum_header_begin" "closed dom_serialize_impl_begin"
  "closed dom_deserialize_header_begin" "closed dom_deserialize_impl_begin"
  unfolding closed_def dom_enum_header_begin_def dom_serialize_impl_begin_def
    dom_deserialize_header_begin_def dom_deserialize_impl_begin_def
  by simp_all

lemma namespaces_open:
  assumes "tidy_dom dm"
  shows "opens (cpp_header_begin dm)" "opens (dom_enum_impl_begin dm)"
    "closes (header_tail dm)" "closes (impl_tail dm)"
  using tidy_domD(1-4)[OF assms]
  unfolding opens_def closes_def cpp_header_begin_def dom_enum_impl_begin_def header_tail_def
    impl_tail_def
  by simp_all

lemma object_texts_closed:
  assumes "tidy_dom dm" "generates dm"
  shows
    "closed (concat (map (\<lambda>ob. fst (snd (saveTypeScript ob))) (mObjects dm)))"
    "closed (concat (map (\<lambda>ob. snd (snd (saveTypeScript ob))) (mObjects dm)))"
    "closed (concat (map (\<lambda>ob. fst (saveSerialize (classEnumMap (mObjects dm)) ob)) (mObjects dm)))"
    "closed (concat (map (\<lambda>ob. snd (saveSerialize (classEnumMap (mObjects dm)) ob)) (mObjects dm)))"
    "closed (concat (map (\<lambda>ob. fst (saveDeserialize (classEnumMap (mObjects dm)) ob)) (mObjects dm)))"
    "closed (concat (map (\<lambda>ob. snd (saveDeserialize (classEnumMap (mObjects dm)) ob)) (mObjects dm)))"
  using assms(2) tidy_domD(5)[OF assms(1)]
  by (auto intro!: closed_members saveTypeScript_closed saveSerialize_closed saveDeserialize_closed
      simp: generates_def)

lemma file_calls_closed:
  assumes "tidy_io io" "tidy_dom dm" "generates dm"
  shows "closed (header_calls io dm)" "closed (impl_calls dm)"
proof -
  have "closed (cpp_objects io dm ([], []) (mObjects dm))"
    using assms by (intro cpp_objects_closed) (auto simp: generates_def tidy_domD)
  then show "closed (header_calls io dm)"
    using closed_between[OF namespaces_open(1)[OF assms(2)] _ namespaces_open(3)[OF assms(2)],
        of "cpp_objects io dm ([], []) (mObjects dm) @ fst (snd (dom_saveTypeScript dm)) @
          fst (dom_saveSerialize dm) @ fst (dom_saveDeserialize dm)"]
      object_texts_closed[OF assms(2,3)]
    by (simp add: header_calls_def dom_saveCPP_def dom_saveTypeScript_def dom_saveSerialize_def
        dom_saveDeserialize_def fixed_parts_closed Let_def comp_def)
  show "closed (impl_calls dm)"
    using closed_between[OF namespaces_open(2)[OF assms(2)] _ namespaces_open(4)[OF assms(2)],
        of "concat (map (\<lambda>ob. snd (snd (saveTypeScript ob))) (mObjects dm)) @
          snd (dom_saveSerialize dm) @ snd (dom_saveDeserialize dm)"]
      object_texts_closed[OF assms(2,3)]
    by (simp add: impl_calls_def dom_saveTypeScript_def dom_saveSerialize_def
        dom_saveDeserialize_def fixed_parts_closed Let_def comp_def)
qed

end
