(* ===== verification/GeneratedFiles.thy ===== *)
theory GeneratedFiles
  imports GeneratedBraces Schema
begin

text \<open>
  From the lists of calls to the files on disk: every text fits the buffer of \<open>printCode\<close>, so the
  contents of the two generated files are the texts of \<open>header_calls\<close> and \<open>impl_calls\<close>, blanks
  aside, and what a scan finds in the calls it finds in the files.
\<close>

section \<open>Every text fits its buffer\<close>

lemma bounded_simps [simp]:
  "bounded (map (\<lambda>x. pc n (f x) (g x)) xs)"
  "(\<And>i. bounded (h i)) \<Longrightarrow> bounded (concat (map h ys))"
  by (induction xs) auto

lemma bounded_comma: "(\<And>cs. cs \<in> set css \<Longrightarrow> bounded cs) \<Longrightarrow> bounded (comma_calls css)"
  by (cases css) (auto simp: comma_calls_def)

lemma ser_bounded: "bounded (ser_member ce i)"
  by (simp add: ser_member_def ser_standard_def ser_string_def ser_named_array_def ser_enum_def
      ser_object_def split: option.split)

lemma deser_bounded: "bounded (deser_member ce xs i)"
proof -
  have "bounded (deser_value st n g i)" for st n g
    by (simp add: deser_value_def deser_numeric_array_def deser_numeric_def deser_checked_def
        split: option.split prod.split)
  moreover have "bounded (deser_map n xs i)" for n
    by (simp add: deser_map_def)
  ultimately have "bounded (deser_standard xs i)"
    by (simp add: deser_standard_def split: option.split prod.split)
  moreover have "bounded (deser_named ce i)"
    by (simp add: deser_named_def deser_enum_map_def deser_array_def deser_enum_def deser_object_def
        split: option.split)
  ultimately show ?thesis by (simp add: deser_member_def)
qed

lemma save_texts_bounded:
  "bounded (fst (saveSerialize ce ob))" "bounded (snd (saveSerialize ce ob))"
  "bounded (fst (saveDeserialize ce ob))" "bounded (snd (saveDeserialize ce ob))"
  by (simp_all add: saveSerialize_def saveSerialize_header_def saveSerialize_impl_def
      saveDeserialize_def saveDeserialize_impl_def ser_bounded deser_bounded)

lemma enum_texts_bounded:
  "bounded (fst (snd (saveTypeScript ob)))" "bounded (snd (snd (saveTypeScript ob)))"
  by (simp_all add: saveTypeScript_def enum_declarations_def enum_implementation_def enum_table_def
      enum_stringify_def enum_unstringify_def split: list.split)

lemma cpp_member_bounded: "bounded (cpp_member io dm b i)"
  by (simp add: cpp_member_def cpp_member_type_def cpp_member_name_def cpp_array_operator_def)

lemma cpp_parts_bounded:
  "bounded (cpp_class_definition b cs ob)" "bounded cpp_end_class" "bounded (cpp_alias ob)"
  "bounded (cpp_enum ob)" "bounded (cpp_equality ob)" "bounded (cpp_inherited_constructor io dm b ob)"
  "bounded (cpp_scratch_array b i)"
  by (auto simp: cpp_class_definition_def cpp_descriptions_def cpp_end_class_def cpp_alias_def
      cpp_enum_def cpp_equality_def cpp_inherited_constructor_def cpp_scratch_array_def)

lemma cpp_assignment_bounded: "bounded (cpp_assignment b ob)"
  by (auto simp: cpp_assignment_def intro!: bounded_comma)

lemma cpp_is_member_bounded: "bounded (cpp_is_member ob)"
  by (simp add: cpp_is_member_def is_member_tests_def split: list.split)

lemma cpp_body_bounded: "bounded (cpp_class_body io dm b ob)"
  by (simp add: cpp_class_body_def cpp_member_bounded cpp_parts_bounded cpp_assignment_bounded
      cpp_is_member_bounded)

lemma cpp_objects_bounded: "bounded (cpp_objects io dm state obs)"
proof (induction obs arbitrary: state)
  case (Cons ob obs)
  have "bounded (fst (EmitCpp.saveCPP io dm state ob))"
    by (simp add: saveCPP_def cpp_parts_bounded cpp_body_bounded split: prod.split)
  with Cons show ?case by (cases "EmitCpp.saveCPP io dm state ob") auto
qed simp

lemma fixed_texts_bounded:
  "bounded (cpp_header_begin dm)" "bounded dom_enum_header_begin" "bounded (dom_enum_impl_begin dm)"
  "bounded dom_serialize_impl_begin" "bounded dom_deserialize_header_begin"
  "bounded dom_deserialize_impl_begin" "bounded (header_tail dm)" "bounded (impl_tail dm)"
  by (simp_all add: cpp_header_begin_def dom_enum_header_begin_def dom_enum_impl_begin_def
      dom_serialize_impl_begin_def dom_deserialize_header_begin_def dom_deserialize_impl_begin_def
      header_tail_def impl_tail_def)

lemma file_calls_bounded: "bounded (header_calls io dm)" "bounded (impl_calls dm)"
  by (simp_all add: header_calls_def impl_calls_def dom_saveCPP_def dom_saveTypeScript_def
      dom_saveSerialize_def dom_saveDeserialize_def Let_def comp_def cpp_objects_bounded
      save_texts_bounded enum_texts_bounded fixed_texts_bounded)

lemma file_calls_no_abort:
  assumes "generates dm"
  shows "no_abort (header_calls io dm)" "no_abort (impl_calls dm)"
  using assms file_texts_no_abort[of io dm] by (auto simp: file_texts_def header_calls_def impl_calls_def)

section \<open>The contents of the files\<close>

lemma printed_contents:
  assumes "no_abort cs" "bounded cs"
  shows "solid (mOutput (printed cs (new_printer f))) = solid (code_text cs)"
    "(\<And>q. d q CHR '' '' = Some q) \<Longrightarrow>
     scan d q (mOutput (printed cs (new_printer f))) = scan_code d q cs"
proof -
  have run: "run_with printCode_buf cs (new_printer f) = Inr (printed cs (new_printer f))"
    using run_code_outcome[OF only_asserts_no_abort[OF assms(1)]] assms(1) by (simp add: run_code_def)
  show "solid (mOutput (printed cs (new_printer f))) = solid (code_text cs)"
    using printer.solid_output[OF assms(2) run] by (simp add: new_printer_def solid_def)
  show "scan d q (mOutput (printed cs (new_printer f))) = scan_code d q cs"
    if "\<And>q. d q CHR '' '' = Some q"
    using printer.scan_output[of d cs "new_printer f" "printed cs (new_printer f)" q q, OF that assms(2) run]
    by (simp add: new_printer_def)
qed

lemma texts_not_blank:
  "solid (code_text (header_calls io dm)) \<noteq> []" "solid (code_text (impl_calls dm)) \<noteq> []"
  by (simp_all add: header_calls_def impl_calls_def dom_saveCPP_def dom_saveTypeScript_def Let_def
      cpp_header_begin_def dom_enum_impl_begin_def pc_def snprintf_def solid_def)

text \<open>The file a printer of a successful save leaves.\<close>

lemma saved_file:
  assumes "CreateDOMDef_saveCPP io temp1 temp2 False st w = Inr w'"
    "saves st" "\<not> mPlainOldData (mDOM st)" "length (mFilename (mDOM st)) \<le> 507"
    "cs = header_calls io (mDOM st) \<and> fmt = ''%s.h'' \<or> cs = impl_calls (mDOM st) \<and> fmt = ''%s.cpp''"
    "writable w (out_file st fmt)"
  shows "generates (mDOM st)"
    "files w' (out_file st fmt) = Some (mOutput (printed cs (new_printer (out_file st fmt))))"
proof -
  let ?cps = "save_printers io temp1 temp2 False st"
  let ?cp = "printed cs (new_printer (out_file st fmt))"
  from save_outcome[of io temp1 temp2 False st w] assms(1) obtain d
    where ok: "save_succeeds st" and w': "w' = finish ?cps (w\<lparr>dirs := d\<rparr>)"
    by (auto split: if_splits)
  then show g: "generates (mDOM st)" using assms(2,3) by (simp add: save_succeeds_def)
  have "?cp \<in> set ?cps"
    using assms(2,3,5) by (auto simp: save_printers_def stl_printers_def)
  then have "settled ?cp w'"
    unfolding w' by (rule finish_settles[OF save_printers_distinct[OF assms(4)]])
  moreover have "writable w' = writable w" by (simp add: w' finish_files)
  moreover have "mOutput ?cp \<noteq> []"
  proof
    assume "mOutput ?cp = []"
    then have "solid (code_text cs) = []"
      using printed_contents(1)[of cs "out_file st fmt"] assms(5) file_calls_no_abort[OF g]
        file_calls_bounded by (auto simp: solid_def[of "[]"])
    then show False using assms(5) texts_not_blank by auto
  qed
  ultimately show "files w' (out_file st fmt) = Some (mOutput ?cp)"
    using assms(6) by (simp add: settled_def)
qed

end
