(* ===== verification/RapidJson.thy ===== *)
theory RapidJson
  imports Prelude
begin

unbundle bit_operations_syntax

text \<open>
  The part of \<open>rapidjson::GenericValue\<close> (src/include/rapidjson/document.h) that the generated code
  calls: the flags of a value, its type tests and accessors, members of objects and elements of
  arrays. \<open>RAPIDJSON_ASSERT\<close> is the fault \<open>AssertFail\<close>. Memory (allocators, the storage classes of
  strings) is not modelled. Floating-point numbers are a type parameter \<open>'d\<close>; what the code does
  with them is the record \<open>float_ops\<close>.
\<close>

section \<open>Flags\<close>

definition kBoolFlag :: u16 where "kBoolFlag = 0x0008"
definition kNumberFlag :: u16 where "kNumberFlag = 0x0010"
definition kIntFlag :: u16 where "kIntFlag = 0x0020"
definition kUintFlag :: u16 where "kUintFlag = 0x0040"
definition kInt64Flag :: u16 where "kInt64Flag = 0x0080"
definition kUint64Flag :: u16 where "kUint64Flag = 0x0100"
definition kDoubleFlag :: u16 where "kDoubleFlag = 0x0200"
definition kStringFlag :: u16 where "kStringFlag = 0x0400"

text \<open>The initial flags; the low three bits are the \<open>Type\<close>.\<close>

definition kNullFlag :: u16 where "kNullFlag = 0"
definition kFalseFlag :: u16 where "kFalseFlag = 1 OR kBoolFlag"
definition kTrueFlag :: u16 where "kTrueFlag = 2 OR kBoolFlag"
definition kObjectFlag :: u16 where "kObjectFlag = 3"
definition kArrayFlag :: u16 where "kArrayFlag = 4"
definition kConstStringFlag :: u16 where "kConstStringFlag = 5 OR kStringFlag"
definition kNumberIntFlag :: u16 where
  "kNumberIntFlag = 6 OR kNumberFlag OR kIntFlag OR kInt64Flag"
definition kNumberUintFlag :: u16 where
  "kNumberUintFlag = 6 OR kNumberFlag OR kUintFlag OR kUint64Flag OR kInt64Flag"
definition kNumberInt64Flag :: u16 where
  "kNumberInt64Flag = 6 OR kNumberFlag OR kInt64Flag"
definition kNumberUint64Flag :: u16 where
  "kNumberUint64Flag = 6 OR kNumberFlag OR kUint64Flag"
definition kNumberDoubleFlag :: u16 where
  "kNumberDoubleFlag = 6 OR kNumberFlag OR kDoubleFlag"

lemmas flag_defs =
  kBoolFlag_def kNumberFlag_def kIntFlag_def kUintFlag_def kInt64Flag_def kUint64Flag_def
  kDoubleFlag_def kStringFlag_def kNullFlag_def kFalseFlag_def kTrueFlag_def kObjectFlag_def
  kArrayFlag_def kConstStringFlag_def kNumberIntFlag_def kNumberUintFlag_def kNumberInt64Flag_def
  kNumberUint64Flag_def kNumberDoubleFlag_def

section \<open>Values\<close>

text \<open>
  A number keeps its flags beside its payload. Strings, arrays and objects have one set of flags
  each; the flags of a string also say where it is stored, which no type test looks at.
\<close>

datatype 'd payload = Whole int | Real 'd

datatype 'd Value =
    Null
  | Boolean bool
  | Number u16 "'d payload"
  | String string
  | Array "'d Value list"
  | Object "(string \<times> 'd Value) list"

fun flags :: "'d Value \<Rightarrow> u16" where
  "flags Null = kNullFlag"
| "flags (Boolean b) = (if b then kTrueFlag else kFalseFlag)"
| "flags (Number f n) = f"
| "flags (String s) = kConstStringFlag"
| "flags (Array xs) = kArrayFlag"
| "flags (Object ms) = kObjectFlag"

text \<open>What the machine does with doubles: \<open>static_cast<float>\<close>, the range test of \<open>IsFloat\<close>, and
  conversion from an integer.\<close>

record 'd float_ops =
  to_float :: "'d \<Rightarrow> 'd"
  in_float_range :: "'d \<Rightarrow> bool"
  of_integer :: "int \<Rightarrow> 'd"

section \<open>Constructors of numbers\<close>

definition Value_int :: "s32 \<Rightarrow> 'd Value" where
  "Value_int i =
     Number (if 0 \<le> sint i then kNumberIntFlag OR kUintFlag OR kUint64Flag else kNumberIntFlag)
       (Whole (sint i))"

definition Value_unsigned :: "u32 \<Rightarrow> 'd Value" where
  "Value_unsigned u =
     Number (if u AND 0x80000000 \<noteq> 0 then kNumberUintFlag
             else kNumberUintFlag OR kIntFlag OR kInt64Flag)
       (Whole (uint u))"

definition Value_int64 :: "s64 \<Rightarrow> 'd Value" where
  "Value_int64 i64 =
     Number
       (if 0 \<le> sint i64 then
          kNumberInt64Flag OR kNumberUint64Flag
          OR (if i64 AND 0xFFFFFFFF00000000 = 0 then kUintFlag else 0)
          OR (if i64 AND 0xFFFFFFFF80000000 = 0 then kIntFlag else 0)
        else if - (2 ^ 31) \<le> sint i64 then kNumberInt64Flag OR kIntFlag
        else kNumberInt64Flag)
       (Whole (sint i64))"

definition Value_uint64 :: "u64 \<Rightarrow> 'd Value" where
  "Value_uint64 u64 =
     Number
       (kNumberUint64Flag
        OR (if u64 AND 0x8000000000000000 = 0 then kInt64Flag else 0)
        OR (if u64 AND 0xFFFFFFFF00000000 = 0 then kUintFlag else 0)
        OR (if u64 AND 0xFFFFFFFF80000000 = 0 then kIntFlag else 0))
       (Whole (uint u64))"

definition Value_double :: "'d \<Rightarrow> 'd Value" where
  "Value_double d = Number kNumberDoubleFlag (Real d)"

section \<open>Type tests\<close>

definition IsBool :: "'d Value \<Rightarrow> bool" where
  "IsBool v \<longleftrightarrow> flags v AND kBoolFlag \<noteq> 0"

definition IsObject :: "'d Value \<Rightarrow> bool" where
  "IsObject v \<longleftrightarrow> flags v = kObjectFlag"

definition IsArray :: "'d Value \<Rightarrow> bool" where
  "IsArray v \<longleftrightarrow> flags v = kArrayFlag"

definition IsNumber :: "'d Value \<Rightarrow> bool" where
  "IsNumber v \<longleftrightarrow> flags v AND kNumberFlag \<noteq> 0"

definition IsInt :: "'d Value \<Rightarrow> bool" where
  "IsInt v \<longleftrightarrow> flags v AND kIntFlag \<noteq> 0"

definition IsUint :: "'d Value \<Rightarrow> bool" where
  "IsUint v \<longleftrightarrow> flags v AND kUintFlag \<noteq> 0"

definition IsInt64 :: "'d Value \<Rightarrow> bool" where
  "IsInt64 v \<longleftrightarrow> flags v AND kInt64Flag \<noteq> 0"

definition IsUint64 :: "'d Value \<Rightarrow> bool" where
  "IsUint64 v \<longleftrightarrow> flags v AND kUint64Flag \<noteq> 0"

definition IsDouble :: "'d Value \<Rightarrow> bool" where
  "IsDouble v \<longleftrightarrow> flags v AND kDoubleFlag \<noteq> 0"

definition IsString :: "'d Value \<Rightarrow> bool" where
  "IsString v \<longleftrightarrow> flags v AND kStringFlag \<noteq> 0"

section \<open>Accessors\<close>

text \<open>The payload as an integer; only read behind a test of the flags.\<close>

fun whole :: "'d Value \<Rightarrow> int" where
  "whole (Number f (Whole i)) = i"
| "whole _ = 0"

definition assert_that :: "bool \<Rightarrow> 'a \<Rightarrow> fault + 'a" where
  "assert_that b x = (if b then Inr x else Inl AssertFail)"

definition GetBool :: "'d Value \<Rightarrow> fault + bool" where
  "GetBool v = assert_that (IsBool v) (flags v = kTrueFlag)"

definition GetInt :: "'d Value \<Rightarrow> fault + int" where
  "GetInt v = assert_that (IsInt v) (whole v)"

definition GetUint :: "'d Value \<Rightarrow> fault + int" where
  "GetUint v = assert_that (IsUint v) (whole v)"

definition GetInt64 :: "'d Value \<Rightarrow> fault + int" where
  "GetInt64 v = assert_that (IsInt64 v) (whole v)"

definition GetUint64 :: "'d Value \<Rightarrow> fault + int" where
  "GetUint64 v = assert_that (IsUint64 v) (whole v)"

definition GetDouble :: "'d float_ops \<Rightarrow> 'd Value \<Rightarrow> fault + 'd" where
  "GetDouble fl v =
     (if \<not> IsNumber v then Inl AssertFail
      else if IsDouble v then (case v of Number f (Real d) \<Rightarrow> Inr d | _ \<Rightarrow> Inl AssertFail)
      else if IsInt v \<or> IsUint v \<or> IsInt64 v then Inr (of_integer fl (whole v))
      else assert_that (IsUint64 v) (of_integer fl (whole v)))"

definition IsFloat :: "'d float_ops \<Rightarrow> 'd Value \<Rightarrow> bool" where
  "IsFloat fl v \<longleftrightarrow>
     flags v AND kDoubleFlag \<noteq> 0 \<and>
     (case GetDouble fl v of Inl _ \<Rightarrow> False | Inr d \<Rightarrow> in_float_range fl d)"

definition GetFloat :: "'d float_ops \<Rightarrow> 'd Value \<Rightarrow> fault + 'd" where
  "GetFloat fl v = map_sum id (to_float fl) (GetDouble fl v)"

definition GetString :: "'d Value \<Rightarrow> fault + string" where
  "GetString v = (case v of String s \<Rightarrow> Inr s | _ \<Rightarrow> Inl AssertFail)"

section \<open>Objects and arrays\<close>

text \<open>\<open>FindMember\<close>: the first member of the name, or none (\<open>MemberEnd\<close>).\<close>

definition FindMember :: "'d Value \<Rightarrow> string \<Rightarrow> fault + 'd Value option" where
  "FindMember v name = (case v of Object ms \<Rightarrow> Inr (map_of ms name) | _ \<Rightarrow> Inl AssertFail)"

definition AddMember :: "'d Value \<Rightarrow> string \<Rightarrow> 'd Value \<Rightarrow> fault + 'd Value" where
  "AddMember v name value =
     (case v of Object ms \<Rightarrow> Inr (Object (ms @ [(name, value)])) | _ \<Rightarrow> Inl AssertFail)"

definition members :: "'d Value \<Rightarrow> fault + (string \<times> 'd Value) list" where
  "members v = (case v of Object ms \<Rightarrow> Inr ms | _ \<Rightarrow> Inl AssertFail)"

definition elements :: "'d Value \<Rightarrow> fault + 'd Value list" where
  "elements v = (case v of Array xs \<Rightarrow> Inr xs | _ \<Rightarrow> Inl AssertFail)"

definition PushBack :: "'d Value \<Rightarrow> 'd Value \<Rightarrow> fault + 'd Value" where
  "PushBack v value = (case v of Array xs \<Rightarrow> Inr (Array (xs @ [value])) | _ \<Rightarrow> Inl AssertFail)"

section \<open>The flags of a number are exact\<close>

lemma high_bits_zero:
  fixes w :: "'a :: len word"
  shows "w AND NOT (mask n) = 0 \<longleftrightarrow> uint w < 2 ^ n"
proof -
  have "w AND NOT (mask n) = 0 \<longleftrightarrow> take_bit n w = w"
  proof
    assume "w AND NOT (mask n) = 0"
    moreover have "w = (w AND mask n) OR (w AND NOT (mask n))"
      by (simp flip: bit.conj_disj_distrib)
    ultimately show "take_bit n w = w" by (simp add: take_bit_eq_mask)
  next
    assume "take_bit n w = w"
    then have "w AND NOT (mask n) = (w AND mask n) AND NOT (mask n)" by (simp add: take_bit_eq_mask)
    also have "\<dots> = 0" by (simp add: and.assoc)
    finally show "w AND NOT (mask n) = 0" .
  qed
  also have "\<dots> \<longleftrightarrow> take_bit n (uint w) = uint w"
    by (simp add: word_uint_eq_iff unsigned_take_bit_eq)
  also have "\<dots> \<longleftrightarrow> uint w < 2 ^ n"
    by (simp add: take_bit_int_eq_self_iff)
  finally show ?thesis .
qed

lemma flag_masks:
  "(0x80000000 :: u32) = NOT (mask 31)" "(0x8000000000000000 :: u64) = NOT (mask 63)"
  "(0xFFFFFFFF00000000 :: u64) = NOT (mask 32)" "(0xFFFFFFFF80000000 :: u64) = NOT (mask 31)"
  by (simp_all add: mask_eq_exp_minus_1)

text \<open>A value stands for a whole number: its flags say exactly which types can hold it.\<close>

definition exact :: "'d Value \<Rightarrow> int \<Rightarrow> bool" where
  "exact v n \<longleftrightarrow>
     whole v = n \<and> IsNumber v \<and> \<not> IsDouble v \<and> \<not> IsBool v \<and> \<not> IsString v \<and>
     (IsInt v \<longleftrightarrow> - (2 ^ 31) \<le> n \<and> n < 2 ^ 31) \<and> (IsUint v \<longleftrightarrow> 0 \<le> n \<and> n < 2 ^ 32) \<and>
     (IsInt64 v \<longleftrightarrow> - (2 ^ 63) \<le> n \<and> n < 2 ^ 63) \<and> (IsUint64 v \<longleftrightarrow> 0 \<le> n \<and> n < 2 ^ 64)"

lemmas type_tests =
  IsBool_def IsNumber_def IsInt_def IsUint_def IsInt64_def IsUint64_def IsDouble_def IsString_def

lemma exact_unsigned: "exact (Value_unsigned u) (uint u)"
  using uint_lt2p[of u] high_bits_zero[of u 31, folded flag_masks]
  by (simp add: exact_def type_tests Value_unsigned_def flag_defs) (use uint_ge_0[of u] in linarith)

lemma exact_uint64: "exact (Value_uint64 w) (uint w)"
  using uint_lt2p[of w] high_bits_zero[of w 31, folded flag_masks] high_bits_zero[of w 32, folded flag_masks]
    high_bits_zero[of w 63, folded flag_masks]
  by (simp add: exact_def type_tests Value_uint64_def flag_defs) (use uint_ge_0[of w] in linarith)

lemma exact_int: "exact (Value_int i) (sint i)"
  using sint_lt[of i] sint_ge[of i]
  by (simp add: exact_def type_tests Value_int_def flag_defs)

lemma exact_int64: "exact (Value_int64 j) (sint j)"
proof (cases "0 \<le> sint j")
  case True
  then have "uint j = sint j"
    using sint_lt[of j] uint_sint[of j] by (simp add: take_bit_int_eq_self)
  with True show ?thesis
    using sint_lt[of j] sint_ge[of j] high_bits_zero[of j 31, folded flag_masks]
      high_bits_zero[of j 32, folded flag_masks]
    by (simp add: exact_def type_tests Value_int64_def flag_defs)
next
  case False
  then show ?thesis
    using sint_lt[of j] sint_ge[of j]
    by (simp add: exact_def type_tests Value_int64_def flag_defs)
qed

text \<open>
  So the constructor that a static type selects makes no difference: a whole number has one value.
\<close>

definition number :: "int \<Rightarrow> 'd Value" where
  "number n = (if 0 \<le> n then Value_uint64 (of_int n) else Value_int64 (of_int n))"

lemma number_cases:
  "number n = Number (
     if n < - (2 ^ 31) then kNumberInt64Flag
     else if n < 0 then kNumberIntFlag
     else if n < 2 ^ 31 then kNumberIntFlag OR kUintFlag OR kUint64Flag
     else if n < 2 ^ 32 then kNumberUintFlag
     else if n < 2 ^ 63 then kNumberInt64Flag OR kUint64Flag
     else kNumberUint64Flag) (Whole n)"
  if "- (2 ^ 63) \<le> n" "n < 2 ^ 64"
proof (cases "0 \<le> n")
  case True
  then have u: "uint (word_of_int n :: u64) = n" using that by (simp add: uint_word_of_int)
  show ?thesis
    using True that high_bits_zero[of "word_of_int n :: u64" 31, folded flag_masks]
      high_bits_zero[of "word_of_int n :: u64" 32, folded flag_masks]
      high_bits_zero[of "word_of_int n :: u64" 63, folded flag_masks]
    by (simp add: number_def Value_uint64_def flag_defs u)
next
  case False
  then have s: "sint (word_of_int n :: s64) = n"
    using that by (subst sint_sbintrunc') (auto intro!: signed_take_bit_int_eq_self)
  show ?thesis
    using False that by (simp add: number_def Value_int64_def flag_defs s)
qed

lemma constructors_agree:
  "Value_int i = number (sint i)" "Value_unsigned u = number (uint u)"
  "Value_int64 j = number (sint j)" "Value_uint64 w = number (uint w)"
proof -
  show "Value_int i = number (sint i)"
    using sint_lt[of i] sint_ge[of i] by (simp add: number_cases Value_int_def flag_defs)
  have "- (2 ^ 63) \<le> uint u" "- (2 ^ 31) \<le> uint u"
    by (rule order_trans[OF _ uint_ge_0], simp)+
  then have u: "- (2 ^ 63) \<le> uint u" "uint u < 2 ^ 64" "\<not> uint u < - (2 ^ 31)" "\<not> uint u < 0" "uint u < 2 ^ 32"
    using uint_lt2p[of u] by (simp_all add: not_less)
  show "Value_unsigned u = number (uint u)"
    unfolding number_cases[OF u(1,2)] if_not_P[OF u(3)] if_not_P[OF u(4)] if_P[OF u(5)]
    using high_bits_zero[of u 31, folded flag_masks]
    by (simp add: Value_unsigned_def flag_defs)
  show "Value_uint64 w = number (uint w)"
    by (simp add: number_def)
  have "of_int (sint j) = j" by simp
  moreover have "(of_int (sint j) :: u64) = j" by simp
  ultimately show "Value_int64 j = number (sint j)"
  proof (cases "0 \<le> sint j")
    case True
    then have "uint j = sint j"
      using sint_lt[of j] uint_sint[of j] by (simp add: take_bit_int_eq_self)
    with True sint_lt[of j] show ?thesis
      using high_bits_zero[of j 31, folded flag_masks] high_bits_zero[of j 32, folded flag_masks]
      by (simp add: number_cases Value_int64_def flag_defs)
  qed (simp add: number_def)
qed

text \<open>
  C36. The type of a JSON number. Whatever C++ integer type a number is constructed from, its flags
  say exactly which of the four integer types can hold it, it is no double, boolean or string, and
  the four constructors build the same value for the same number; so what a reader may ask of it
  depends on the number only.
\<close>
theorem number_flags_exact:
  "exact (Value_int i) (sint i) \<and> exact (Value_unsigned u) (uint u) \<and>
   exact (Value_int64 j) (sint j) \<and> exact (Value_uint64 w) (uint w) \<and>
   Value_int i = number (sint i) \<and> Value_unsigned u = number (uint u) \<and>
   Value_int64 j = number (sint j) \<and> Value_uint64 w = number (uint w)"
  by (intro conjI) (rule exact_int exact_unsigned exact_int64 exact_uint64 constructors_agree)+

lemma exact_number: "exact (number n) n" if "- (2 ^ 63) \<le> n" "n < 2 ^ 64"
proof (cases "0 \<le> n")
  case True
  then have "uint (word_of_int n :: u64) = n" using that by (simp add: uint_word_of_int)
  then show ?thesis using True exact_uint64[of "word_of_int n :: u64"] by (simp add: number_def)
next
  case False
  then have "sint (word_of_int n :: s64) = n"
    using that by (subst sint_sbintrunc') (auto intro!: signed_take_bit_int_eq_self)
  then show ?thesis using False exact_int64[of "word_of_int n :: s64"] by (simp add: number_def)
qed

text \<open>What the tests and accessors do on the values a serializer makes.\<close>

lemma tests_number:
  assumes "- (2 ^ 63) \<le> n" "n < 2 ^ 64"
  shows "IsString (number n) = False" "IsNumber (number n) = True" "IsDouble (number n) = False"
    "IsBool (number n) = False" "IsFloat fl (number n) = False" "IsArray (number n) = False"
    "GetUint64 (number n) = assert_that (0 \<le> n) n"
    "GetInt64 (number n) = assert_that (n < 2 ^ 63) n"
    "GetUint (number n) = assert_that (0 \<le> n \<and> n < 2 ^ 32) n"
proof -
  note e = exact_number[OF assms, unfolded exact_def]
  show "IsString (number n) = False" "IsNumber (number n) = True" "IsDouble (number n) = False"
    "IsBool (number n) = False"
    by (simp_all add: e)
  show "IsFloat fl (number n) = False"
    by (simp add: e IsFloat_def flip: IsDouble_def)
  show "IsArray (number n) = False"
    by (simp add: IsArray_def number_cases[OF assms] flag_defs)
  show "GetUint64 (number n) = assert_that (0 \<le> n) n" "GetInt64 (number n) = assert_that (n < 2 ^ 63) n"
    "GetUint (number n) = assert_that (0 \<le> n \<and> n < 2 ^ 32) n"
    using assms by (simp_all add: e GetUint64_def GetInt64_def GetUint_def)
qed

lemma tests_other [simp]:
  "IsString Null = False" "IsNumber Null = False" "IsArray Null = False" "IsBool Null = False"
  "IsString (Boolean b) = False" "IsNumber (Boolean b) = False" "IsBool (Boolean b) = True"
  "IsArray (Boolean b) = False" "GetBool (Boolean b) = Inr b"
  "IsString (Value_double x) = False" "IsNumber (Value_double x) = True" "IsDouble (Value_double x) = True"
  "IsString (String s) = True" "IsNumber (String s) = False" "IsArray (String s) = False"
  "GetString (String s) = Inr s"
  "IsString (Array vs) = False" "IsNumber (Array vs) = False" "IsArray (Array vs) = True" "IsBool (Array vs) = False"
  "IsString (Object ms) = False" "IsNumber (Object ms) = False" "IsArray (Object ms) = False"
  by (simp_all add: type_tests IsArray_def GetBool_def GetString_def assert_that_def Value_double_def flag_defs)

lemma tests_double [simp]:
  "GetDouble fl (Value_double x) = Inr x" "GetFloat fl (Value_double x) = Inr (to_float fl x)"
  "IsFloat fl (Value_double x) = in_float_range fl x"
  by (simp_all add: GetDouble_def GetFloat_def IsFloat_def type_tests Value_double_def flag_defs)

end
