(* ===== verification/RapidItoa.thy ===== *)
theory RapidItoa
  imports Prelude
begin

text \<open>
  The integer printers of RapidJSON's \<open>Writer\<close> (src/include/rapidjson/internal/itoa.h). A function
  gives the characters it stores at \<open>buffer\<close>, in order. They look digits up in pairs, in a table of
  200 characters.
\<close>

section \<open>The routines\<close>

definition cDigitsLut :: string where
  "cDigitsLut =
     ''00010203040506070809'' @ ''10111213141516171819'' @ ''20212223242526272829''
     @ ''30313233343536373839'' @ ''40414243444546474849'' @ ''50515253545556575859''
     @ ''60616263646566676869'' @ ''70717273747576777879'' @ ''80818283848586878889''
     @ ''90919293949596979899''"

definition lut :: "u32 \<Rightarrow> char" where
  "lut i = cDigitsLut ! unat i"

text \<open>A store that happens under a condition.\<close>

definition put_if :: "bool \<Rightarrow> char \<Rightarrow> string" where
  "put_if b c = (if b then [c] else [])"

definition below_10000 :: "u32 \<Rightarrow> string" where
  "below_10000 v =
     (let d1 = push_bit 1 (v div 100); d2 = push_bit 1 (v mod 100)
      in put_if (v \<ge> 1000) (lut d1) @ put_if (v \<ge> 100) (lut (d1 + 1)) @ put_if (v \<ge> 10) (lut d2)
         @ [lut (d2 + 1)])"

text \<open>Four digits, two table pairs.\<close>

definition four_digits :: "u32 \<Rightarrow> string" where
  "four_digits c =
     (let d3 = push_bit 1 (c div 100); d4 = push_bit 1 (c mod 100)
      in [lut d3, lut (d3 + 1), lut d4, lut (d4 + 1)])"

definition below_100000000 :: "u32 \<Rightarrow> string" where
  "below_100000000 value =
     (let b = value div 10000; c = value mod 10000;
          d1 = push_bit 1 (b div 100); d2 = push_bit 1 (b mod 100)
      in put_if (value \<ge> 10000000) (lut d1) @ put_if (value \<ge> 1000000) (lut (d1 + 1))
         @ put_if (value \<ge> 100000) (lut d2) @ [lut (d2 + 1)] @ four_digits c)"

definition zero_plus :: "u32 \<Rightarrow> char" where
  "zero_plus a = char_of (48 + unat a)"

definition u32toa :: "u32 \<Rightarrow> string" where
  "u32toa value =
     (if value < 10000 then below_10000 value
      else if value < 100000000 then below_100000000 value
      else
        (let a = value div 100000000; value = value mod 100000000;
             b = value div 10000; c = value mod 10000
         in (if a \<ge> 10 then (let i = push_bit 1 a in [lut i, lut (i + 1)]) else [zero_plus a])
            @ four_digits b @ four_digits c))"

definition i32toa :: "s32 \<Rightarrow> string" where
  "i32toa value =
     (if sint value < 0 then CHR ''-'' # u32toa (NOT value + 1) else u32toa value)"

definition kTen8 :: u64 where "kTen8 = 100000000"
definition kTen16 :: u64 where "kTen16 = kTen8 * kTen8"

text \<open>The branch for nine to sixteen digits.\<close>

definition below_kTen16 :: "u64 \<Rightarrow> string" where
  "below_kTen16 value =
     (let v0 = ucast (value div kTen8) :: u32; v1 = ucast (value mod kTen8) :: u32;
          b0 = v0 div 10000; c0 = v0 mod 10000;
          d1 = push_bit 1 (b0 div 100); d2 = push_bit 1 (b0 mod 100);
          d3 = push_bit 1 (c0 div 100); d4 = push_bit 1 (c0 mod 100);
          b1 = v1 div 10000; c1 = v1 mod 10000
      in put_if (value \<ge> kTen8 * 10000000) (lut d1) @ put_if (value \<ge> kTen8 * 1000000) (lut (d1 + 1))
         @ put_if (value \<ge> kTen8 * 100000) (lut d2) @ put_if (value \<ge> kTen8 * 10000) (lut (d2 + 1))
         @ put_if (value \<ge> kTen8 * 1000) (lut d3) @ put_if (value \<ge> kTen8 * 100) (lut (d3 + 1))
         @ put_if (value \<ge> kTen8 * 10) (lut d4) @ [lut (d4 + 1)]
         @ four_digits b1 @ four_digits c1)"

text \<open>The leading one to four digits of a longer number.\<close>

definition leading :: "u32 \<Rightarrow> string" where
  "leading a =
     (if a < 10 then [zero_plus a]
      else if a < 100 then (let i = push_bit 1 a in [lut i, lut (i + 1)])
      else if a < 1000 then
        (let i = push_bit 1 (a mod 100) in [zero_plus (a div 100), lut i, lut (i + 1)])
      else
        (let i = push_bit 1 (a div 100); j = push_bit 1 (a mod 100)
         in [lut i, lut (i + 1), lut j, lut (j + 1)]))"

definition u64toa :: "u64 \<Rightarrow> string" where
  "u64toa value =
     (if value < kTen8 then
        (let v = ucast value :: u32
         in if v < 10000 then below_10000 v else below_100000000 v)
      else if value < kTen16 then below_kTen16 value
      else
        (let a = ucast (value div kTen16) :: u32; value = value mod kTen16;
             v0 = ucast (value div kTen8) :: u32; v1 = ucast (value mod kTen8) :: u32
         in leading a
            @ four_digits (v0 div 10000) @ four_digits (v0 mod 10000)
            @ four_digits (v1 div 10000) @ four_digits (v1 mod 10000)))"

definition i64toa :: "s64 \<Rightarrow> string" where
  "i64toa value =
     (if sint value < 0 then CHR ''-'' # u64toa (NOT value + 1) else u64toa value)"

section \<open>They print decimal numbers\<close>

lemma length_cDigitsLut: "length cDigitsLut = 200"
  by (simp add: cDigitsLut_def)

lemma lut_table: "\<forall>v \<in> set [0..<100]. cDigitsLut ! (2 * v) = digit_char (v div 10) \<and>
    cDigitsLut ! (2 * v + 1) = digit_char (v mod 10)"
  by code_simp

lemma lut_pair:
  assumes "unat d < 100"
  shows "lut (push_bit 1 d) = digit_char (unat d div 10)"
    "lut (push_bit 1 d + 1) = digit_char (unat d mod 10)"
proof -
  have "unat (push_bit 1 d) = 2 * unat d"
    using assms by (simp add: push_bit_eq_mult unat_word_ariths)
  moreover from this have "unat (push_bit 1 d + 1) = 2 * unat d + 1"
    using assms by (simp add: unat_word_ariths)
  ultimately show "lut (push_bit 1 d) = digit_char (unat d div 10)"
    "lut (push_bit 1 d + 1) = digit_char (unat d mod 10)"
    using lut_table assms by (simp_all add: lut_def)
qed

lemma zero_plus_digit: "unat a < 10 \<Longrightarrow> zero_plus a = digit_char (unat a)"
  by (simp add: zero_plus_def digit_char_def)

text \<open>Leading zeros are left out digit by digit.\<close>

definition shown :: "nat \<Rightarrow> nat \<Rightarrow> string" where
  "shown n j = put_if (10 ^ j \<le> n) (digit_char (n div 10 ^ j mod 10))"

lemma dec_shown:
  "n < 10 ^ Suc k \<Longrightarrow> dec n = concat (map (shown n) (rev [1..<Suc k])) @ [digit_char (n mod 10)]"
proof (induction k arbitrary: n)
  case 0
  then show ?case by (subst dec.simps) simp
next
  case (Suc k)
  have shift: "rev [1..<Suc (Suc k)] = map Suc (rev [1..<Suc k]) @ [1]"
    by (simp only: rev_map[symmetric] map_Suc_upt) (simp add: upt_conv_Cons del: upt_Suc)
  show ?case
  proof (cases "n < 10")
    case True
    have none: "shown n j = []" if "j \<in> set (rev [1..<Suc (Suc k)])" for j
    proof -
      have "10 ^ 1 \<le> (10 :: nat) ^ j" using that by (intro power_increasing) auto
      then show ?thesis using True by (simp add: shown_def put_if_def)
    qed
    then have "concat (map (shown n) (rev [1..<Suc (Suc k)])) = []"
      unfolding concat_eq_Nil_conv by auto
    then show ?thesis using True by (subst dec.simps) simp
  next
    case False
    have step: "shown (n div 10) j = shown n (Suc j)" for j
      by (simp add: shown_def put_if_def div_mult2_eq less_eq_div_iff_mult_less_eq mult.commute)
    have "dec n = dec (n div 10) @ [digit_char (n mod 10)]"
      using False by (subst dec.simps) simp
    also have "dec (n div 10) = concat (map (shown (n div 10)) (rev [1..<Suc k])) @ [digit_char (n div 10 mod 10)]"
      using Suc.prems by (intro Suc.IH) simp
    also have "[digit_char (n div 10 mod 10)] = shown n 1"
      using False by (simp add: shown_def put_if_def)
    also have "map (shown (n div 10)) (rev [1..<Suc k]) = map (shown n) (map Suc (rev [1..<Suc k]))"
      by (simp add: step)
    finally show ?thesis unfolding shift by simp
  qed
qed

lemma nat_digits:
  "n mod 100 div 10 = n div 10 mod (10 :: nat)" "n mod 100 mod 10 = n mod (10 :: nat)"
  "n div 100 div 10 = n div (1000 :: nat)"
  using mod_mult2_eq[of n 10 10] div_mult2_eq[of n 100 10] by simp_all

lemma hundred: "unat (100 :: u32) = 100"
  by simp

lemma pair_digits:
  fixes v :: u32
  assumes "v < 10000"
  shows "lut (push_bit 1 (v div 100)) = digit_char (unat v div 1000 mod 10)"
    "lut (push_bit 1 (v div 100) + 1) = digit_char (unat v div 100 mod 10)"
    "lut (push_bit 1 (v mod 100)) = digit_char (unat v div 10 mod 10)"
    "lut (push_bit 1 (v mod 100) + 1) = digit_char (unat v mod 10)"
proof -
  have "unat v < 10000" using assms by (simp add: word_less_nat_alt)
  then have "unat (v div 100) < 100" "unat v div 1000 mod 10 = unat v div 1000"
    by (simp_all add: unat_div less_mult_imp_div_less)
  moreover have "unat (v mod 100) < 100" by (simp add: unat_mod)
  ultimately show "lut (push_bit 1 (v div 100)) = digit_char (unat v div 1000 mod 10)"
    "lut (push_bit 1 (v div 100) + 1) = digit_char (unat v div 100 mod 10)"
    "lut (push_bit 1 (v mod 100)) = digit_char (unat v div 10 mod 10)"
    "lut (push_bit 1 (v mod 100) + 1) = digit_char (unat v mod 10)"
    using lut_pair[of "v div 100"] lut_pair[of "v mod 100"]
    by (simp_all only: unat_div unat_mod nat_digits hundred)
qed

lemma pad_dec_4:
  "pad_dec 4 n = [digit_char (n div 1000 mod 10), digit_char (n div 100 mod 10),
     digit_char (n div 10 mod 10), digit_char (n mod 10)]"
proof -
  have four: "(4 :: nat) = Suc (Suc (Suc (Suc 0)))" by simp
  show ?thesis unfolding four by (simp flip: div_mult2_eq)
qed

lemma four_digits_text: "c < 10000 \<Longrightarrow> four_digits c = pad_dec 4 (unat c)"
  by (simp only: four_digits_def Let_def pair_digits pad_dec_4)

lemma upto_3: "rev [1..<Suc 3] = [3, 2, 1 :: nat]"
  by code_simp

lemma below_10000_text: "v < 10000 \<Longrightarrow> below_10000 v = dec (unat v)"
  using dec_shown[of "unat v" 3, unfolded upto_3]
  by (simp only: below_10000_def Let_def pair_digits)
    (simp add: shown_def word_less_nat_alt word_le_nat_alt)

lemma le_quotient: "0 < k \<Longrightarrow> j * k \<le> n \<longleftrightarrow> j \<le> n div (k :: nat)"
  by (simp add: less_eq_div_iff_mult_less_eq mult.commute)

lemma below_100000000_text:
  assumes "10000 \<le> v" "v < 100000000"
  shows "below_100000000 v = dec (unat v)"
proof -
  have v: "10000 \<le> unat v" "unat v < 100000000"
    using assms by (simp_all add: word_less_nat_alt word_le_nat_alt)
  have b: "v div 10000 < 10000" "v mod 10000 < 10000"
    using v by (simp_all add: word_less_nat_alt unat_div unat_mod less_mult_imp_div_less)
  have "v \<ge> 10000000 \<longleftrightarrow> v div 10000 \<ge> 1000" "v \<ge> 1000000 \<longleftrightarrow> v div 10000 \<ge> 100"
    "v \<ge> 100000 \<longleftrightarrow> v div 10000 \<ge> 10"
    using le_quotient[of 10000 1000 "unat v"] le_quotient[of 10000 100 "unat v"] le_quotient[of 10000 10 "unat v"]
    by (simp_all add: word_le_nat_alt unat_div)
  then have "below_100000000 v = below_10000 (v div 10000) @ four_digits (v mod 10000)"
    by (simp add: below_100000000_def below_10000_def Let_def)
  also have "\<dots> = dec (unat v div 10 ^ 4) @ pad_dec 4 (unat v mod 10 ^ 4)"
    using below_10000_text[OF b(1)] four_digits_text[OF b(2)] by (simp add: unat_div unat_mod)
  also have "\<dots> = dec (unat v)"
    using v(1) by (intro dec_split[symmetric]) (simp add: div_greater_zero_iff)
  finally show ?thesis .
qed

lemma eight_digits:
  assumes "w < (100000000 :: u32)"
  shows "four_digits (w div 10000) @ four_digits (w mod 10000) = pad_dec 8 (unat w)"
proof -
  have "unat w < 100000000" using assms by (simp add: word_less_nat_alt)
  then have b: "w div 10000 < 10000" "w mod 10000 < 10000"
    by (simp_all add: word_less_nat_alt unat_div unat_mod less_mult_imp_div_less)
  show ?thesis
    using four_digits_text[OF b(1)] four_digits_text[OF b(2)] pad_dec_add[of 4 4 "unat w"]
    by (simp add: unat_div unat_mod)
qed

lemma leading_text:
  assumes "a < 10000"
  shows "leading a = dec (unat a)"
proof -
  have a: "unat a < 10000" using assms by (simp add: word_less_nat_alt)
  note shown = dec_shown[of "unat a" 3, unfolded upto_3]
  consider "unat a < 10" | "10 \<le> unat a" "unat a < 100" | "100 \<le> unat a" "unat a < 1000"
    | "1000 \<le> unat a" by linarith
  then show ?thesis
  proof cases
    case 1
    then show ?thesis
      by (subst dec.simps) (simp add: leading_def word_less_nat_alt zero_plus_digit)
  next
    case 2
    then show ?thesis
      using shown a lut_pair[of a]
      by (simp add: leading_def word_less_nat_alt shown_def put_if_def Let_def del: push_bit_Suc push_bit_numeral)
  next
    case 3
    then have q: "unat (a div 100) < 10" by (simp add: unat_div less_mult_imp_div_less)
    show ?thesis
      using 3 shown a pair_digits(3,4)[OF assms] zero_plus_digit[OF q]
      by (simp add: leading_def word_less_nat_alt shown_def put_if_def Let_def unat_div)
  next
    case 4
    then show ?thesis
      using shown a pair_digits[OF assms]
      by (simp add: leading_def word_less_nat_alt shown_def put_if_def Let_def)
  qed
qed

lemma u32toa_prints: "u32toa v = dec (unat v)"
proof -
  consider "v < 10000" | "10000 \<le> v" "v < 100000000" | "100000000 \<le> v" by fastforce
  then show ?thesis
  proof cases
    case 1
    then show ?thesis by (simp add: u32toa_def below_10000_text)
  next
    case 2
    then show ?thesis by (simp add: u32toa_def below_100000000_text leD)
  next
    case 3
    then have v: "100000000 \<le> unat v" by (simp add: word_le_nat_alt)
    have "unat v < 2 ^ LENGTH(32)" by (rule unsigned_less)
    then have a: "unat (v div 100000000) < 43" by (simp add: unat_div)
    then have small: "v div 100000000 < 10000" "v div 100000000 < 100"
      by (simp_all add: word_less_nat_alt)
    have "(if v div 100000000 \<ge> 10 then [lut (push_bit 1 (v div 100000000)), lut (push_bit 1 (v div 100000000) + 1)]
        else [zero_plus (v div 100000000)]) = leading (v div 100000000)"
      using small(2) by (auto simp: leading_def Let_def)
    moreover have "v mod 100000000 < 100000000" by (simp add: word_less_nat_alt unat_mod)
    moreover have "\<not> v < 10000" "\<not> v < 100000000"
      using v by (simp_all add: word_less_nat_alt)
    ultimately have "u32toa v = leading (v div 100000000)
        @ four_digits (v mod 100000000 div 10000) @ four_digits (v mod 100000000 mod 10000)"
      by (simp only: u32toa_def Let_def if_False)
    also have "\<dots> = dec (unat v div 10 ^ 8) @ pad_dec 8 (unat v mod 10 ^ 8)"
      using leading_text[OF small(1)] eight_digits[of "v mod 100000000"] \<open>v mod 100000000 < 100000000\<close>
      by (simp add: unat_div unat_mod)
    also have "\<dots> = dec (unat v)"
      using v by (intro dec_split[symmetric]) (simp add: div_greater_zero_iff)
    finally show ?thesis .
  qed
qed

lemma mod_div: "0 < a \<Longrightarrow> n mod (a * b) div a = n div a mod (b :: nat)"
  by (simp add: mod_mult2_eq)

text \<open>The two halves of a 64-bit value below \<open>10 ^ 16\<close>.\<close>

lemma unat_ucast_small: "unat (w :: u64) < 2 ^ 32 \<Longrightarrow> unat (ucast w :: u32) = unat w"
  by (simp add: unsigned_ucast_eq take_bit_nat_eq_self)

lemma halves:
  fixes w :: u64
  assumes "w < kTen16"
  shows "unat (ucast (w div kTen8) :: u32) = unat w div 10 ^ 8"
    "unat (ucast (w mod kTen8) :: u32) = unat w mod 10 ^ 8"
    "unat w div 10 ^ 8 < 10 ^ 8"
proof -
  have "unat w < 10000000000000000" using assms by (simp add: kTen16_def kTen8_def word_less_nat_alt)
  then show q: "unat w div 10 ^ 8 < 10 ^ 8" by (simp add: less_mult_imp_div_less)
  then show "unat (ucast (w div kTen8) :: u32) = unat w div 10 ^ 8"
    by (subst unat_ucast_small) (simp_all add: kTen8_def unat_div)
  show "unat (ucast (w mod kTen8) :: u32) = unat w mod 10 ^ 8"
    by (subst unat_ucast_small) (simp_all add: kTen8_def unat_mod less_trans[OF mod_less_divisor])
qed

lemma upto_7: "rev [1..<Suc 7] = [7, 6, 5, 4, 3, 2, 1 :: nat]"
  by code_simp

lemma below_kTen16_text:
  assumes "kTen8 \<le> w" "w < kTen16"
  shows "below_kTen16 w = dec (unat w)"
proof -
  define v0 v1 :: u32 where "v0 = ucast (w div kTen8)" and "v1 = ucast (w mod kTen8)"
  note half = halves[OF assms(2), folded v0_def v1_def]
  have v: "v1 < 100000000" "unat v0 < 10 ^ 8" using half by (simp_all add: word_less_nat_alt)
  then have b: "v0 div 10000 < 10000" "v0 mod 10000 < 10000"
    by (simp_all add: word_less_nat_alt unat_div unat_mod less_mult_imp_div_less)
  have high: "unat v0 div 10000 div 1000 = unat v0 div 10000000" "unat v0 div 10000 div 100 = unat v0 div 1000000"
    "unat v0 div 10000 div 10 = unat v0 div 100000"
    by (simp_all flip: div_mult2_eq)
  have low: "unat (v0 mod 10000) div 1000 mod 10 = unat v0 div 1000 mod 10"
    "unat (v0 mod 10000) div 100 mod 10 = unat v0 div 100 mod 10"
    "unat (v0 mod 10000) div 10 mod 10 = unat v0 div 10 mod 10" "unat (v0 mod 10000) mod 10 = unat v0 mod 10"
    using mod_div[of 1000 "unat v0" 10] mod_div[of 100 "unat v0" 100] mod_div[of 10 "unat v0" 1000]
    by (simp_all add: unat_mod mod_mod_cancel)
  have le: "kTen8 * of_nat j \<le> w \<longleftrightarrow> j \<le> unat v0" if "j \<le> 10000000" for j
  proof -
    have "unat (kTen8 * of_nat j) = 10 ^ 8 * j"
      using that by (simp add: kTen8_def unat_word_ariths unat_of_nat)
    then show ?thesis
      using le_quotient[of "10 ^ 8" j "unat w"] half(1) by (simp add: word_le_nat_alt mult.commute)
  qed
  have "below_kTen16 w = dec (unat v0) @ four_digits (v1 div 10000) @ four_digits (v1 mod 10000)"
    using le[of 10000000] le[of 1000000] le[of 100000] le[of 10000] le[of 1000] le[of 100] le[of 10]
      dec_shown[of "unat v0" 7, unfolded upto_7] v(2)
    unfolding below_kTen16_def Let_def v0_def[symmetric] v1_def[symmetric] pair_digits[OF b(1)] pair_digits[OF b(2)]
    by (simp add: shown_def high low unat_div)
  also have "\<dots> = dec (unat w div 10 ^ 8) @ pad_dec 8 (unat w mod 10 ^ 8)"
    using eight_digits[OF v(1)] half by simp
  also have "\<dots> = dec (unat w)"
    using assms(1) by (intro dec_split[symmetric]) (simp add: div_greater_zero_iff kTen8_def word_le_nat_alt)
  finally show ?thesis .
qed

lemma u64toa_prints: "u64toa w = dec (unat w)"
proof -
  consider "w < kTen8" | "kTen8 \<le> w" "w < kTen16" | "kTen16 \<le> w" by fastforce
  then show ?thesis
  proof cases
    case 1
    then have "unat w < 100000000" by (simp add: kTen8_def word_less_nat_alt)
    then have v: "unat (ucast w :: u32) = unat w" "(ucast w :: u32) < 100000000"
      by (simp_all add: unat_ucast_small word_less_nat_alt)
    show ?thesis
      using 1 v below_10000_text[of "ucast w"] below_100000000_text[of "ucast w"]
      by (auto simp: u64toa_def Let_def not_less)
  next
    case 2
    then show ?thesis by (simp add: u64toa_def not_less[symmetric] below_kTen16_text)
  next
    case 3
    define r where "r = w mod kTen16"
    have k: "unat kTen16 = 10 ^ 16" by (simp add: kTen16_def kTen8_def)
    have "unat w < 2 ^ LENGTH(64)" by (rule unsigned_less)
    then have "unat w < 10000 * 10 ^ 16" by simp
    then have q: "unat w div 10 ^ 16 < 10000" by (rule less_mult_imp_div_less)
    then have a: "unat (ucast (w div kTen16) :: u32) = unat w div 10 ^ 16" "unat w div 10 ^ 16 < 10000"
      using unat_ucast_small[of "w div kTen16"] by (simp_all add: unat_div k)
    have r: "r < kTen16" "unat r = unat w mod 10 ^ 16"
      by (simp_all add: r_def word_less_nat_alt unat_mod k)
    note half = halves[OF r(1)]
    have "leading (ucast (w div kTen16)) = dec (unat w div 10 ^ 16)"
      using leading_text[of "ucast (w div kTen16)"] a by (simp add: word_less_nat_alt)
    moreover have small: "ucast (r div kTen8) < (100000000 :: u32)" "ucast (r mod kTen8) < (100000000 :: u32)"
      using half by (simp_all add: word_less_nat_alt)
    moreover have "\<not> w < kTen8" "\<not> w < kTen16"
      using 3 by (simp_all add: word_le_nat_alt word_less_nat_alt kTen16_def kTen8_def)
    moreover from this have "u64toa w = leading (ucast (w div kTen16))
        @ (four_digits (ucast (r div kTen8) div 10000) @ four_digits (ucast (r div kTen8) mod 10000))
        @ (four_digits (ucast (r mod kTen8) div 10000) @ four_digits (ucast (r mod kTen8) mod 10000))"
      by (simp only: u64toa_def Let_def if_False append_assoc r_def)
    ultimately have "u64toa w = dec (unat w div 10 ^ 16) @ pad_dec 8 (unat r div 10 ^ 8) @ pad_dec 8 (unat r mod 10 ^ 8)"
      by (simp only: eight_digits[OF small(1)] eight_digits[OF small(2)] half(1,2))
    also have "\<dots> = dec (unat w div 10 ^ 16) @ pad_dec 16 (unat w mod 10 ^ 16)"
      using pad_dec_add[of 8 8 "unat r"] r(2) by simp
    also have "\<dots> = dec (unat w)"
      using 3 by (intro dec_split[symmetric]) (simp add: div_greater_zero_iff k word_le_nat_alt)
    finally show ?thesis .
  qed
qed

lemma negated: "NOT w + 1 = - (w :: 'a :: len word)"
  by (simp add: minus_eq_not_plus_1)

lemma i32toa_prints: "i32toa i = dec_int (sint i)"
  by (simp add: u32toa_prints i32toa_def dec_int_def negated unat_minus_negative unat_nonnegative)

lemma i64toa_prints: "i64toa j = dec_int (sint j)"
  by (simp add: u64toa_prints i64toa_def dec_int_def negated unat_minus_negative unat_nonnegative)

text \<open>
  C37. RapidJSON's integer printers. For every value of the four widths, what is stored at the buffer
  is exactly its decimal text, without leading zeros and with a minus sign when it is negative; the
  most negative values included.
\<close>
theorem rapid_itoa_decimal:
  "u32toa u = dec (unat u) \<and> i32toa i = dec_int (sint i) \<and>
   u64toa w = dec (unat w) \<and> i64toa j = dec_int (sint j)"
  by (intro conjI) (rule u32toa_prints i32toa_prints u64toa_prints i64toa_prints)+

end
