(* ===== verification/RapidWriter.thy ===== *)
theory RapidWriter
  imports RapidJson RapidItoa
begin

text \<open>
  How RapidJSON turns a value into text: \<open>GenericValue::Accept\<close> (src/include/rapidjson/document.h)
  sends the events of a value to a handler, and \<open>Writer\<close> (src/include/rapidjson/writer.h) is the
  handler that writes. The output stream is the text written so far; the flags are the defaults, so
  encodings are not validated, and infinities and NaNs are not written.
\<close>

section \<open>Events\<close>

datatype 'd event =
    NullE | BoolE bool | IntE s32 | UintE u32 | Int64E s64 | Uint64E u64 | DoubleE 'd
  | StringE string | StartObject | KeyE string | EndObject nat | StartArray | EndArray nat

text \<open>
  The handler's return value says whether to go on. The event of a number follows its flags; a value
  with the double flag has a double as its payload.
\<close>

definition number_event :: "u16 \<Rightarrow> 'd payload \<Rightarrow> 'd event" where
  "number_event f p =
     (let v = Number f p; i = whole v
      in case p of
           Real d \<Rightarrow> DoubleE d
         | Whole _ \<Rightarrow>
             if IsInt v then IntE (of_int i)
             else if IsUint v then UintE (of_int i)
             else if IsInt64 v then Int64E (of_int i)
             else Uint64E (of_int i))"

primrec Accept :: "'d Value \<Rightarrow> 'd event list" where
  "Accept Null = [NullE]"
| "Accept (Boolean b) = [BoolE b]"
| "Accept (Object ms) =
     StartObject # concat (map (\<lambda>(k, es). KeyE k # es) (map (map_prod id Accept) ms))
     @ [EndObject (length ms)]"
| "Accept (Array xs) = StartArray # concat (map Accept xs) @ [EndArray (length xs)]"
| "Accept (String s) = [StringE s]"
| "Accept (Number f p) = [number_event f p]"

fun send ::
  "('d event \<Rightarrow> 's \<Rightarrow> fault + (bool \<times> 's)) \<Rightarrow> 'd event list \<Rightarrow> 's \<Rightarrow> fault + (bool \<times> 's)"
where
  "send handle [] s = Inr (True, s)"
| "send handle (e # es) s =
     bind_fault (handle e s) (\<lambda>(ok, s'). if ok then send handle es s' else Inr (False, s'))"

section \<open>Strings\<close>

definition quote_char :: char where "quote_char = CHR 0x22"
definition backslash :: char where "backslash = CHR 0x5C"

definition hexDigits :: string where
  "hexDigits = ''0123456789ABCDEF''"

text \<open>The table \<open>escape\<close> of \<open>WriteString\<close>; zero is \<open>None\<close>.\<close>

definition write_escape :: "char \<Rightarrow> char option" where
  "write_escape c =
     (if c = CHR 0x08 then Some CHR ''b'' else if c = CHR 0x09 then Some CHR ''t''
      else if c = CHR 0x0A then Some CHR ''n'' else if c = CHR 0x0C then Some CHR ''f''
      else if c = CHR 0x0D then Some CHR ''r''
      else if code_of c < 32 then Some CHR ''u''
      else if c = quote_char then Some quote_char
      else if c = backslash then Some backslash
      else None)"

definition write_char :: "char \<Rightarrow> string" where
  "write_char c =
     (case write_escape c of
        None \<Rightarrow> [c]
      | Some e \<Rightarrow>
          [backslash, e]
          @ (if e = CHR ''u'' then
               [CHR ''0'', CHR ''0'', hexDigits ! (code_of c div 16), hexDigits ! (code_of c mod 16)]
             else []))"

definition WriteString :: "string \<Rightarrow> string" where
  "WriteString s = quote_char # concat (map write_char s) @ [quote_char]"

section \<open>The writer\<close>

record level =
  valueCount :: nat
  inArray :: bool

record writer =
  os :: string
  level_stack :: "level list"
  hasRoot :: bool

definition new_writer :: writer where
  "new_writer = \<lparr>os = [], level_stack = [], hasRoot = False\<rparr>"

definition put :: "string \<Rightarrow> writer \<Rightarrow> writer" where
  "put t w = w\<lparr>os := os w @ t\<rparr>"

text \<open>\<open>Prefix\<close>; \<open>named\<close> says that the value is a string, which an object member's name must be.\<close>

definition Prefix :: "bool \<Rightarrow> writer \<Rightarrow> fault + writer" where
  "Prefix named w =
     (case level_stack w of
        [] \<Rightarrow> if hasRoot w then Inl AssertFail else Inr (w\<lparr>hasRoot := True\<rparr>)
      | l # ls \<Rightarrow>
          let w1 =
            (if 0 < valueCount l then
               (if inArray l then put '','' w
                else put (if valueCount l mod 2 = 0 then '','' else '':'') w)
             else w)
          in if \<not> inArray l \<and> valueCount l mod 2 = 0 \<and> \<not> named then Inl AssertFail
             else Inr (w1\<lparr>level_stack := l\<lparr>valueCount := valueCount l + 1\<rparr> # ls\<rparr>))"

definition written :: "bool \<Rightarrow> string \<Rightarrow> writer \<Rightarrow> fault + (bool \<times> writer)" where
  "written named t w = bind_fault (Prefix named w) (\<lambda>w. Inr (True, put t w))"

text \<open>\<open>StartObject\<close> and \<open>StartArray\<close>.\<close>

definition start_level :: "bool \<Rightarrow> string \<Rightarrow> writer \<Rightarrow> fault + (bool \<times> writer)" where
  "start_level array t w =
     bind_fault (Prefix False w) (\<lambda>w. Inr (True,
       put t (w\<lparr>level_stack := \<lparr>valueCount = 0, inArray = array\<rparr> # level_stack w\<rparr>)))"

text \<open>\<open>EndObject\<close> and \<open>EndArray\<close>; the object's members must be complete.\<close>

definition end_level :: "bool \<Rightarrow> string \<Rightarrow> writer \<Rightarrow> fault + (bool \<times> writer)" where
  "end_level array t w =
     (case level_stack w of
        [] \<Rightarrow> Inl AssertFail
      | l # ls \<Rightarrow>
          if inArray l \<noteq> array \<or> \<not> array \<and> valueCount l mod 2 \<noteq> 0 then Inl AssertFail
          else Inr (True, put t (w\<lparr>level_stack := ls\<rparr>)))"

text \<open>
  \<open>dtoa\<close> is the printer of doubles (src/include/rapidjson/internal/dtoa.h), \<open>None\<close> for infinities
  and NaNs, for which \<open>WriteDouble\<close> returns false.
\<close>

fun writer_event :: "('d \<Rightarrow> string option) \<Rightarrow> 'd event \<Rightarrow> writer \<Rightarrow> fault + (bool \<times> writer)" where
  "writer_event dtoa NullE w = written False ''null'' w"
| "writer_event dtoa (BoolE b) w = written False (if b then ''true'' else ''false'') w"
| "writer_event dtoa (IntE i) w = written False (i32toa i) w"
| "writer_event dtoa (UintE u) w = written False (u32toa u) w"
| "writer_event dtoa (Int64E i) w = written False (i64toa i) w"
| "writer_event dtoa (Uint64E u) w = written False (u64toa u) w"
| "writer_event dtoa (DoubleE d) w =
     bind_fault (Prefix False w) (\<lambda>w.
       case dtoa d of None \<Rightarrow> Inr (False, w) | Some t \<Rightarrow> Inr (True, put t w))"
| "writer_event dtoa (StringE s) w = written True (WriteString s) w"
| "writer_event dtoa StartObject w = start_level False ''{'' w"
| "writer_event dtoa (KeyE s) w = written True (WriteString s) w"
| "writer_event dtoa (EndObject n) w = end_level False ''}'' w"
| "writer_event dtoa StartArray w = start_level True ''['' w"
| "writer_event dtoa (EndArray n) w = end_level True '']'' w"

section \<open>The text of a value\<close>

text \<open>The specification: the usual recursive notation, without blanks.\<close>

fun commas :: "string list \<Rightarrow> string" where
  "commas [] = []"
| "commas [t] = t"
| "commas (t # ts) = t @ '','' @ commas ts"

primrec json_text :: "('d \<Rightarrow> string option) \<Rightarrow> 'd Value \<Rightarrow> string" where
  "json_text dtoa Null = ''null''"
| "json_text dtoa (Boolean b) = (if b then ''true'' else ''false'')"
| "json_text dtoa (Number f p) =
     (case p of Whole n \<Rightarrow> dec_int n | Real d \<Rightarrow> (case dtoa d of None \<Rightarrow> [] | Some t \<Rightarrow> t))"
| "json_text dtoa (String s) = WriteString s"
| "json_text dtoa (Array xs) = ''['' @ commas (map (json_text dtoa) xs) @ '']''"
| "json_text dtoa (Object ms) =
     ''{'' @ commas (map (\<lambda>(k, t). WriteString k @ '':'' @ t) (map (map_prod id (json_text dtoa)) ms)) @ ''}''"

text \<open>Values whose numbers come from the constructors and whose doubles can be printed.\<close>

primrec printable :: "('d \<Rightarrow> string option) \<Rightarrow> 'd Value \<Rightarrow> bool" where
  "printable dtoa Null = True"
| "printable dtoa (Boolean b) = True"
| "printable dtoa (Number f p) =
     (case p of
        Whole n \<Rightarrow> - (2 ^ 63) \<le> n \<and> n < 2 ^ 64 \<and> (Number f (Whole n) :: 'd Value) = number n
      | Real d \<Rightarrow> Number f (Real d) = Value_double d \<and> dtoa d \<noteq> None)"
| "printable dtoa (String s) = True"
| "printable dtoa (Array xs) = list_all id (map (printable dtoa) xs)"
| "printable dtoa (Object ms) = list_all snd (map (map_prod id (printable dtoa)) ms)"

section \<open>The writer writes the text\<close>

lemma send_append:
  "send h (xs @ ys) s = bind_fault (send h xs s) (\<lambda>(ok, s'). if ok then send h ys s' else Inr (False, s'))"
proof (induction xs arbitrary: s)
  case (Cons x xs)
  then show ?case by (cases "h x s") auto
qed simp

lemma send_then: "send h xs s = Inr (True, s') \<Longrightarrow> send h (xs @ ys) s = send h ys s'"
  by (simp add: send_append)

primrec joined :: "bool \<Rightarrow> string list \<Rightarrow> string" where
  "joined b [] = []"
| "joined b (t # ts) = (if b then '','' else []) @ t @ joined True ts"

lemma joined_True: "joined True ts = (if ts = [] then [] else '','' @ joined False ts)"
  by (cases ts) auto

lemma commas_joined: "commas ts = joined False ts"
  by (induction ts rule: commas.induct) (auto simp: joined_True)

text \<open>A writer inside a level.\<close>

definition inside :: "string \<Rightarrow> nat \<Rightarrow> bool \<Rightarrow> level list \<Rightarrow> bool \<Rightarrow> writer" where
  "inside t k a ls r = \<lparr>os = t, level_stack = \<lparr>valueCount = k, inArray = a\<rparr> # ls, hasRoot = r\<rparr>"

lemma Prefix_inside:
  "Prefix named (inside t k True ls r) = Inr (inside (t @ (if 0 < k then '','' else [])) (Suc k) True ls r)"
  "Prefix True (inside t (2 * k) False ls r) =
     Inr (inside (t @ (if 0 < k then '','' else [])) (Suc (2 * k)) False ls r)"
  "Prefix named (inside t (Suc (2 * k)) False ls r) = Inr (inside (t @ '':'') (2 * Suc k) False ls r)"
  by (simp_all add: Prefix_def inside_def put_def Let_def)

lemma put_inside [simp]: "put u (inside t k a ls r) = inside (t @ u) k a ls r"
  by (simp add: put_def inside_def)

lemma put_put [simp]: "put u (put t w) = put (t @ u) w"
  by (simp add: put_def)

lemma end_inside [simp]:
  "end_level True u (inside t k True ls r) = Inr (True, \<lparr>os = t @ u, level_stack = ls, hasRoot = r\<rparr>)"
  "end_level False u (inside t (2 * k) False ls r) = Inr (True, \<lparr>os = t @ u, level_stack = ls, hasRoot = r\<rparr>)"
  by (simp_all add: end_level_def inside_def put_def)

text \<open>What a value adds, once its prefix is written.\<close>

definition writes_text :: "('d \<Rightarrow> string option) \<Rightarrow> 'd Value \<Rightarrow> bool" where
  "writes_text dtoa v \<longleftrightarrow> (\<forall>w w'. Prefix (IsString v) w = Inr w' \<longrightarrow>
     send (writer_event dtoa) (Accept v) w = Inr (True, put (json_text dtoa v) w'))"

lemma writes_elements:
  assumes "\<And>x. x \<in> set xs \<Longrightarrow> writes_text dtoa x"
  shows "send (writer_event dtoa) (concat (map Accept xs)) (inside t k True ls r) =
    Inr (True, inside (t @ joined (0 < k) (map (json_text dtoa) xs)) (k + length xs) True ls r)"
  using assms
proof (induction xs arbitrary: t k)
  case (Cons x xs)
  have "send (writer_event dtoa) (Accept x) (inside t k True ls r) =
      Inr (True, inside (t @ (if 0 < k then '','' else []) @ json_text dtoa x) (Suc k) True ls r)"
    using Cons.prems by (simp add: writes_text_def Prefix_inside)
  from send_then[OF this] show ?case
    using Cons.IH[of _ "Suc k"] Cons.prems by simp
qed simp

definition member_text :: "('d \<Rightarrow> string option) \<Rightarrow> string \<times> 'd Value \<Rightarrow> string" where
  "member_text dtoa m = WriteString (fst m) @ '':'' @ json_text dtoa (snd m)"

lemma writes_members:
  assumes "\<And>m. m \<in> set ms \<Longrightarrow> writes_text dtoa (snd m)"
  shows "send (writer_event dtoa) (concat (map (\<lambda>(k, es). KeyE k # es) (map (map_prod id Accept) ms)))
      (inside t (2 * k) False ls r) =
    Inr (True, inside (t @ joined (0 < k) (map (member_text dtoa) ms)) (2 * (k + length ms)) False ls r)"
  using assms
proof (induction ms arbitrary: t k)
  case (Cons m ms)
  let ?c = "if 0 < k then '','' else []"
  have v: "writes_text dtoa (snd m)" using Cons.prems by simp
  have "send (writer_event dtoa) (KeyE (fst m) # Accept (snd m)) (inside t (2 * k) False ls r) =
      send (writer_event dtoa) (Accept (snd m)) (inside (t @ ?c @ WriteString (fst m)) (Suc (2 * k)) False ls r)"
    by (simp add: Prefix_inside(2) written_def)
  also have "\<dots> = Inr (True, inside (t @ ?c @ member_text dtoa m) (2 * Suc k) False ls r)"
    using v by (simp add: writes_text_def Prefix_inside(3) member_text_def del: mult_Suc_right)
  finally have head: "send (writer_event dtoa) (KeyE (fst m) # Accept (snd m)) (inside t (2 * k) False ls r) =
      Inr (True, inside (t @ ?c @ member_text dtoa m) (2 * Suc k) False ls r)" .
  have step: "concat (map (\<lambda>(k, es). KeyE k # es) (map (map_prod id Accept) (m # ms))) =
      (KeyE (fst m) # Accept (snd m)) @ concat (map (\<lambda>(k, es). KeyE k # es) (map (map_prod id Accept) ms))"
    by (cases m) simp
  have tail: "send (writer_event dtoa) (concat (map (\<lambda>(k, es). KeyE k # es) (map (map_prod id Accept) ms)))
      (inside (t @ ?c @ member_text dtoa m) (2 * Suc k) False ls r) =
    Inr (True, inside ((t @ ?c @ member_text dtoa m) @ joined (0 < Suc k) (map (member_text dtoa) ms))
      (2 * (Suc k + length ms)) False ls r)"
    using Cons.prems by (intro Cons.IH) simp
  show ?case
    unfolding step send_then[OF head] tail by simp
qed simp

lemma json_text_Object:
  "json_text dtoa (Object ms) = ''{'' @ joined False (map (member_text dtoa) ms) @ ''}''"
proof -
  have "map (\<lambda>(k, t). WriteString k @ '':'' @ t) (map (map_prod id (json_text dtoa)) ms) =
      map (member_text dtoa) ms"
    by (auto simp: member_text_def)
  then show ?thesis by (simp only: json_text.simps commas_joined)
qed

lemma written_then: "Prefix named w = Inr w' \<Longrightarrow> written named t w = Inr (True, put t w')"
  by (simp add: written_def)

lemma writes_number:
  assumes "printable dtoa (Number f p)"
  shows "writes_text dtoa (Number f p)"
proof (cases p)
  case (Real d)
  then show ?thesis
    using assms by (auto simp: writes_text_def number_event_def Let_def type_tests Value_double_def flag_defs)
next
  case (Whole n)
  then have n: "- (2 ^ 63) \<le> n" "n < 2 ^ 64" "Number f (Whole n) = (number n :: 'a Value)"
    using assms by auto
  have e: "exact (Number f (Whole n) :: 'a Value) n" using exact_number[OF n(1,2)] n(3) by simp
  have t: "IsString (Number f (Whole n) :: 'a Value) = False"
    "IsInt (Number f (Whole n) :: 'a Value) \<longleftrightarrow> - (2 ^ 31) \<le> n \<and> n < 2 ^ 31"
    "IsUint (Number f (Whole n) :: 'a Value) \<longleftrightarrow> 0 \<le> n \<and> n < 2 ^ 32"
    "IsInt64 (Number f (Whole n) :: 'a Value) \<longleftrightarrow> - (2 ^ 63) \<le> n \<and> n < 2 ^ 63"
    using e by (auto simp: exact_def)
  have i: "sint (word_of_int n :: s32) = n" if "- (2 ^ 31) \<le> n" "n < 2 ^ 31"
    using that by (subst sint_sbintrunc') (auto intro!: signed_take_bit_int_eq_self)
  have j: "sint (word_of_int n :: s64) = n" if "- (2 ^ 63) \<le> n" "n < 2 ^ 63"
    using that by (subst sint_sbintrunc') (auto intro!: signed_take_bit_int_eq_self)
  have u: "unat (word_of_int n :: u32) = nat n" if "0 \<le> n" "n < 2 ^ 32"
    using that by (simp add: unat_eq_nat_uint uint_word_of_int)
  have w: "unat (word_of_int n :: u64) = nat n" if "0 \<le> n"
    using that n(2) by (simp add: unat_eq_nat_uint uint_word_of_int)
  have "\<exists>e. Accept (Number f (Whole n)) = [e] \<and> (\<forall>x. writer_event dtoa e x = written False (dec_int n) x)"
  proof -
    consider "- (2 ^ 31) \<le> n \<and> n < 2 ^ 31" | "2 ^ 31 \<le> n \<and> n < 2 ^ 32"
      | "2 ^ 32 \<le> n \<and> n < 2 ^ 63 \<or> n < - (2 ^ 31)" | "2 ^ 63 \<le> n" by linarith
    then show ?thesis
    proof cases
      case 1
      then show ?thesis using i by (simp add: number_event_def Let_def t i32toa_prints)
    next
      case 2
      then have "dec_int n = dec (nat n)" by (simp add: dec_int_def)
      then show ?thesis using 2 u by (simp add: number_event_def Let_def t u32toa_prints)
    next
      case 3
      then have "\<not> IsInt (Number f (Whole n) :: 'a Value)" "\<not> IsUint (Number f (Whole n) :: 'a Value)"
        "IsInt64 (Number f (Whole n) :: 'a Value)" "n < 2 ^ 63"
        using n(1) by (auto simp: t)
      then show ?thesis using j n(1) by (simp add: number_event_def Let_def i64toa_prints)
    next
      case 4
      then have "\<not> IsInt (Number f (Whole n) :: 'a Value)" "\<not> IsUint (Number f (Whole n) :: 'a Value)"
        "\<not> IsInt64 (Number f (Whole n) :: 'a Value)" "0 \<le> n"
        by (auto simp: t)
      moreover from this have "dec_int n = dec (nat n)" by (simp add: dec_int_def)
      ultimately show ?thesis using w by (simp add: number_event_def Let_def u64toa_prints)
    qed
  qed
  then obtain e where "Accept (Number f (Whole n)) = [e]" "\<And>x. writer_event dtoa e x = written False (dec_int n) x"
    by blast
  then show ?thesis
    by (simp add: writes_text_def Whole t written_then del: Accept.simps)
qed

lemma start_inside:
  assumes "Prefix False w = Inr w'"
  shows "start_level a u w = Inr (True, inside (os w' @ u) 0 a (level_stack w') (hasRoot w'))"
  using assms by (cases w') (simp add: start_level_def put_def inside_def)

theorem writer_writes_text: "printable dtoa v \<Longrightarrow> writes_text dtoa v"
proof (induction v)
  case (Array xs)
  then have *: "\<And>x. x \<in> set xs \<Longrightarrow> writes_text dtoa x" by (auto simp: list_all_iff)
  have "send (writer_event dtoa) (Accept (Array xs)) w = Inr (True, put (json_text dtoa (Array xs)) w')"
    if "Prefix False w = Inr w'" for w w'
    using writes_elements[OF *, where k = 0]
    by (simp add: start_inside[OF that] send_append commas_joined) (cases w'; simp add: put_def)
  then show ?case by (simp add: writes_text_def)
next
  case (Object ms)
  then have *: "\<And>m. m \<in> set ms \<Longrightarrow> writes_text dtoa (snd m)" by (force simp: list_all_iff snds.simps)
  have "send (writer_event dtoa) (Accept (Object ms)) w = Inr (True, put (json_text dtoa (Object ms)) w')"
    if "Prefix False w = Inr w'" for w w'
  proof -
    have "send (writer_event dtoa) (Accept (Object ms)) w =
        send (writer_event dtoa) (concat (map (\<lambda>(k, es). KeyE k # es) (map (map_prod id Accept) ms)) @ [EndObject (length ms)])
          (inside (os w' @ ''{'') (2 * 0) False (level_stack w') (hasRoot w'))"
      by (simp add: start_inside[OF that])
    also have "\<dots> = Inr (True, put (json_text dtoa (Object ms)) w')"
      by (subst send_then[OF writes_members[OF *]], assumption, subst json_text_Object, cases w')
        (simp add: put_def del: mult_Suc_right)
    finally show ?thesis .
  qed
  then show ?case by (simp add: writes_text_def)
next
  case (Number f p)
  then show ?case by (rule writes_number)
qed (simp_all add: writes_text_def written_then)

end
