(* ===== verification/CppRead.thy ===== *)
theory CppRead
  imports RapidJson DomModel "HOL-Library.AList"
begin

text \<open>
  The fragment of C++ in which \<open>Object::saveDeserialize\<close> (src/src/CreateDOM.cpp) writes
  \<open>deserializeFrom\<close>: its statements, their text, and what they do. \<open>read_function\<close> gives the
  statements for a class; theory \<open>ReadText\<close> shows that their text is what the emitter prints.
\<close>

section \<open>Syntax\<close>

text \<open>JSON values in scope: a named reference, \<open>found->value\<close>, \<open>iter->value\<close> and \<open>x[i]\<close>.\<close>

datatype jref = Named string | FoundValue | IterValue | Element string

datatype cexpr =
    Accessor jref string
  | Local string
  | Cast string cexpr
  | ToEnum string cexpr
  | Unstringify string jref
  | Zero

datatype ccond =
    Test jref string
  | Found
  | IsOk
  | NotOk
  | IsMember
  | Deserializes jref string
  | NotBase string

text \<open>A local variable, \<open>r.x\<close>, and \<open>r._x[std::string(key)]\<close>.\<close>

datatype lhs = LocalVar string | Field string | Entry string

datatype stmt =
    Comment string
  | Find string
  | Bind string jref
  | Declare string string
  | DeclareVector string string
  | Init string string cexpr
  | Key
  | Assign lhs cexpr
  | PushTo lhs cexpr
  | StringToInt jref string
  | Return bool
  | Block "stmt list"
  | If ccond stmt "stmt option"
  | ForElements string stmt
  | ForMembers stmt

section \<open>Text\<close>

primrec ref_text :: "jref \<Rightarrow> string" where
  "ref_text (Named x) = x"
| "ref_text FoundValue = ''found->value''"
| "ref_text IterValue = ''iter->value''"
| "ref_text (Element x) = x @ ''[i]''"

primrec expr_text :: "cexpr \<Rightarrow> string" where
  "expr_text (Accessor e g) = ref_text e @ ''.'' @ g @ ''()''"
| "expr_text (Local x) = x"
| "expr_text (Cast t e) = t @ ''('' @ expr_text e @ '')''"
| "expr_text (ToEnum t e) = t @ ''('' @ expr_text e @ '')''"
| "expr_text (Unstringify t e) = ''unstringifyEnum<'' @ t @ ''>('' @ ref_text e @ ''.GetString(),isOk)''"
| "expr_text Zero = ''0''"

primrec cond_text :: "ccond \<Rightarrow> string" where
  "cond_text (Test e t) = ref_text e @ ''.'' @ t @ ''()''"
| "cond_text Found = ''found!=d.MemberEnd()''"
| "cond_text IsOk = ''isOk''"
| "cond_text NotOk = ''!isOk''"
| "cond_text IsMember = ''r.isMember(key)''"
| "cond_text (Deserializes e h) = ''deserializeFrom('' @ ref_text e @ '','' @ h @ '')''"
| "cond_text (NotBase b) = ''!deserializeFrom(d,static_cast<'' @ b @ ''&>(r))''"

primrec lhs_text :: "lhs \<Rightarrow> string" where
  "lhs_text (LocalVar x) = x"
| "lhs_text (Field x) = ''r.'' @ x"
| "lhs_text (Entry x) = ''r._'' @ x @ ''[std::string(key)]''"

fun is_if :: "stmt \<Rightarrow> bool" where
  "is_if (If c s e) = True"
| "is_if _ = False"

primrec stmt_text :: "stmt \<Rightarrow> string" where
  "stmt_text (Comment c) = ''//'' @ c @ ''\<newline>''"
| \<open>stmt_text (Find k) = ''auto found = d.FindMember("'' @ k @ ''");\<newline>''\<close>
| "stmt_text (Bind x e) = ''const rapidjson::Value &'' @ x @ ''='' @ ref_text e @ '';\<newline>''"
| "stmt_text (Declare t x) = t @ '' '' @ x @ '';\<newline>''"
| "stmt_text (DeclareVector t x) = ''std::vector< '' @ t @ '' > '' @ x @ '';\<newline>''"
| "stmt_text (Init t x e) = t @ '' '' @ x @ ''='' @ expr_text e @ '';\<newline>''"
| "stmt_text Key = ''const char* key = iter->name.GetString();\<newline>''"
| "stmt_text (Assign l e) = lhs_text l @ ''='' @ expr_text e @ '';\<newline>''"
| "stmt_text (PushTo l e) = lhs_text l @ ''.push_back('' @ expr_text e @ '');\<newline>''"
| "stmt_text (StringToInt e x) = ''stringToInt('' @ ref_text e @ ''.GetString(),'' @ x @ '');\<newline>''"
| "stmt_text (Return b) = (if b then ''return true;\<newline>'' else ''return false;\<newline>'')"
| "stmt_text (Block ss) = ''{\<newline>'' @ concat (map stmt_text ss) @ ''}\<newline>''"
| "stmt_text (If c s e) = ''if('' @ cond_text c @ '')\<newline>'' @ stmt_text s
     @ (case map_option stmt_text e of
          None \<Rightarrow> []
        | Some t \<Rightarrow> (if is_if (the e) then ''else '' else ''else\<newline>'') @ t)"
| "stmt_text (ForElements x s) =
     ''for (rapidjson::SizeType i = 0; i < '' @ x @ ''.Size(); i++)\<newline>'' @ stmt_text s"
| "stmt_text (ForMembers s) =
     ''for (rapidjson::Value::ConstMemberIterator iter = d.MemberBegin(); iter != d.MemberEnd(); ++iter)\<newline>''
     @ stmt_text s"

section \<open>Values and states\<close>

text \<open>
  Values of C++ variables: integers and enumerators (with their enum), the containers the generated
  classes use, and objects as their members in order (the members of the base classes first).
\<close>

datatype 'd cval =
    CInt int
  | CBool bool
  | CReal 'd
  | CString string
  | CEnum string string
  | CVector "'d cval list"
  | CMap "(string \<times> 'd cval) list"
  | COptional "'d cval option"
  | CObject "(string \<times> 'd cval) list"

type_synonym 'd fields = "(string \<times> 'd cval) list"

text \<open>A string that is passed as a \<open>const char *\<close> ends at its first NUL.\<close>

definition c_str :: "string \<Rightarrow> string" where
  "c_str s = takeWhile (\<lambda>c. c \<noteq> nul) s"

text \<open>
  What a \<open>deserializeFrom\<close> relies on: the machine's floating point, the tables of the enums, \<open>atoi\<close> by
  the type of the variable it sets, \<open>r.isMember\<close>, the default value of a type, which members of
  \<open>r\<close> are optionals, and the other instances of \<open>deserializeFrom\<close>.
\<close>

record 'd reading =
  floats :: "'d float_ops"
  find_enum :: "string \<Rightarrow> string \<Rightarrow> string \<times> bool"
  enum_cast :: "string \<Rightarrow> int \<Rightarrow> string"
  parse_integer :: "string \<Rightarrow> string \<Rightarrow> int"
  is_member :: "string \<Rightarrow> bool"
  default_value :: "string \<Rightarrow> 'd cval"
  is_optional :: "string \<Rightarrow> bool"
  call :: "string \<Rightarrow> 'd Value \<Rightarrow> 'd fields \<Rightarrow> fault + (bool \<times> 'd fields)"

record 'd frame =
  refs :: "string \<Rightarrow> 'd Value option"
  found :: "'d Value option"
  iter :: "string \<times> 'd Value"
  index :: nat
  isOk :: bool
  types :: "string \<Rightarrow> string"
  locals :: "string \<Rightarrow> 'd cval option"
  target :: "'d fields"

datatype 'd outcome = Fault fault | Returned bool "'d frame" | Next "'d frame"

section \<open>Meaning\<close>

fun ref_value :: "'d frame \<Rightarrow> jref \<Rightarrow> fault + 'd Value" where
  "ref_value f (Named x) = (case refs f x of None \<Rightarrow> Inl NotCompiled | Some v \<Rightarrow> Inr v)"
| "ref_value f FoundValue = (case found f of None \<Rightarrow> Inl NullDeref | Some v \<Rightarrow> Inr v)"
| "ref_value f IterValue = Inr (snd (iter f))"
| "ref_value f (Element x) =
     (case refs f x of
        None \<Rightarrow> Inl NotCompiled
      | Some v \<Rightarrow> bind_fault (elements v) (\<lambda>xs. assert_that (index f < length xs) (xs ! index f)))"

definition access :: "'d float_ops \<Rightarrow> string \<Rightarrow> 'd Value \<Rightarrow> fault + 'd cval" where
  "access fl g v =
     (if g = ''GetBool'' then map_sum id CBool (GetBool v)
      else if g = ''GetInt'' then map_sum id CInt (GetInt v)
      else if g = ''GetUint'' then map_sum id CInt (GetUint v)
      else if g = ''GetInt64'' then map_sum id CInt (GetInt64 v)
      else if g = ''GetUint64'' then map_sum id CInt (GetUint64 v)
      else if g = ''GetFloat'' then map_sum id CReal (GetFloat fl v)
      else if g = ''GetDouble'' then map_sum id CReal (GetDouble fl v)
      else if g = ''GetString'' then map_sum id (\<lambda>s. CString (c_str s)) (GetString v)
      else Inl NotCompiled)"

definition type_test :: "'d float_ops \<Rightarrow> string \<Rightarrow> 'd Value \<Rightarrow> fault + bool" where
  "type_test fl t v =
     (if t = ''IsString'' then Inr (IsString v)
      else if t = ''IsNumber'' then Inr (IsNumber v)
      else if t = ''IsArray'' then Inr (IsArray v)
      else if t = ''IsBool'' then Inr (IsBool v)
      else if t = ''IsFloat'' then Inr (IsFloat fl v)
      else if t = ''IsDouble'' then Inr (IsDouble v)
      else Inl NotCompiled)"

text \<open>\<open>float(n)\<close>, \<open>double(n)\<close> and \<open>std::string(s)\<close>; \<open>T(n)\<close> for an enum.\<close>

fun cast :: "'d reading \<Rightarrow> string \<Rightarrow> 'd cval \<Rightarrow> fault + 'd cval" where
  "cast E t (CInt n) =
     (if t = ''float'' then Inr (CReal (to_float (floats E) (of_integer (floats E) n)))
      else if t = ''double'' then Inr (CReal (of_integer (floats E) n))
      else Inl NotCompiled)"
| "cast E t (CString s) = (if t = ''std::string'' then Inr (CString s) else Inl NotCompiled)"
| "cast E t _ = Inl NotCompiled"

fun to_enum :: "'d reading \<Rightarrow> string \<Rightarrow> 'd cval \<Rightarrow> fault + 'd cval" where
  "to_enum E t (CInt n) = Inr (CEnum t (enum_cast E t n))"
| "to_enum E t _ = Inl NotCompiled"

primrec eval :: "'d reading \<Rightarrow> 'd frame \<Rightarrow> cexpr \<Rightarrow> fault + ('d cval \<times> bool)" where
  "eval E f (Accessor e g) =
     bind_fault (ref_value f e) (\<lambda>v. bind_fault (access (floats E) g v) (\<lambda>x. Inr (x, isOk f)))"
| "eval E f (Local x) = (case locals f x of None \<Rightarrow> Inl NotCompiled | Some v \<Rightarrow> Inr (v, isOk f))"
| "eval E f (Cast t e) =
     bind_fault (eval E f e) (\<lambda>(v, ok). bind_fault (cast E t v) (\<lambda>x. Inr (x, ok)))"
| "eval E f (ToEnum t e) =
     bind_fault (eval E f e) (\<lambda>(v, ok). bind_fault (to_enum E t v) (\<lambda>x. Inr (x, ok)))"
| "eval E f (Unstringify t e) =
     bind_fault (ref_value f e) (\<lambda>v. bind_fault (GetString v) (\<lambda>s.
       (case find_enum E t (c_str s) of (x, ok) \<Rightarrow> Inr (CEnum t x, ok))))"
| "eval E f Zero = Inr (CInt 0, isOk f)"

text \<open>A condition may call \<open>deserializeFrom\<close>, which changes its argument.\<close>

fun test :: "'d reading \<Rightarrow> 'd Value \<Rightarrow> 'd frame \<Rightarrow> ccond \<Rightarrow> fault + (bool \<times> 'd frame)" where
  "test E d f (Test e t) =
     bind_fault (ref_value f e) (\<lambda>v. bind_fault (type_test (floats E) t v) (\<lambda>b. Inr (b, f)))"
| "test E d f Found = Inr (found f \<noteq> None, f)"
| "test E d f IsOk = Inr (isOk f, f)"
| "test E d f NotOk = Inr (\<not> isOk f, f)"
| "test E d f IsMember =
     (case locals f ''key'' of
        Some (CString k) \<Rightarrow> Inr (is_member E k, f) | _ \<Rightarrow> Inl NotCompiled)"
| "test E d f (Deserializes e h) =
     bind_fault (ref_value f e) (\<lambda>v.
       (case locals f h of
          Some (CObject x) \<Rightarrow>
            bind_fault (call E (types f h) v x) (\<lambda>(b, y).
              Inr (b, f\<lparr>locals := (locals f)(h \<mapsto> CObject y)\<rparr>))
        | _ \<Rightarrow> Inl NotCompiled))"
| "test E d f (NotBase b) =
     bind_fault (call E b d (target f)) (\<lambda>(ok, y). Inr (\<not> ok, f\<lparr>target := y\<rparr>))"

fun assign :: "'d reading \<Rightarrow> 'd frame \<Rightarrow> lhs \<Rightarrow> 'd cval \<Rightarrow> fault + 'd frame" where
  "assign E f (LocalVar x) v = Inr (f\<lparr>locals := (locals f)(x \<mapsto> v)\<rparr>)"
| "assign E f (Field x) v =
     (case map_of (target f) x of
        None \<Rightarrow> Inl NotCompiled
      | Some old \<Rightarrow>
          if locals f ''r'' \<noteq> None then Inl NotCompiled else Inr (f\<lparr>target := AList.update x (if is_optional E x then COptional (Some v) else v) (target f)\<rparr>))"
| "assign E f (Entry x) v =
     (case (map_of (target f) x, locals f ''key'') of
        (Some (CMap m), Some (CString k)) \<Rightarrow>
          Inr (f\<lparr>target := AList.update x (CMap (filter (\<lambda>p. fst p \<noteq> k) m @ [(k, v)])) (target f)\<rparr>)
      | _ \<Rightarrow> Inl NotCompiled)"

fun push :: "'d frame \<Rightarrow> lhs \<Rightarrow> 'd cval \<Rightarrow> fault + 'd frame" where
  "push f (LocalVar x) v =
     (case locals f x of
        Some (CVector xs) \<Rightarrow> Inr (f\<lparr>locals := (locals f)(x \<mapsto> CVector (xs @ [v]))\<rparr>)
      | _ \<Rightarrow> Inl NotCompiled)"
| "push f (Field x) v =
     (case map_of (target f) x of
        Some (CVector xs) \<Rightarrow>
          if locals f ''r'' \<noteq> None then Inl NotCompiled
          else Inr (f\<lparr>target := AList.update x (CVector (xs @ [v])) (target f)\<rparr>)
      | _ \<Rightarrow> Inl NotCompiled)"
| "push f (Entry x) v = Inl NotCompiled"

fun outcome_of :: "fault + 'd frame \<Rightarrow> 'd outcome" where
  "outcome_of (Inl e) = Fault e"
| "outcome_of (Inr f) = Next f"

fun run_seq :: "('d frame \<Rightarrow> 'd outcome) list \<Rightarrow> 'd frame \<Rightarrow> 'd outcome" where
  "run_seq [] f = Next f"
| "run_seq (s # ss) f = (case s f of Next f' \<Rightarrow> run_seq ss f' | x \<Rightarrow> x)"

fun run_loop ::
  "('a \<Rightarrow> 'd frame \<Rightarrow> 'd frame) \<Rightarrow> ('d frame \<Rightarrow> 'd outcome) \<Rightarrow> 'a list \<Rightarrow> 'd frame \<Rightarrow> 'd outcome"
where
  "run_loop enter body [] f = Next f"
| "run_loop enter body (x # xs) f =
     (case body (enter x f) of Next f' \<Rightarrow> run_loop enter body xs f' | y \<Rightarrow> y)"

fun branch ::
  "fault + (bool \<times> 'd frame) \<Rightarrow> ('d frame \<Rightarrow> 'd outcome) \<Rightarrow> ('d frame \<Rightarrow> 'd outcome) option \<Rightarrow> 'd outcome"
where
  "branch (Inl e) s t = Fault e"
| "branch (Inr (b, f)) s t =
     (if b then s f else (case t of None \<Rightarrow> Next f | Some u \<Rightarrow> u f))"

text \<open>A declaration hides what had the name before.\<close>

definition bind :: "string \<Rightarrow> 'd Value \<Rightarrow> 'd frame \<Rightarrow> 'd frame" where
  "bind x v f = f\<lparr>refs := (refs f)(x \<mapsto> v), locals := (locals f)(x := None)\<rparr>"

definition declare_var :: "string \<Rightarrow> string \<Rightarrow> 'd cval \<Rightarrow> 'd frame \<Rightarrow> 'd frame" where
  "declare_var t x v f =
     f\<lparr>refs := (refs f)(x := None), types := (types f)(x := t), locals := (locals f)(x \<mapsto> v)\<rparr>"

definition at_index :: "nat \<Rightarrow> 'd frame \<Rightarrow> 'd frame" where
  "at_index k f =
     f\<lparr>index := k, refs := (refs f)(''i'' := None), locals := (locals f)(''i'' := None)\<rparr>"

primrec exec :: "'d reading \<Rightarrow> 'd Value \<Rightarrow> stmt \<Rightarrow> 'd frame \<Rightarrow> 'd outcome" where
  "exec E d (Comment c) = Next"
| "exec E d (Find k) =
     (\<lambda>f. outcome_of (map_sum id (\<lambda>m. f\<lparr>found := m\<rparr>) (FindMember d k)))"
| "exec E d (Bind x e) =
     (\<lambda>f. outcome_of (map_sum id (\<lambda>v. bind x v f) (ref_value f e)))"
| "exec E d (Declare t x) =
     (\<lambda>f. Next (declare_var t x (default_value E t) f))"
| "exec E d (DeclareVector t x) = (\<lambda>f. Next (declare_var t x (CVector []) f))"
| "exec E d (Init t x e) =
     (\<lambda>f. outcome_of (map_sum id (\<lambda>(v, ok). declare_var t x v (f\<lparr>isOk := ok\<rparr>)) (eval E f e)))"
| "exec E d Key = (\<lambda>f. Next (f\<lparr>locals := (locals f)(''key'' \<mapsto> CString (fst (iter f)))\<rparr>))"
| "exec E d (Assign l e) =
     (\<lambda>f. outcome_of (bind_fault (eval E f e) (\<lambda>(v, ok). assign E (f\<lparr>isOk := ok\<rparr>) l v)))"
| "exec E d (PushTo l e) =
     (\<lambda>f. outcome_of (bind_fault (eval E f e) (\<lambda>(v, ok). push (f\<lparr>isOk := ok\<rparr>) l v)))"
| "exec E d (StringToInt e x) =
     (\<lambda>f. outcome_of (bind_fault (ref_value f e) (\<lambda>v. bind_fault (GetString v) (\<lambda>s.
        Inr (f\<lparr>locals := (locals f)(x \<mapsto> CInt (parse_integer E (types f x) (c_str s)))\<rparr>)))))"
| "exec E d (Return b) = Returned b"
| "exec E d (Block ss) = run_seq (map (exec E d) ss)"
| "exec E d (If c s e) =
     (\<lambda>f. branch (test E d f c) (exec E d s) (map_option (exec E d) e))"
| "exec E d (ForElements x s) =
     (\<lambda>f. case bind_fault (ref_value f (Named x)) elements of
            Inl e \<Rightarrow> Fault e
          | Inr xs \<Rightarrow> run_loop at_index (exec E d s) [0..<length xs] f)"
| "exec E d (ForMembers s) =
     (\<lambda>f. case members d of
            Inl e \<Rightarrow> Fault e
          | Inr ms \<Rightarrow> run_loop (\<lambda>m f. f\<lparr>iter := m\<rparr>) (exec E d s) ms f)"

end
