(* ===== verification/CppWrite.thy ===== *)
theory CppWrite
  imports CppRead
begin

text \<open>
  The fragment of C++ in which \<open>Object::saveSerialize\<close> (src/src/CreateDOM.cpp) writes
  \<open>serializeTo\<close>: statements, text and meaning, as \<open>CppRead\<close> does for \<open>deserializeFrom\<close>.
\<close>

section \<open>Syntax\<close>

text \<open>
  C++ values that are written: \<open>type.x\<close>, \<open>e.value()\<close> of an optional, a loop variable, \<open>i.second\<close>.
  Containers that are looped over: \<open>type.x\<close>, \<open>type._x\<close> and \<open>i.second\<close>.
\<close>

datatype source = Member string | ValueOf source | LoopVar string | Second

datatype range = MemberRange string | MapRange string | SecondRange

text \<open>What becomes a JSON value, and the key it is added under.\<close>

datatype written =
    Plain source
  | Unsigned64 source
  | CText source
  | EnumText source
  | NameText
  | JsonVar string
  | EmptyArray
  | EmptyObject

datatype wkey = Quoted string | FirstText

datatype wstmt =
    WComment string
  | Add wkey written
  | Declares string written
  | Push string string
  | SerializeTo source string
  | NameOf string
  | BaseTo string
  | WBlock "wstmt list"
  | IfHas string wstmt
  | WFor string range wstmt

section \<open>Text\<close>

primrec source_text :: "source \<Rightarrow> string" where
  "source_text (Member x) = ''type.'' @ x"
| "source_text (ValueOf e) = source_text e @ ''.value()''"
| "source_text (LoopVar i) = i"
| "source_text Second = ''i.second''"

primrec range_text :: "range \<Rightarrow> string" where
  "range_text (MemberRange x) = ''type.'' @ x"
| "range_text (MapRange x) = ''type._'' @ x"
| "range_text SecondRange = ''i.second''"

primrec written_text :: "written \<Rightarrow> string" where
  "written_text (Plain e) = source_text e"
| "written_text (Unsigned64 e) = ''uint64_t('' @ source_text e @ '')''"
| "written_text (CText e) = ''rapidjson::StringRef('' @ source_text e @ ''.c_str())''"
| "written_text (EnumText e) = ''rapidjson::StringRef(stringifyEnum('' @ source_text e @ ''))''"
| "written_text NameText = ''rapidjson::StringRef(name)''"
| "written_text (JsonVar v) = v"
| "written_text EmptyArray = ''rapidjson::kArrayType''"
| "written_text EmptyObject = ''rapidjson::kObjectType''"

primrec key_text :: "wkey \<Rightarrow> string" where
  "key_text (Quoted k) = CHR 0x22 # k @ [CHR 0x22]"
| "key_text FirstText = ''rapidjson::StringRef(i.first.c_str())''"

primrec wstmt_text :: "wstmt \<Rightarrow> string" where
  "wstmt_text (WComment c) = ''//'' @ c @ ''\<newline>''"
| "wstmt_text (Add k e) = ''d.AddMember('' @ key_text k @ '','' @ written_text e @ '',alloc);\<newline>''"
| "wstmt_text (Declares v e) = ''rapidjson::Value '' @ v @ ''('' @ written_text e @ '');\<newline>''"
| "wstmt_text (Push a v) = a @ ''.PushBack('' @ v @ '', alloc);\<newline>''"
| "wstmt_text (SerializeTo e v) = ''serializeTo('' @ source_text e @ '','' @ v @ '',alloc);\<newline>''"
| "wstmt_text (NameOf j) = ''const char *name = stringifyEnum('' @ j @ '');\<newline>''"
| "wstmt_text (BaseTo b) = ''serializeTo(static_cast<const '' @ b @ ''&>(type), d, alloc);\<newline>''"
| "wstmt_text (WBlock ss) = ''{\<newline>'' @ concat (map wstmt_text ss) @ ''}\<newline>''"
| "wstmt_text (IfHas x s) = ''if ( type.'' @ x @ ''.has_value() )\<newline>'' @ wstmt_text s"
| "wstmt_text (WFor i r s) = ''for (auto &'' @ i @ '' : '' @ range_text r @ '')\<newline>'' @ wstmt_text s"

section \<open>Meaning\<close>

text \<open>
  What a \<open>serializeTo\<close> relies on: \<open>stringifyEnum\<close> and the number behind an enumerator, and the other
  instances of \<open>serializeTo\<close>, which add to the object they are given.
\<close>

record 'd writing =
  stringify :: "string \<Rightarrow> string \<Rightarrow> fault + string"
  enum_number :: "string \<Rightarrow> string \<Rightarrow> int"
  wcall :: "string \<Rightarrow> 'd fields \<Rightarrow> 'd Value \<Rightarrow> fault + 'd Value"
  class_of :: "string \<Rightarrow> string"

text \<open>
  \<open>doc\<close> is \<open>d\<close>; \<open>vars\<close> holds the loop variables, \<open>pair\<close> the entry of a map, \<open>name\<close> the C string.
  \<open>loop_class\<close> is the element type of the container a loop variable runs through, \<open>class_of x\<close> the
  type of member \<open>x\<close>.
\<close>

record 'd wframe =
  doc :: "'d Value"
  jsons :: "string \<Rightarrow> 'd Value option"
  vars :: "string \<Rightarrow> 'd cval option"
  loop_class :: string
  pair :: "(string \<times> 'd cval) option"
  cname :: string

fun source_value :: "'d fields \<Rightarrow> 'd wframe \<Rightarrow> source \<Rightarrow> fault + 'd cval" where
  "source_value this f (Member x) =
     (case map_of this x of None \<Rightarrow> Inl NotCompiled | Some v \<Rightarrow> Inr v)"
| "source_value this f (ValueOf e) =
     bind_fault (source_value this f e) (\<lambda>v. case v of
        COptional (Some x) \<Rightarrow> Inr x | _ \<Rightarrow> Inl NotCompiled)"
| "source_value this f (LoopVar i) =
     (case vars f i of None \<Rightarrow> Inl NotCompiled | Some v \<Rightarrow> Inr v)"
| "source_value this f Second =
     (case pair f of None \<Rightarrow> Inl NotCompiled | Some (k, v) \<Rightarrow> Inr v)"

text \<open>
  The \<open>GenericValue\<close> constructors for plain values; whole numbers have one value whatever their type
  (\<open>constructors_agree\<close>).
\<close>

fun plain_value :: "'d cval \<Rightarrow> fault + 'd Value" where
  "plain_value (CInt n) = Inr (number n)"
| "plain_value (CBool b) = Inr (Boolean b)"
| "plain_value (CReal x) = Inr (Value_double x)"
| "plain_value _ = Inl NotCompiled"

fun enum_text :: "'d writing \<Rightarrow> 'd cval \<Rightarrow> fault + string" where
  "enum_text W (CEnum t x) = stringify W t x"
| "enum_text W _ = Inl NotCompiled"

fun written_value :: "'d writing \<Rightarrow> 'd fields \<Rightarrow> 'd wframe \<Rightarrow> written \<Rightarrow> fault + 'd Value" where
  "written_value W this f (Plain e) = bind_fault (source_value this f e) plain_value"
| "written_value W this f (Unsigned64 e) =
     bind_fault (source_value this f e) (\<lambda>v. case v of
        CEnum t x \<Rightarrow> Inr (number (enum_number W t x)) | _ \<Rightarrow> Inl NotCompiled)"
| "written_value W this f (CText e) =
     bind_fault (source_value this f e) (\<lambda>v. case v of
        CString s \<Rightarrow> Inr (String (c_str s)) | _ \<Rightarrow> Inl NotCompiled)"
| "written_value W this f (EnumText e) =
     bind_fault (source_value this f e) (\<lambda>v. map_sum id String (enum_text W v))"
| "written_value W this f NameText = Inr (String (cname f))"
| "written_value W this f (JsonVar x) =
     (case jsons f x of None \<Rightarrow> Inl NotCompiled | Some v \<Rightarrow> Inr v)"
| "written_value W this f EmptyArray = Inr (Array [])"
| "written_value W this f EmptyObject = Inr (Object [])"

text \<open>A value that is added or pushed is moved out of its variable, which is null afterwards.\<close>

fun moved :: "written \<Rightarrow> 'd wframe \<Rightarrow> 'd wframe" where
  "moved (JsonVar x) f = f\<lparr>jsons := (jsons f)(x \<mapsto> Null)\<rparr>"
| "moved _ f = f"

fun wkey_value :: "'d wframe \<Rightarrow> wkey \<Rightarrow> fault + string" where
  "wkey_value f (Quoted k) = Inr k"
| "wkey_value f FirstText = (case pair f of None \<Rightarrow> Inl NotCompiled | Some (k, v) \<Rightarrow> Inr (c_str k))"

text \<open>The class of what \<open>serializeTo\<close> is called with: a member or an element of a container.\<close>

primrec source_class :: "'d writing \<Rightarrow> 'd wframe \<Rightarrow> source \<Rightarrow> string" where
  "source_class W f (Member x) = class_of W x"
| "source_class W f (ValueOf e) = source_class W f e"
| "source_class W f (LoopVar i) = loop_class f"
| "source_class W f Second = loop_class f"

fun wseq :: "('f \<Rightarrow> fault + 'f) list \<Rightarrow> 'f \<Rightarrow> fault + 'f" where
  "wseq [] f = Inr f"
| "wseq (s # ss) f = bind_fault (s f) (wseq ss)"

fun wloop :: "('a \<Rightarrow> 'f \<Rightarrow> 'f) \<Rightarrow> ('f \<Rightarrow> fault + 'f) \<Rightarrow> 'a list \<Rightarrow> 'f \<Rightarrow> fault + 'f" where
  "wloop enter body [] f = Inr f"
| "wloop enter body (x # xs) f = bind_fault (body (enter x f)) (wloop enter body xs)"

fun range_value :: "'d fields \<Rightarrow> 'd wframe \<Rightarrow> range \<Rightarrow> fault + 'd cval" where
  "range_value this f (MemberRange x) = source_value this f (Member x)"
| "range_value this f (MapRange x) = source_value this f (Member x)"
| "range_value this f SecondRange = source_value this f Second"

fun range_class :: "'d writing \<Rightarrow> 'd wframe \<Rightarrow> range \<Rightarrow> string" where
  "range_class W f (MemberRange x) = class_of W x"
| "range_class W f (MapRange x) = class_of W x"
| "range_class W f SecondRange = loop_class f"

fun loop_over ::
  "string \<Rightarrow> string \<Rightarrow> ('d wframe \<Rightarrow> fault + 'd wframe) \<Rightarrow> 'd cval \<Rightarrow> 'd wframe \<Rightarrow> fault + 'd wframe"
where
  "loop_over i t body (CVector xs) f =
     wloop (\<lambda>x f. f\<lparr>vars := (vars f)(i \<mapsto> x), loop_class := t\<rparr>) body xs f"
| "loop_over i t body (CMap m) f = wloop (\<lambda>p f. f\<lparr>pair := Some p, loop_class := t\<rparr>) body m f"
| "loop_over i t body _ f = Inl NotCompiled"

primrec wexec :: "'d writing \<Rightarrow> 'd fields \<Rightarrow> wstmt \<Rightarrow> 'd wframe \<Rightarrow> fault + 'd wframe" where
  "wexec W this (WComment c) = Inr"
| "wexec W this (Add k e) =
     (\<lambda>f. bind_fault (wkey_value f k) (\<lambda>key. bind_fault (written_value W this f e) (\<lambda>v.
        bind_fault (AddMember (doc f) key v) (\<lambda>d. Inr (moved e (f\<lparr>doc := d\<rparr>))))))"
| "wexec W this (Declares x e) =
     (\<lambda>f. bind_fault (written_value W this f e) (\<lambda>v. Inr (f\<lparr>jsons := (jsons f)(x \<mapsto> v)\<rparr>)))"
| "wexec W this (Push a x) =
     (\<lambda>f. bind_fault (written_value W this f (JsonVar a)) (\<lambda>arr.
        bind_fault (written_value W this f (JsonVar x)) (\<lambda>v.
        bind_fault (PushBack arr v) (\<lambda>arr'.
          Inr (f\<lparr>jsons := (jsons f)(x \<mapsto> Null, a \<mapsto> arr')\<rparr>)))))"
| "wexec W this (SerializeTo e x) =
     (\<lambda>f. bind_fault (source_value this f e) (\<lambda>v.
        bind_fault (written_value W this f (JsonVar x)) (\<lambda>j.
          (case v of
             CObject ob \<Rightarrow>
               bind_fault (wcall W (source_class W f e) ob j) (\<lambda>j'.
                 Inr (f\<lparr>jsons := (jsons f)(x \<mapsto> j')\<rparr>))
           | _ \<Rightarrow> Inl NotCompiled))))"
| "wexec W this (NameOf j) =
     (\<lambda>f. bind_fault (source_value this f (LoopVar j)) (\<lambda>v.
        bind_fault (enum_text W v) (\<lambda>s. Inr (f\<lparr>cname := s\<rparr>))))"
| "wexec W this (BaseTo b) =
     (\<lambda>f. bind_fault (wcall W b this (doc f)) (\<lambda>d. Inr (f\<lparr>doc := d\<rparr>)))"
| "wexec W this (WBlock ss) = wseq (map (wexec W this) ss)"
| "wexec W this (IfHas x s) =
     (\<lambda>f. bind_fault (source_value this f (Member x)) (\<lambda>v. case v of
        COptional None \<Rightarrow> Inr f
      | COptional (Some y) \<Rightarrow> wexec W this s f
      | _ \<Rightarrow> Inl NotCompiled))"
| "wexec W this (WFor i r s) =
     (\<lambda>f. bind_fault (range_value this f r) (\<lambda>v.
        loop_over i (range_class W f r) (wexec W this s) v f))"

end
