(* ===== verification/JsonStatements.thy ===== *)
theory JsonStatements
  imports CppWrite Faults
begin

text \<open>
  The statements of \<open>deserializeFrom\<close> and \<open>serializeTo\<close> for one class: one definition for each
  definition of \<open>EmitDeserialize\<close> and \<open>EmitSerialize\<close>, with the same branches.
\<close>

section \<open>The statements of deserializeFrom\<close>

definition read_map :: "bool \<Rightarrow> string list \<Rightarrow> MemberVariable \<Rightarrow> stmt list" where
\<open>read_map isNumeric nonMapItems i =
  [Comment ('' Deserialize map: '_'' @ mMember i @ '' ' of type 'string' ''),
   Block [ForMembers (Block (
     [Key, Bind ''item'' IterValue]
     @ (if isNumeric then
          [Block [If (Test (Named ''item'') ''IsString'')
             (Block [Init ''uint64_t'' ''ivalue'' Zero,
                     StringToInt (Named ''item'') ''ivalue'',
                     Assign (Entry (mMember i)) (Local ''ivalue'')])
             (Some (If (Test (Named ''item'') ''IsNumber'')
               (Block [Assign (Entry (mMember i)) (Accessor (Named ''item'') ''GetUint64'')])
               None))]]
        else
          [If (Test (Named ''item'') ''IsString'')
             (Block (
               [Init ''const char *'' ''value'' (Accessor (Named ''item'') ''GetString'')]
               @ (if nonMapItems \<noteq> [] then
                    [Comment '' Skip keys which we already deserialize explicitly by name.'',
                     If IsMember (Block [])
                       (Some (Block [Assign (Entry (mMember i)) (Cast ''std::string'' (Local ''value''))]))]
                  else
                    [Block [Assign (Entry (mMember i)) (Cast ''std::string'' (Local ''value''))]])))
             None])))]]\<close>

definition fails :: stmt where
  "fails = Block [Return False]"

definition read_numeric_array :: "string \<Rightarrow> MemberVariable \<Rightarrow> stmt" where
  "read_numeric_array getType i =
     If (Test (Named ''v'') ''IsArray'')
       (Block
         [DeclareVector (getCppTypeString (mType i) False) (mMember i),
          ForElements ''v'' (Block
            [Bind ''entry'' (Element ''v''),
             Declare (getCppTypeString (mType i) False) ''ivalue'',
             If (Test (Named ''entry'') ''IsString'')
               (Block [StringToInt (Named ''entry'') ''ivalue''])
               (Some (If (Test (Named ''entry'') ''IsNumber'')
                 (Block [Assign (LocalVar ''ivalue'') (Accessor (Named ''entry'') getType)])
                 (Some fails))),
             PushTo (LocalVar (mMember i)) (Local ''ivalue'')]),
          Assign (Field (mMember i)) (Local (mMember i))])
       (Some fails)"

definition read_numeric :: "string \<Rightarrow> MemberVariable \<Rightarrow> stmt" where
  "read_numeric getType i =
     If (Test (Named ''v'') ''IsString'')
       (Block
         [Declare (getCppTypeString (mType i) False) ''ivalue'',
          StringToInt (Named ''v'') ''ivalue'',
          Assign (Field (mMember i)) (Local ''ivalue'')])
       (Some (If (Test (Named ''v'') ''IsNumber'')
         (Block [Assign (Field (mMember i)) (Accessor (Named ''v'') getType)])
         (Some fails)))"

text \<open>The last branches of a test chain: floating-point members accept other numbers.\<close>

definition read_other_number :: "StandardType \<Rightarrow> MemberVariable \<Rightarrow> stmt" where
  "read_other_number type i =
     (let convert = (\<lambda>t rest.
        If (Test (Named ''v'') ''IsNumber'')
          (Block [Assign (Field (mMember i)) (Cast t (Accessor (Named ''v'') ''GetUint64''))])
          (Some rest))
      in if type = float_type then convert ''float'' fails
         else if type = double_type then convert ''double'' fails
         else fails)"

definition read_checked ::
  "StandardType \<Rightarrow> string \<Rightarrow> string \<Rightarrow> string \<Rightarrow> MemberVariable \<Rightarrow> stmt"
where
  "read_checked type checkName getName getType i =
     If (Test (Named ''v'') checkName)
       (Block
         [if mIsArray i then
            If (Test (Named ''v'') ''IsArray'')
              (Block [ForElements ''v'' (Block
                 [Bind ''item'' (Element ''v''),
                  If (Test (Named ''item'') checkName)
                    (Block [PushTo (Field (mMember i))
                       (Cast ''std::string'' (Accessor (Named ''item'') getName))])
                    (Some fails)])])
              (Some fails)
          else Assign (Field (mMember i)) (Accessor (Named ''v'') getType)])
       (Some (read_other_number type i))"

text \<open>A lookup, the block of a member that is there, and the error of a required one that is not.\<close>

definition found_block :: "MemberVariable \<Rightarrow> stmt list \<Rightarrow> stmt list" where
  "found_block i body =
     [Find (mMember i),
      If Found (Block body) (if mIsOptional i \<noteq> required then None else Some fails)]"

definition read_value :: "StandardType \<Rightarrow> bool \<Rightarrow> string \<Rightarrow> MemberVariable \<Rightarrow> stmt list" where
  "read_value type isNumeric getType i =
     found_block i
       [Bind ''v'' FoundValue,
        if isNumeric then
          (if mIsArray i then read_numeric_array getType i else read_numeric getType i)
        else (case check_names type of
                None \<Rightarrow> Block []
              | Some (checkName, getName) \<Rightarrow> read_checked type checkName getName getType i)]"

definition read_standard :: "string list \<Rightarrow> MemberVariable \<Rightarrow> stmt list" where
  "read_standard nonMapItems i =
     (case deserializeTypeName (getStandardType (mType i)) of
        (getType, isNumeric) \<Rightarrow>
          (if mIsMap i then read_map isNumeric nonMapItems i
           else (case getType of
                   None \<Rightarrow> []
                 | Some g \<Rightarrow> read_value (getStandardType (mType i)) isNumeric g i)))"

definition read_enum_map :: "MemberVariable \<Rightarrow> stmt list" where
  "read_enum_map i =
     [Comment ''Deserialize this array of enums as a map.'',
      ForMembers (Block
        [Key, Bind ''item'' IterValue,
         If (Test (Named ''item'') ''IsArray'')
           (Block
             [DeclareVector (mType i) ''items'',
              ForElements ''item'' (Block
                [Bind ''entry'' (Element ''item''),
                 If (Test (Named ''entry'') ''IsString'')
                   (Block
                     [Declare ''bool'' ''isOk'',
                      Init (mType i) ''p'' (Unstringify (mType i) (Named ''entry'')),
                      If IsOk (Block [PushTo (LocalVar ''items'') (Local ''p'')]) (Some fails)])
                   (Some fails)]),
              Assign (Entry (mMember i)) (Local ''items'')])
           (Some fails)])]"

definition read_array :: "bool \<Rightarrow> MemberVariable \<Rightarrow> stmt list" where
\<open>read_array isEnum i =
  Comment (''Deserialize an array of objects of type ' '' @ mType i @ '' ' to array ' '' @ mMember i @ '' '.'')
  # found_block i
      [Bind ''v'' FoundValue,
       If (Test (Named ''v'') ''IsArray'')
         (Block [ForElements ''v'' (Block (
            Bind ''item'' (Element ''v'')
            # (if isEnum then
                 [If (Test (Named ''item'') ''IsString'')
                    (Block
                      [Declare ''bool'' ''isOk'',
                       Init (mType i) ''h'' (Unstringify (mType i) (Named ''item'')),
                       If IsOk (Block [PushTo (Field ''acl'') (Local ''h'')]) (Some fails)])
                    (Some fails)]
               else
                 [Declare (mType i) ''h'',
                  If (Deserializes (Named ''item'') ''h'')
                    (Block [PushTo (Field (mMember i)) (Local ''h'')])
                    (Some fails)])))])
         (Some fails)]\<close>

text \<open>A required enum that is missing is no error here.\<close>

definition read_enum :: "MemberVariable \<Rightarrow> stmt list" where
  "read_enum i =
     [Find (mMember i),
      If Found
        (Block
          [Bind ''v'' FoundValue,
           If (Test (Named ''v'') ''IsString'')
             (Block
               [Declare ''bool'' ''isOk'',
                Assign (Field (mMember i)) (Unstringify (mType i) (Named ''v'')),
                If NotOk fails None])
             (Some (Block
               [if mSerializeEnumAsInteger i then
                  If (Test (Named ''v'') ''IsNumber'')
                    (Block
                      [Init ''uint64_t'' ''evalue'' (Accessor (Named ''v'') ''GetUint64''),
                       Assign (Field (mMember i)) (ToEnum (mType i) (Local ''evalue''))])
                    (Some fails)
                else Return False]))])
        None]"

definition read_object :: "MemberVariable \<Rightarrow> stmt list" where
\<open>read_object i =
  Comment ('' Deserialize object type ' '' @ mType i @ '' ' into member variable ' '' @ mMember i @ '' ' '')
  # found_block i
      [Declare (mType i) ''h'',
       If (Deserializes FoundValue ''h'')
         (Block [Assign (Field (mMember i)) (Local ''h'')])
         (Some fails)]\<close>

definition read_named :: "ClassEnumMap \<Rightarrow> MemberVariable \<Rightarrow> stmt list" where
  "read_named classEnum i =
     (case classEnum (mType i) of
        None \<Rightarrow> [Comment '' TODO: Need to deserialize this type.'']
      | Some isEnum \<Rightarrow>
          (if mIsArray i then (if mIsMap i then read_enum_map i else read_array isEnum i)
           else if isEnum then read_enum i
           else read_object i))"

definition read_member :: "ClassEnumMap \<Rightarrow> string list \<Rightarrow> MemberVariable \<Rightarrow> stmt list" where
\<open>read_member classEnum nonMapItems i =
  (if mInheritsFrom i \<noteq> [] then []
   else
     [Comment ('' Deserialize member: ' '' @ mMember i @ '' ' of type ' '' @ mType i @ '' ' ''),
      Block
        (if getStandardType (mType i) \<noteq> st_none then read_standard nonMapItems i
         else read_named classEnum i)])\<close>

definition read_function :: "ClassEnumMap \<Rightarrow> Object \<Rightarrow> stmt" where
\<open>read_function classEnum ob =
  Block (
    (if mInheritsFromO ob \<noteq> [] then
       [Comment (''Deserialize the base class ('' @ mInheritsFromO ob @ '') first.''),
        If (NotBase (mInheritsFromO ob)) fails None]
     else [])
    @ concat (map (read_member classEnum (non_map_items ob)) (mItems ob))
    @ [Return True])\<close>

section \<open>The statements of serializeTo\<close>

definition write_standard :: "MemberVariable \<Rightarrow> wstmt list" where
\<open>write_standard i =
  (if mIsArray i then
     (if mIsMap i then
        [WComment ('' Serialize this map type: '' @ mMember i @ '' : '' @ mType i),
         WFor ''i'' (MapRange (mMember i)) (WBlock [Add FirstText (Plain Second)])]
      else
        [WBlock
          [Declares ''varray'' EmptyArray,
           WFor ''i'' (MemberRange (mMember i)) (WBlock
             [Declares ''v'' (Plain (LoopVar ''i'')), Push ''varray'' ''v'']),
           Add (Quoted (mMember i)) (JsonVar ''varray'')]])
   else if mIsOptional i = optional then
     [IfHas (mMember i) (WBlock [Add (Quoted (mMember i)) (Plain (ValueOf (Member (mMember i))))])]
   else [Add (Quoted (mMember i)) (Plain (Member (mMember i)))])\<close>

definition write_string :: "MemberVariable \<Rightarrow> wstmt list" where
  "write_string i =
     (if mIsArray i then
        (let block = WBlock (
           [Declares ''v'' EmptyArray]
           @ (if mIsMap i then
                [WFor ''i'' (MapRange (mMember i)) (WBlock [Add FirstText (CText Second)])]
              else
                [WFor ''i'' (MemberRange (mMember i)) (WBlock
                   [Declares ''item'' (CText (LoopVar ''i'')), Push ''v'' ''item'']),
                 Add (Quoted (mMember i)) (JsonVar ''v'')]))
         in [if mIsOptional i = optional then IfHas (mMember i) block else block])
      else if mIsOptional i = optional then
        [IfHas (mMember i) (WBlock [Add (Quoted (mMember i)) (CText (ValueOf (Member (mMember i))))])]
      else [Add (Quoted (mMember i)) (CText (Member (mMember i)))])"

definition write_named_array :: "ClassEnumMap \<Rightarrow> MemberVariable \<Rightarrow> wstmt list" where
  "write_named_array classEnum i =
     [WBlock
       (if mIsMap i then
          [WFor ''i'' (MapRange (mMember i)) (WBlock
            [Declares ''v'' EmptyArray,
             WFor ''j'' SecondRange (WBlock
               [NameOf ''j'', Declares ''item'' NameText, Push ''v'' ''item'']),
             Add FirstText (JsonVar ''v'')])]
        else
          [Declares ''array'' EmptyArray,
           WFor ''i'' (MemberRange (mMember i)) (WBlock (
             (if classEnum (mType i) = Some True then
                [Declares ''v'' (EnumText (LoopVar ''i''))]
              else
                [Declares ''v'' EmptyObject, SerializeTo (LoopVar ''i'') ''v''])
             @ [Push ''array'' ''v''])),
           Add (Quoted (mMember i)) (JsonVar ''array'')])]"

definition write_enum :: "MemberVariable \<Rightarrow> wstmt list" where
  "write_enum i =
     (let put = (\<lambda>e. Add (Quoted (mMember i))
            (if mSerializeEnumAsInteger i then Unsigned64 e else EnumText e))
      in if mIsOptional i = optional then
           [IfHas (mMember i) (WBlock [put (ValueOf (Member (mMember i)))])]
         else [put (Member (mMember i))])"

definition write_object :: "MemberVariable \<Rightarrow> wstmt list" where
  "write_object i =
     (let block = (\<lambda>e. WBlock
            [Declares ''v'' EmptyObject, SerializeTo e ''v'', Add (Quoted (mMember i)) (JsonVar ''v'')])
      in if mIsOptional i = optional then
           [IfHas (mMember i) (block (ValueOf (Member (mMember i))))]
         else [block (Member (mMember i))])"

definition write_member :: "ClassEnumMap \<Rightarrow> MemberVariable \<Rightarrow> wstmt list" where
  "write_member classEnum i =
     (if mInheritsFrom i \<noteq> [] then []
      else if isStandardType (mType i) then write_standard i
      else if mType i = ''string'' then write_string i
      else (case classEnum (mType i) of
              None \<Rightarrow> []
            | Some isEnum \<Rightarrow>
                (if mIsArray i then write_named_array classEnum i
                 else if isEnum then write_enum i
                 else write_object i)))"

definition write_function :: "ClassEnumMap \<Rightarrow> Object \<Rightarrow> wstmt list" where
  "write_function classEnum ob =
     (if mInheritsFromO ob \<noteq> [] then [BaseTo (mInheritsFromO ob)] else [])
     @ concat (map (write_member classEnum) (mItems ob))"

end
