(* ===== verification/SolidText.thy ===== *)
theory SolidText
  imports JsonStatements
begin

text \<open>
  Text without blanks: how the text of a call list is read off from its front, for the proofs that
  the emitters print the statements of theory \<open>JsonStatements\<close>.
\<close>

section \<open>Solid text\<close>

text \<open>The solid text of a call list, read from its front.\<close>

definition solid_text :: "code \<Rightarrow> string" where
  "solid_text cs = solid (code_text cs)"

lemma solid_simps [simp]:
  "solid [] = []" "solid (c # s) = (if c = CHR '' '' then solid s else c # solid s)"
  "solid (s @ t) = solid s @ solid t"
  by (simp_all add: solid_def)

fun solid_format :: "string \<Rightarrow> arg list \<Rightarrow> string" where
  "solid_format [] as = []"
| "solid_format (c # f) as =
     (if c = CHR ''%'' then
        (case f of
           [] \<Rightarrow> [c]
         | d # f' \<Rightarrow>
             (if d = CHR ''%'' then c # solid_format f' as
              else (case as of
                      [] \<Rightarrow> solid_format f' []
                    | a # as' \<Rightarrow> solid (arg_text a) @ solid_format f' as')))
      else if c = CHR '' '' then solid_format f as
      else c # solid_format f as)"

lemma solid_vformat: "solid (vformat f as) = solid_format f as"
  by (induction f as rule: vformat.induct) (auto split: list.split)

lemma no_abort_text:
  "no_abort xs \<Longrightarrow> code_text (xs @ ys) = code_text xs @ code_text ys"
  by (induction xs rule: no_abort.induct) auto

lemma solid_text_Nil [simp]: "solid_text [] = []"
  by (simp add: solid_text_def)

lemma solid_text_lf [simp]: "solid_text (lf # cs) = lf_char # solid_text cs"
  by (simp add: solid_text_def lf_def lf_char_def)

lemma solid_text_pc [simp]:
  assumes "length f + sum_list (map (\<lambda>a. length (arg_text a)) as) < 4096"
  shows "solid_text (pc n f as # cs) = solid_format f as @ solid_text cs"
proof -
  have "snprintf 4096 f as = vformat f as"
    using assms length_vformat[of f as] by (intro snprintf_short) linarith
  then show ?thesis by (simp add: solid_text_def pc_def solid_vformat)
qed

lemma solid_text_append: "no_abort xs \<Longrightarrow> solid_text (xs @ ys) = solid_text xs @ solid_text ys"
  by (simp add: solid_text_def no_abort_text)

text \<open>The simplifier walks a call list from its front.\<close>

lemma solid_text_front [simp]:
  "solid_text ([] @ ys) = solid_text ys"
  "solid_text ((c # xs) @ ys) = solid_text (c # xs @ ys)"
  "solid_text ((xs @ ys) @ zs) = solid_text (xs @ ys @ zs)"
  "solid_text ((if b then xs else zs) @ ys) = (if b then solid_text (xs @ ys) else solid_text (zs @ ys))"
  "solid_text (if b then xs else zs) = (if b then solid_text xs else solid_text zs)"
  by simp_all

lemma solid_text_cong [cong]: "solid_text cs = solid_text cs"
  by simp

text \<open>A call list in the middle of a text.\<close>

lemma solid_text_middle:
  "no_abort xs \<Longrightarrow> solid_text xs = u \<Longrightarrow> solid_text (xs @ ys) = u @ solid_text ys"
  by (simp add: solid_text_append)

text \<open>Names that fit the 512-byte buffers of the emitter.\<close>

definition fitting :: "MemberVariable \<Rightarrow> bool" where
  "fitting i \<longleftrightarrow> length (mMember i) < 512 \<and> length (mType i) < 512"

lemma length_getCppTypeString: "length t < 512 \<Longrightarrow> length (getCppTypeString t b) < 512"
  by (simp add: getCppTypeString_def)

end
