(* ===== verification/ReadText.thy ===== *)
theory ReadText
  imports SolidText
begin

text \<open>
  The text of the statements of a \<open>deserializeFrom\<close> is what \<open>Object::saveDeserialize\<close>
  (src/src/CreateDOM.cpp) prints, blanks aside.
\<close>

section \<open>Members\<close>

definition solid_stmts :: "stmt list \<Rightarrow> string" where
  "solid_stmts ss = solid (concat (map stmt_text ss))"

lemma solid_stmts_simps [simp]:
  "solid_stmts [] = []" "solid_stmts (s # ss) = solid (stmt_text s) @ solid_stmts ss"
  "solid_stmts (ss @ ts) = solid_stmts ss @ solid_stmts ts"
  by (simp_all add: solid_stmts_def)

lemma solid_block [simp]:
  "solid (stmt_text (Block ss)) = ''{\<newline>'' @ solid_stmts ss @ ''}\<newline>''"
  by (simp add: solid_stmts_def)

lemma fails_text [simp]: "solid_stmts [fails] = ''{\<newline>returnfalse;\<newline>}\<newline>''"
  by (simp add: fails_def)

lemma text_numeric:
  assumes "fitting i" "length g < 512"
  shows "solid_text (deser_numeric g i) = solid_stmts [read_numeric g i]"
  using assms length_getCppTypeString[of "mType i" False]
  unfolding deser_numeric_def read_numeric_def fitting_def fails_def by simp

lemma text_numeric_array:
  assumes "fitting i" "length g < 512"
  shows "solid_text (deser_numeric_array g i) = solid_stmts [read_numeric_array g i]"
  using assms length_getCppTypeString[of "mType i" False]
  unfolding deser_numeric_array_def read_numeric_array_def fitting_def fails_def by simp

lemma text_map:
  assumes "fitting i" "n \<longrightarrow> xs = []"
  shows "solid_text (deser_map n xs i) = solid_stmts (read_map n xs i)"
  using assms unfolding deser_map_def read_map_def fitting_def
  by (cases n; cases "xs = []") simp_all

lemma text_checked:
  assumes "fitting i" "length g < 512" "length c < 512" "length h < 512"
  shows "solid_text (deser_checked st c h g i) = solid_stmts [read_checked st c h g i]"
  using assms unfolding deser_checked_def read_checked_def fitting_def read_other_number_def fails_def Let_def
  by (cases "mIsArray i"; cases st) simp_all

lemma text_enum:
  assumes "fitting i"
  shows "solid_text (deser_enum i) = solid_stmts (read_enum i)"
  using assms unfolding deser_enum_def read_enum_def fitting_def fails_def by simp

lemma text_object:
  assumes "fitting i"
  shows "solid_text (deser_object i) = solid_stmts (read_object i)"
  using assms unfolding deser_object_def read_object_def found_block_def fitting_def fails_def by simp

lemma text_array:
  assumes "fitting i"
  shows "solid_text (deser_array b i) = solid_stmts (read_array b i)"
  using assms unfolding deser_array_def read_array_def found_block_def fitting_def fails_def
  by (cases b) simp_all

lemma text_enum_map:
  assumes "fitting i"
  shows "solid_text (deser_enum_map i) = solid_stmts (read_enum_map i)"
  using assms unfolding deser_enum_map_def read_enum_map_def fitting_def fails_def by simp

lemma text_value:
  assumes "fitting i" "deserializeTypeName st = (Some g, n)"
  shows "solid_text (deser_value st n g i) = solid_stmts (read_value st n g i)"
proof -
  have g: "length g < 512" using assms(2) by (cases st) auto
  note f = assms(1)[unfolded fitting_def]
  show ?thesis
  proof (cases n)
    case True
    have na: "no_abort (deser_numeric_array g i)" "no_abort (deser_numeric g i)"
      by (simp_all add: deser_numeric_array_def deser_numeric_def)
    note parts = solid_text_middle[OF na(1) text_numeric_array[OF assms(1) g]]
      solid_text_middle[OF na(2) text_numeric[OF assms(1) g]]
    show ?thesis
      unfolding deser_value_def read_value_def found_block_def
      using f by (cases "mIsArray i") (simp_all add: True parts fails_def)
  next
    case False
    then obtain c h where c: "check_names st = Some (c, h)"
      using check_names_total[OF assms(2)] by auto
    then have l: "length c < 512" "length h < 512" by (cases st; force)+
    have na: "no_abort (deser_checked st c h g i)" by (simp add: deser_checked_def)
    note part = solid_text_middle[OF na text_checked[OF assms(1) g l]]
    show ?thesis
      unfolding deser_value_def read_value_def found_block_def c option.case prod.case
      using f by (simp add: False part fails_def)
  qed
qed

lemma text_standard:
  assumes "fitting i" "getStandardType (mType i) \<noteq> st_none"
    "mIsMap i \<and> integer_type (mType i) \<longrightarrow> xs = []"
  shows "solid_text (deser_standard xs i) = solid_stmts (read_standard xs i)"
proof -
  obtain g n where gn: "deserializeTypeName (getStandardType (mType i)) = (Some g, n)"
    using assms(2) by (cases "getStandardType (mType i)") auto
  have "n = integer_type (mType i)"
    using integer_flag[of "mType i"] gn assms(2) by simp
  then show ?thesis
    using text_map[OF assms(1), of n xs] text_value[OF assms(1) gn] assms(3)
    unfolding deser_standard_def read_standard_def gn prod.case option.case by simp
qed

lemma text_named:
  assumes "fitting i"
  shows "solid_text (deser_named ce i) = solid_stmts (read_named ce i)"
proof (cases "ce (mType i)")
  case None
  show ?thesis unfolding deser_named_def read_named_def None option.case by simp
next
  case (Some isEnum)
  show ?thesis
    using text_enum_map[OF assms] text_array[OF assms] text_enum[OF assms] text_object[OF assms]
    unfolding deser_named_def read_named_def Some option.case by simp
qed

lemma text_member:
  assumes "fitting i" "own i \<and> mIsMap i \<and> integer_type (mType i) \<longrightarrow> xs = []"
  shows "solid_text (deser_member ce xs i) = solid_stmts (read_member ce xs i)"
proof (cases "own i")
  case True
  let ?body = "if getStandardType (mType i) \<noteq> st_none then deser_standard xs i else deser_named ce i"
  let ?read = "if getStandardType (mType i) \<noteq> st_none then read_standard xs i else read_named ce i"
  have "no_abort ?body"
    using assms(2) True deser_standard_no_abort[of i xs] deser_named_no_abort[of ce i] by auto
  moreover have "solid_text ?body = solid_stmts ?read"
    using assms True text_standard[OF assms(1), of xs] text_named[OF assms(1), of ce] by simp
  ultimately have body: "solid_text (?body @ ys) = solid_stmts ?read @ solid_text ys" for ys
    by (rule solid_text_middle)
  show ?thesis
    using assms(1) True body unfolding deser_member_def read_member_def own_def fitting_def
    by simp (simp add: solid_stmts_def)
next
  case False
  then show ?thesis unfolding deser_member_def read_member_def own_def by simp
qed

lemma text_members:
  assumes "\<And>i. i \<in> set is \<Longrightarrow> fitting i \<and> (own i \<and> mIsMap i \<and> integer_type (mType i) \<longrightarrow> xs = [])"
  shows "no_abort (concat (map (deser_member ce xs) is))"
    "solid_text (concat (map (deser_member ce xs) is)) = solid_stmts (concat (map (read_member ce xs) is))"
proof -
  show "no_abort (concat (map (deser_member ce xs) is))"
    using assms by (auto simp: deser_member_no_abort)
  show "solid_text (concat (map (deser_member ce xs) is)) = solid_stmts (concat (map (read_member ce xs) is))"
    using assms
  proof (induction "is")
    case Nil
    show ?case unfolding list.map concat.simps by simp
  next
    case (Cons i "is")
    have "no_abort (deser_member ce xs i)" using Cons.prems by (auto simp: deser_member_no_abort)
    then have "solid_text (deser_member ce xs i @ concat (map (deser_member ce xs) is)) =
        solid_stmts (read_member ce xs i) @ solid_text (concat (map (deser_member ce xs) is))"
      using Cons.prems text_member[of i xs ce] by (intro solid_text_middle) auto
    moreover have "concat (map (deser_member ce xs) (i # is)) =
        deser_member ce xs i @ concat (map (deser_member ce xs) is)"
      by simp
    moreover have "solid_text (concat (map (deser_member ce xs) is)) =
        solid_stmts (concat (map (read_member ce xs) is))"
      by (rule Cons.IH) (use Cons.prems in auto)
    ultimately show ?case by (simp only: solid_stmts_simps list.map concat.simps)
  qed
qed

text \<open>The text in front of and behind the body of a \<open>deserializeFrom\<close>.\<close>

definition read_signature :: "Object \<Rightarrow> string" where
  "read_signature ob =
     ''\<newline>// Deserialize object '' @ mName ob @
     ''\<newline>template<typename DocumentOrObject>\<newline>bool deserializeFrom(const DocumentOrObject& d, ''
     @ mName ob @ ''& r)\<newline>''"

definition read_instance :: "Object \<Rightarrow> string" where
  "read_instance ob = ''\<newline>\<newline>template struct details::Deserialize<'' @ mName ob @ ''>;\<newline>\<newline>''"

lemma text_function:
  assumes "length (mName ob) < 512" "length (mInheritsFromO ob) < 512"
    "\<And>i. i \<in> set (mItems ob) \<Longrightarrow>
       fitting i \<and> (own i \<and> mIsMap i \<and> integer_type (mType i) \<longrightarrow> non_map_items ob = [])"
  shows "solid_text (saveDeserialize_impl ce ob) =
    solid (read_signature ob @ stmt_text (read_function ce ob) @ read_instance ob)"
proof -
  note members = text_members[of "mItems ob" "non_map_items ob", OF assms(3)]
  show ?thesis
    using assms(1,2)
    unfolding saveDeserialize_impl_def read_function_def read_signature_def read_instance_def fails_def
    by (simp add: solid_text_middle[OF members] lf_char_def) (simp add: solid_stmts_def)
qed

end
