(* ===== verification/WriteText.thy ===== *)
theory WriteText
  imports SolidText
begin

text \<open>
  The text of the statements of a \<open>serializeTo\<close> is what \<open>Object::saveSerialize\<close>
  (src/src/CreateDOM.cpp) prints, blanks aside.
\<close>

section \<open>Members and functions\<close>

definition solid_writes :: "wstmt list \<Rightarrow> string" where
  "solid_writes ss = solid (concat (map wstmt_text ss))"

lemma solid_writes_simps [simp]:
  "solid_writes [] = []" "solid_writes (s # ss) = solid (wstmt_text s) @ solid_writes ss"
  "solid_writes (ss @ ts) = solid_writes ss @ solid_writes ts"
  by (simp_all add: solid_writes_def)

lemma text_ser_standard:
  assumes "fitting i"
  shows "solid_text (ser_standard i) = solid_writes (write_standard i)"
  using assms unfolding ser_standard_def write_standard_def fitting_def by simp

lemma text_ser_string:
  assumes "fitting i"
  shows "solid_text (ser_string i) = solid_writes (write_string i)"
  using assms unfolding ser_string_def write_string_def fitting_def Let_def
  by (cases "mIsArray i"; cases "mIsMap i"; cases "mIsOptional i = optional") simp_all

lemma text_ser_named_array:
  assumes "fitting i"
  shows "solid_text (ser_named_array ce i) = solid_writes (write_named_array ce i)"
  using assms unfolding ser_named_array_def write_named_array_def fitting_def
  by (cases "mIsMap i") simp_all

lemma text_ser_enum:
  assumes "fitting i"
  shows "solid_text (ser_enum i) = solid_writes (write_enum i)"
  using assms unfolding ser_enum_def write_enum_def fitting_def Let_def by simp

lemma text_ser_object:
  assumes "fitting i"
  shows "solid_text (ser_object i) = solid_writes (write_object i)"
  using assms unfolding ser_object_def write_object_def fitting_def Let_def
  by (cases "mIsOptional i = optional") simp_all

lemma text_ser_member:
  assumes "fitting i" "own i \<longrightarrow> known_type ce (mType i)"
  shows "solid_text (ser_member ce i) = solid_writes (write_member ce i)"
proof (cases "own i \<and> \<not> isStandardType (mType i) \<and> mType i \<noteq> ''string''")
  case True
  then obtain isEnum where ce: "ce (mType i) = Some isEnum"
    using assms(2) by (auto simp: known_type_def)
  show ?thesis
    using True text_ser_named_array[OF assms(1), of ce] text_ser_enum[OF assms(1)]
      text_ser_object[OF assms(1)]
    unfolding ser_member_def write_member_def own_def ce option.case by simp
next
  case False
  then show ?thesis
    using text_ser_standard[OF assms(1)] text_ser_string[OF assms(1)]
    unfolding ser_member_def write_member_def own_def by auto
qed

lemma text_ser_members:
  assumes "\<And>i. i \<in> set is \<Longrightarrow> fitting i \<and> (own i \<longrightarrow> known_type ce (mType i))"
  shows "no_abort (concat (map (ser_member ce) is))"
    "solid_text (concat (map (ser_member ce) is)) = solid_writes (concat (map (write_member ce) is))"
proof -
  show "no_abort (concat (map (ser_member ce) is))"
    using assms by (auto simp: ser_member_no_abort)
  show "solid_text (concat (map (ser_member ce) is)) = solid_writes (concat (map (write_member ce) is))"
    using assms
  proof (induction "is")
    case Nil
    show ?case unfolding list.map concat.simps by simp
  next
    case (Cons i "is")
    have "no_abort (ser_member ce i)" using Cons.prems by (auto simp: ser_member_no_abort)
    then have "solid_text (ser_member ce i @ concat (map (ser_member ce) is)) =
        solid_writes (write_member ce i) @ solid_text (concat (map (ser_member ce) is))"
      using Cons.prems text_ser_member[of i ce] by (intro solid_text_middle) auto
    moreover have "solid_text (concat (map (ser_member ce) is)) =
        solid_writes (concat (map (write_member ce) is))"
      by (rule Cons.IH) (use Cons.prems in auto)
    ultimately show ?case by (simp only: solid_writes_simps list.map concat.simps)
  qed
qed

text \<open>The text in front of the statements and behind them.\<close>

definition write_signature :: "Object \<Rightarrow> string" where
  "write_signature ob =
     ''\<newline>template<typename DocumentOrObject, typename Alloc>\<newline>''
     @ ''DocumentOrObject& serializeTo(const '' @ mName ob @ ''& type, DocumentOrObject& d, Alloc& alloc)\<newline>{\<newline>''"

definition write_rest :: "Object \<Rightarrow> string" where
  "write_rest ob =
     ''return d;\<newline>}\<newline>\<newline>std::string serialize(const '' @ mName ob @ ''& type)\<newline>{\<newline>''
     @ ''rapidjson::Document d;\<newline>d.SetObject();\<newline>serializeTo(type, d, d.GetAllocator());\<newline>''
     @ ''return serializeDocument(d);\<newline>}\<newline>\<newline>''"

lemma text_serializer:
  assumes "length (mName ob) < 512" "length (mInheritsFromO ob) < 512"
    "\<And>i. i \<in> set (mItems ob) \<Longrightarrow> fitting i \<and> (own i \<longrightarrow> known_type ce (mType i))"
  shows "solid_text (saveSerialize_impl ce ob) =
    solid (write_signature ob @ concat (map wstmt_text (write_function ce ob)) @ write_rest ob)"
proof -
  note members = text_ser_members[of "mItems ob" ce, OF assms(3)]
  show ?thesis
    using assms(1,2)
    unfolding saveSerialize_impl_def write_function_def write_signature_def write_rest_def
    by (simp add: solid_text_middle[OF members] lf_char_def) (simp add: solid_writes_def)
qed

end
