(* ===== verification/JsonText.thy ===== *)
theory JsonText
  imports ReadText WriteText
begin

text \<open>
  The two generated functions of a class, as text: what \<open>JsonStatements\<close> says a class's
  \<open>serializeTo\<close> and \<open>deserializeFrom\<close> are is what the generator prints for it.
\<close>

text \<open>Names that fit the generator's buffers, as every import leaves them (\<open>parse_invariant\<close>).\<close>

definition short_names :: "Object \<Rightarrow> bool" where
  "short_names ob \<longleftrightarrow>
     length (mName ob) < 512 \<and> length (mInheritsFromO ob) < 512 \<and> list_all fitting (mItems ob)"

text \<open>No emitter assertion fails for the class.\<close>

definition emitted :: "ClassEnumMap \<Rightarrow> Object \<Rightarrow> bool" where
  "emitted ce ob \<longleftrightarrow>
     list_all (\<lambda>i. own i \<longrightarrow> known_type ce (mType i) \<and>
       (mIsMap i \<and> integer_type (mType i) \<longrightarrow> non_map_items ob = [])) (mItems ob)"

text \<open>
  C25. The generated JSON functions are the modelled ones. For a class whose names fit the buffers
  and for which no emitter assertion fails, what \<open>saveSerialize\<close> and \<open>saveDeserialize\<close> print is,
  indentation aside, a fixed frame around the text of the statements \<open>write_function\<close> and
  \<open>read_function\<close>, whose meaning the development defines.
\<close>
theorem generated_json_text:
  assumes "short_names ob" "emitted ce ob"
  shows "solid (code_text (saveSerialize_impl ce ob)) =
      solid (write_signature ob @ concat (map wstmt_text (write_function ce ob)) @ write_rest ob) \<and>
    solid (code_text (saveDeserialize_impl ce ob)) =
      solid (read_signature ob @ stmt_text (read_function ce ob) @ read_instance ob)"
  using assms text_serializer[of ob ce] text_function[of ob ce]
  by (simp_all add: short_names_def emitted_def list_all_iff flip: solid_text_def)

text \<open>The class \<open>Node\<close> with a string and an array of other nodes.\<close>

definition node_class :: Object where
  "node_class = new_object\<lparr>mName := ''Node'', mTypeO := ''Class'', mIsClass := True,
     mItems := [new_member\<lparr>mMember := ''name'', mType := ''string'', mIsString := True\<rparr>,
       new_member\<lparr>mMember := ''kids'', mType := ''Node'', mIsArray := True\<rparr>]\<rparr>"

theorem generated_json_text_witness:
  "solid (code_text (saveSerialize_impl [''Node'' \<mapsto> False] node_class)) =
      solid (write_signature node_class @ concat (map wstmt_text (write_function [''Node'' \<mapsto> False] node_class))
        @ write_rest node_class) \<and>
    solid (code_text (saveDeserialize_impl [''Node'' \<mapsto> False] node_class)) =
      solid (read_signature node_class @ stmt_text (read_function [''Node'' \<mapsto> False] node_class)
        @ read_instance node_class)"
proof (rule generated_json_text)
  show "short_names node_class" "emitted [''Node'' \<mapsto> False] node_class" by code_simp+
qed

end
