(* ===== verification/GeneratedJson.thy ===== *)
theory GeneratedJson
  imports JsonStatements EmitCpp
begin

text \<open>
  The generated program as a whole, as far as JSON goes: the enum functions and default values the
  emitters print, and \<open>serializeTo\<close> and \<open>deserializeFrom\<close> for every class of a completed schema.
  Classes may nest, so both functions have the depth of calls as fuel; \<open>Diverges\<close> is a depth that was
  not enough.
\<close>

section \<open>What the generated program runs on\<close>

text \<open>
  Floating point, the numbers of enumerators, \<open>atoi\<close> by type, the values that the schema's default
  texts spell (by class, for the assignments of inherited defaults), and the content of a local
  variable that is not initialised.
\<close>

record 'd machine =
  fops :: "'d float_ops"
  number_of :: "string \<Rightarrow> string \<Rightarrow> int"
  to_integer :: "string \<Rightarrow> string \<Rightarrow> int"
  initializer :: "string \<Rightarrow> MemberVariable \<Rightarrow> 'd cval"
  indeterminate :: "string \<Rightarrow> 'd cval"

section \<open>Enums\<close>

text \<open>
  \<open>stringifyEnum\<close> and \<open>unstringifyEnum\<close> look into maps filled from the table in order, so the last
  entry of a key wins. The map behind \<open>stringifyEnum\<close> is keyed by the enumerators' numbers.
\<close>

definition last_entry :: "('a \<Rightarrow> bool) \<Rightarrow> 'a list \<Rightarrow> 'a option" where
  "last_entry p xs = find p (rev xs)"

definition stringifyEnum :: "'d machine \<Rightarrow> DOM \<Rightarrow> string \<Rightarrow> string \<Rightarrow> fault + string" where
  "stringifyEnum M dm t x =
     (case findObject dm t of
        None \<Rightarrow> Inl NotCompiled
      | Some ob \<Rightarrow>
          (case last_entry (\<lambda>j. number_of M t (mMember j) = number_of M t x) (mItems ob) of
             None \<Rightarrow> Inl AssertFail
           | Some j \<Rightarrow> Inr (c_str (enum_string j))))"

definition unstringifyEnum :: "DOM \<Rightarrow> string \<Rightarrow> string \<Rightarrow> string \<times> bool" where
  "unstringifyEnum dm t s =
     (case findObject dm t of
        None \<Rightarrow> ([], False)
      | Some ob \<Rightarrow>
          (case last_entry (\<lambda>j. c_str (enum_string j) = s) (mItems ob) of
             None \<Rightarrow> (case mItems ob of [] \<Rightarrow> [] | j # _ \<Rightarrow> mMember j, False)
           | Some j \<Rightarrow> (mMember j, True)))"

text \<open>\<open>T(n)\<close>: an enumerator with the number, when there is one.\<close>

definition enum_of_number :: "'d machine \<Rightarrow> DOM \<Rightarrow> string \<Rightarrow> int \<Rightarrow> string" where
  "enum_of_number M dm t n =
     (case findObject dm t of
        None \<Rightarrow> []
      | Some ob \<Rightarrow>
          (case find (\<lambda>j. number_of M t (mMember j) = n) (mItems ob) of
             None \<Rightarrow> [] | Some j \<Rightarrow> mMember j))"

section \<open>Default values\<close>

definition own_items :: "Object \<Rightarrow> MemberVariable list" where
  "own_items ob = filter own (mItems ob)"

text \<open>The value of an empty initialiser, \<open>x{ }\<close>; \<open>cls\<close> gives the default objects of classes.\<close>

definition empty_value ::
  "'d machine \<Rightarrow> DOM \<Rightarrow> (string \<Rightarrow> 'd fields) \<Rightarrow> string \<Rightarrow> 'd cval"
where
  "empty_value M dm cls t =
     (if t = ''bool'' then CBool False
      else if t = ''float'' \<or> t = ''double'' then CReal (of_integer (fops M) 0)
      else if t = ''string'' then CString []
      else if isStandardType t then CInt 0
      else case classEnumMap (mObjects dm) t of
             Some True \<Rightarrow> CEnum t (enum_of_number M dm t 0)
           | _ \<Rightarrow> CObject (cls t))"

definition member_default ::
  "'d machine \<Rightarrow> DOM \<Rightarrow> (string \<Rightarrow> 'd fields) \<Rightarrow> string \<Rightarrow> MemberVariable \<Rightarrow> 'd cval"
where
  "member_default M dm cls t i =
     (if mDefaultValue i \<noteq> [] then initializer M t i
      else if mIsArray i then (if mIsMap i then CMap [] else CVector [])
      else if mIsOptional i = optional then COptional None
      else empty_value M dm cls (mType i))"

text \<open>The constructor of a class assigns the defaults it declares for inherited members.\<close>

definition inherited_defaults :: "'d machine \<Rightarrow> Object \<Rightarrow> 'd fields \<Rightarrow> 'd fields" where
  "inherited_defaults M ob fs =
     fold (\<lambda>i fs. if \<not> own i \<and> mDefaultValue i \<noteq> [] then
        map (\<lambda>(x, v). (x, if x = mMember i then initializer M (mName ob) i else v)) fs
       else fs) (mItems ob) fs"

primrec default_object :: "'d machine \<Rightarrow> DOM \<Rightarrow> nat \<Rightarrow> string \<Rightarrow> 'd fields" where
  "default_object M dm 0 t = []"
| "default_object M dm (Suc n) t =
     (case findObject dm t of
        None \<Rightarrow> []
      | Some ob \<Rightarrow>
          inherited_defaults M ob
            ((if mInheritsFromO ob \<noteq> [] then default_object M dm n (mInheritsFromO ob) else [])
             @ map (\<lambda>i. (mMember i, member_default M dm (default_object M dm n) t i)) (own_items ob)))"

section \<open>The functions of all classes\<close>

definition optional_member :: "Object \<Rightarrow> string \<Rightarrow> bool" where
  "optional_member ob x \<longleftrightarrow>
     list_ex (\<lambda>i. mMember i = x \<and> \<not> mIsArray i \<and> mIsOptional i = optional) (own_items ob)"

definition member_class :: "Object \<Rightarrow> string \<Rightarrow> string" where
  "member_class ob x = (case find (\<lambda>i. mMember i = x) (own_items ob) of None \<Rightarrow> [] | Some i \<Rightarrow> mType i)"

text \<open>A local variable: objects have their defaults, the rest is not initialised.\<close>

definition local_value :: "'d machine \<Rightarrow> DOM \<Rightarrow> nat \<Rightarrow> string \<Rightarrow> 'd cval" where
  "local_value M dm n t =
     (if classEnumMap (mObjects dm) t = Some False then CObject (default_object M dm n t)
      else indeterminate M t)"

definition reading_of ::
  "'d machine \<Rightarrow> DOM \<Rightarrow> nat \<Rightarrow> Object \<Rightarrow>
   (string \<Rightarrow> 'd Value \<Rightarrow> 'd fields \<Rightarrow> fault + (bool \<times> 'd fields)) \<Rightarrow> 'd reading"
where
  "reading_of M dm n ob deserialize =
     \<lparr>floats = fops M, find_enum = unstringifyEnum dm, enum_cast = enum_of_number M dm,
      parse_integer = to_integer M, is_member = (\<lambda>x. x \<in> set (all_non_map_items ob)),
      default_value = local_value M dm n, is_optional = optional_member ob, call = deserialize\<rparr>"

definition start_reading :: "'d fields \<Rightarrow> 'd frame" where
  "start_reading r =
     \<lparr>refs = Map.empty, found = None, iter = ([], Null), index = 0, isOk = False,
      types = (\<lambda>_. []), locals = Map.empty, target = r\<rparr>"

fun returned :: "'d outcome \<Rightarrow> fault + (bool \<times> 'd fields)" where
  "returned (Fault e) = Inl e"
| "returned (Returned b f) = Inr (b, target f)"
| "returned (Next f) = Inl NotCompiled"

primrec deserializeFrom ::
  "'d machine \<Rightarrow> DOM \<Rightarrow> nat \<Rightarrow> string \<Rightarrow> 'd Value \<Rightarrow> 'd fields \<Rightarrow> fault + (bool \<times> 'd fields)"
where
  "deserializeFrom M dm 0 t d r = Inl Diverges"
| "deserializeFrom M dm (Suc n) t d r =
     (case findObject dm t of
        None \<Rightarrow> Inl NotCompiled
      | Some ob \<Rightarrow>
          if mIsEnum ob then Inl NotCompiled
          else returned
            (exec (reading_of M dm n ob (deserializeFrom M dm n)) d
               (read_function (classEnumMap (mObjects dm)) ob) (start_reading r)))"

definition writing_of ::
  "'d machine \<Rightarrow> DOM \<Rightarrow> Object \<Rightarrow> (string \<Rightarrow> 'd fields \<Rightarrow> 'd Value \<Rightarrow> fault + 'd Value) \<Rightarrow> 'd writing"
where
  "writing_of M dm ob serialize =
     \<lparr>stringify = stringifyEnum M dm, enum_number = number_of M, wcall = serialize,
      class_of = member_class ob\<rparr>"

definition start_writing :: "'d Value \<Rightarrow> 'd wframe" where
  "start_writing d =
     \<lparr>doc = d, jsons = Map.empty, vars = Map.empty, loop_class = [], pair = None, cname = []\<rparr>"

primrec serializeTo ::
  "'d machine \<Rightarrow> DOM \<Rightarrow> nat \<Rightarrow> string \<Rightarrow> 'd fields \<Rightarrow> 'd Value \<Rightarrow> fault + 'd Value"
where
  "serializeTo M dm 0 t this d = Inl Diverges"
| "serializeTo M dm (Suc n) t this d =
     (case findObject dm t of
        None \<Rightarrow> Inl NotCompiled
      | Some ob \<Rightarrow>
          if mIsEnum ob then Inl NotCompiled
          else map_sum id doc
            (wseq (map (wexec (writing_of M dm ob (serializeTo M dm n)) this)
                (write_function (classEnumMap (mObjects dm)) ob)) (start_writing d)))"

text \<open>\<open>serialize(type)\<close> starts with an empty object; the document is then printed by the library.\<close>

definition serialize :: "'d machine \<Rightarrow> DOM \<Rightarrow> nat \<Rightarrow> string \<Rightarrow> 'd fields \<Rightarrow> fault + 'd Value" where
  "serialize M dm n t this = serializeTo M dm n t this (Object [])"

end
