(* ===== verification/JsonRoundTrip.thy ===== *)
theory JsonRoundTrip
  imports GeneratedJson
begin

text \<open>
  What \<open>serializeTo\<close> writes, \<open>deserializeFrom\<close> reads back: \<open>encode\<close> is the JSON of an object as a
  function of its members, \<open>storable\<close> says which objects survive, and the lemmas follow the
  statements of the two generated functions member by member.
\<close>

section \<open>The JSON of an object\<close>

definition enum_name :: "'d machine \<Rightarrow> DOM \<Rightarrow> string \<Rightarrow> string \<Rightarrow> string" where
  "enum_name M dm t x = (case stringifyEnum M dm t x of Inl _ \<Rightarrow> [] | Inr s \<Rightarrow> s)"

fun encode_value ::
  "'d machine \<Rightarrow> DOM \<Rightarrow> (string \<Rightarrow> 'd fields \<Rightarrow> (string \<times> 'd Value) list) \<Rightarrow> MemberVariable \<Rightarrow>
   'd cval \<Rightarrow> 'd Value"
where
  "encode_value M dm enc i (CInt k) = number k"
| "encode_value M dm enc i (CBool b) = Boolean b"
| "encode_value M dm enc i (CReal x) = Value_double x"
| "encode_value M dm enc i (CString s) = String s"
| "encode_value M dm enc i (CEnum t x) =
     (if mSerializeEnumAsInteger i then number (number_of M t x) else String (enum_name M dm t x))"
| "encode_value M dm enc i (CObject g) = Object (enc (mType i) g)"
| "encode_value M dm enc i _ = Null"

definition encode_member ::
  "'d machine \<Rightarrow> DOM \<Rightarrow> (string \<Rightarrow> 'd fields \<Rightarrow> (string \<times> 'd Value) list) \<Rightarrow> MemberVariable \<Rightarrow>
   'd cval \<Rightarrow> 'd Value option"
where
  "encode_member M dm enc i v =
     (if mIsArray i then
        (case v of CVector xs \<Rightarrow> Some (Array (map (encode_value M dm enc i) xs)) | _ \<Rightarrow> None)
      else if mIsOptional i = optional then
        (case v of COptional (Some x) \<Rightarrow> Some (encode_value M dm enc i x) | _ \<Rightarrow> None)
      else Some (encode_value M dm enc i v))"

definition field :: "'d fields \<Rightarrow> string \<Rightarrow> 'd cval" where
  "field f x = (case map_of f x of None \<Rightarrow> CVector [] | Some v \<Rightarrow> v)"

definition entry :: "string \<Rightarrow> 'd Value option \<Rightarrow> (string \<times> 'd Value) list" where
  "entry x v = (case v of None \<Rightarrow> [] | Some j \<Rightarrow> [(x, j)])"

definition encode_items ::
  "'d machine \<Rightarrow> DOM \<Rightarrow> (string \<Rightarrow> 'd fields \<Rightarrow> (string \<times> 'd Value) list) \<Rightarrow> 'd fields \<Rightarrow>
   MemberVariable list \<Rightarrow> (string \<times> 'd Value) list"
where
  "encode_items M dm enc f is =
     concat (map (\<lambda>i. entry (mMember i) (encode_member M dm enc i (field f (mMember i)))) is)"

primrec encode ::
  "'d machine \<Rightarrow> DOM \<Rightarrow> nat \<Rightarrow> string \<Rightarrow> 'd fields \<Rightarrow> (string \<times> 'd Value) list"
where
  "encode M dm 0 t f = []"
| "encode M dm (Suc n) t f =
     (case findObject dm t of
        None \<Rightarrow> []
      | Some ob \<Rightarrow>
          (if mInheritsFromO ob \<noteq> [] then encode M dm n (mInheritsFromO ob) f else [])
          @ encode_items M dm (encode M dm n) f (own_items ob))"

section \<open>Objects that survive\<close>

text \<open>The names of the members of a class, those of its bases first.\<close>

primrec member_names :: "DOM \<Rightarrow> nat \<Rightarrow> string \<Rightarrow> string list" where
  "member_names dm 0 t = []"
| "member_names dm (Suc n) t =
     (case findObject dm t of
        None \<Rightarrow> []
      | Some ob \<Rightarrow>
          (if mInheritsFromO ob \<noteq> [] then member_names dm n (mInheritsFromO ob) else [])
          @ map mMember (own_items ob))"

text \<open>
  Values of a member's type that both functions handle. The integer types are those whose accessor
  exists; a float must be one that \<open>IsFloat\<close> accepts; a string ends at its first NUL.
\<close>

fun storable_value ::
  "'d machine \<Rightarrow> DOM \<Rightarrow> (string \<Rightarrow> 'd fields \<Rightarrow> bool) \<Rightarrow> MemberVariable \<Rightarrow> 'd cval \<Rightarrow> bool"
where
  "storable_value M dm ok i (CInt k) \<longleftrightarrow>
     (mType i = ''u64'' \<and> 0 \<le> k \<and> k < 2 ^ 64) \<or> (mType i = ''u32'' \<and> 0 \<le> k \<and> k < 2 ^ 32) \<or>
     (mType i = ''i64'' \<and> - (2 ^ 63) \<le> k \<and> k < 2 ^ 63)"
| "storable_value M dm ok i (CBool b) \<longleftrightarrow> mType i = ''bool''"
| "storable_value M dm ok i (CReal x) \<longleftrightarrow>
     mType i = ''double'' \<or>
     mType i = ''float'' \<and> in_float_range (fops M) x \<and> to_float (fops M) x = x"
| "storable_value M dm ok i (CString s) \<longleftrightarrow> mType i = ''string'' \<and> nul \<notin> set s"
| "storable_value M dm ok i (CEnum t x) \<longleftrightarrow>
     t = mType i \<and> getStandardType t = st_none \<and> classEnumMap (mObjects dm) t = Some True \<and>
     (if mSerializeEnumAsInteger i then
        0 \<le> number_of M t x \<and> number_of M t x < 2 ^ 64 \<and>
        enum_of_number M dm t (number_of M t x) = x
      else
        (case stringifyEnum M dm t x of
           Inl _ \<Rightarrow> False | Inr s \<Rightarrow> unstringifyEnum dm t s = (x, True)))"
| "storable_value M dm ok i (CObject g) \<longleftrightarrow>
     getStandardType (mType i) = st_none \<and> classEnumMap (mObjects dm) (mType i) = Some False \<and>
     ok (mType i) g"
| "storable_value M dm ok i _ \<longleftrightarrow> False"

definition class_type :: "DOM \<Rightarrow> string \<Rightarrow> bool" where
  "class_type dm t \<longleftrightarrow> getStandardType t = st_none \<and> classEnumMap (mObjects dm) t = Some False"

text \<open>
  A member whose value \<open>v\<close> can be read into an object in which it is \<open>old\<close>: arrays of the three
  integer types and of classes, which must start empty because elements are appended; an optional
  without a value must start without one. The four names are hidden by locals of the generated code.
\<close>

definition storable_member ::
  "'d machine \<Rightarrow> DOM \<Rightarrow> (string \<Rightarrow> 'd fields \<Rightarrow> bool) \<Rightarrow> MemberVariable \<Rightarrow> 'd cval \<Rightarrow> 'd cval \<Rightarrow> bool"
where
  "storable_member M dm ok i old v \<longleftrightarrow>
     \<not> mIsMap i \<and>
     (if mIsArray i then
        mMember i \<notin> {''v'', ''i'', ''r'', ''entry'', ''ivalue''} \<and>
        (mType i \<in> {''u64'', ''u32'', ''i64''} \<or> class_type dm (mType i) \<and> old = CVector []) \<and>
        (case v of CVector xs \<Rightarrow> list_all (storable_value M dm ok i) xs | _ \<Rightarrow> False)
      else if mIsOptional i = optional then
        (case v of
           COptional None \<Rightarrow> old = COptional None
         | COptional (Some x) \<Rightarrow> storable_value M dm ok i x
         | _ \<Rightarrow> False)
      else storable_value M dm ok i v)"

definition has_fields :: "'d fields \<Rightarrow> 'd fields \<Rightarrow> bool" where
  "has_fields r f \<longleftrightarrow> map fst f = map fst r \<and> distinct (map fst r)"

primrec storable ::
  "'d machine \<Rightarrow> DOM \<Rightarrow> nat \<Rightarrow> string \<Rightarrow> 'd fields \<Rightarrow> 'd fields \<Rightarrow> bool"
where
  "storable M dm 0 t r f = False"
| "storable M dm (Suc n) t r f =
     (case findObject dm t of
        None \<Rightarrow> False
      | Some ob \<Rightarrow>
          \<not> mIsEnum ob \<and> distinct (map mMember (own_items ob)) \<and>
          (mInheritsFromO ob \<noteq> [] \<longrightarrow> storable M dm n (mInheritsFromO ob) r f) \<and>
          list_all (\<lambda>i.
            mMember i \<in> set (map fst f) \<and>
            storable_member M dm
              (\<lambda>t g. has_fields (default_object M dm n t) g \<and>
                     storable M dm n t (default_object M dm n t) g)
              i (field r (mMember i)) (field f (mMember i))) (own_items ob))"

section \<open>Association lists of members\<close>

text \<open>\<open>overlay X f r\<close> is \<open>r\<close> with the members of \<open>X\<close> as in \<open>f\<close>.\<close>

definition overlay :: "string set \<Rightarrow> 'd fields \<Rightarrow> 'd fields \<Rightarrow> 'd fields" where
  "overlay X f r = map (\<lambda>(x, v). (x, if x \<in> X then field f x else v)) r"

lemma overlay_keys [simp]: "map fst (overlay X f r) = map fst r"
  by (induction r) (auto simp: overlay_def)

lemma overlay_overlay: "overlay X f (overlay Y f r) = overlay (Y \<union> X) f r"
  by (auto simp: overlay_def)

lemma overlay_empty [simp]: "overlay {} f r = r"
  by (simp add: overlay_def case_prod_eta)

lemma map_of_field: "x \<in> set (map fst f) \<Longrightarrow> map_of f x = Some (field f x)"
  by (cases "map_of f x") (auto simp: field_def map_of_eq_None_iff)

lemma map_of_overlay:
  "map_of (overlay X f r) x = map_option (\<lambda>v. if x \<in> X then field f x else v) (map_of r x)"
  by (induction r) (auto simp: overlay_def)

lemma field_map_of: "map_of f x = Some v \<Longrightarrow> field f x = v"
  by (simp add: field_def)

lemma overlay_same:
  "distinct (map fst r) \<Longrightarrow> map_of r x = Some (field f x) \<Longrightarrow> overlay {x} f r = r"
  by (auto simp: overlay_def intro!: map_idI dest: eq_key_imp_eq_value)

lemma overlay_absent: "x \<notin> set (map fst r) \<Longrightarrow> overlay {x} f r = r"
  by (force simp: overlay_def intro!: map_idI)

lemma update_overlay:
  "distinct (map fst r) \<Longrightarrow> x \<in> set (map fst r) \<Longrightarrow> AList.update x (field f x) r = overlay {x} f r"
proof (induction r)
  case (Cons p r)
  then show ?case
    using overlay_absent[of x r f] by (cases p) (auto simp: overlay_def)
qed simp

lemma overlay_all:
  assumes "has_fields r f" "set (map fst r) \<subseteq> X"
  shows "overlay X f r = f"
proof -
  have "overlay X f r = map (\<lambda>x. (x, field f x)) (map fst r)"
    using assms(2) by (auto simp: overlay_def)
  also have "\<dots> = map (\<lambda>x. (x, field f x)) (map fst f)"
    using assms(1) by (simp add: has_fields_def)
  also have "\<dots> = map (\<lambda>p. (fst p, field f (fst p))) f"
    by simp
  also have "\<dots> = f"
    using assms(1) by (auto simp: has_fields_def field_def intro!: map_idI)
  finally show ?thesis .
qed

lemma field_overlay:
  "x \<in> set (map fst r) \<Longrightarrow> field (overlay X f r) x = (if x \<in> X then field f x else field r x)"
  using map_of_field[of x r] by (simp add: field_def[of "overlay X f r"] map_of_overlay)

section \<open>Reading one member\<close>

lemma c_str_same: "nul \<notin> set s \<Longrightarrow> c_str s = s"
  by (simp add: c_str_def takeWhile_eq_all_conv) blast

lemma c_str_c_str [simp]: "c_str (c_str s) = c_str s"
  by (simp add: c_str_def)

lemma stringifyEnum_c_str: "stringifyEnum M dm t x = Inr s \<Longrightarrow> c_str s = s"
  by (auto simp: stringifyEnum_def split: option.splits)

lemma FindMember_Object [simp]: "FindMember (Object ms) x = Inr (map_of ms x)"
  by (simp add: FindMember_def)

lemma elements_Array [simp]: "elements (Array xs) = Inr xs"
  by (simp add: elements_def)

lemma run_seq_append:
  "run_seq (xs @ ys) F = (case run_seq xs F of Next F' \<Rightarrow> run_seq ys F' | y \<Rightarrow> y)"
  by (induction xs arbitrary: F) (auto split: outcome.splits)

text \<open>Execution ends normally and leaves the object \<open>r\<close>; no local hides it.\<close>

definition at_object :: "'d fields \<Rightarrow> 'd frame \<Rightarrow> bool" where
  "at_object r F \<longleftrightarrow> target F = r \<and> locals F ''r'' = None"

definition leaves :: "'d outcome \<Rightarrow> 'd fields \<Rightarrow> bool" where
  "leaves y r \<longleftrightarrow> (\<exists>F. y = Next F \<and> at_object r F)"

lemma leaves_Next [simp]: "leaves (Next F) r \<longleftrightarrow> at_object r F"
  by (simp add: leaves_def)

lemma leaves_seq:
  "leaves (run_seq xs F) r \<Longrightarrow> (\<And>F. at_object r F \<Longrightarrow> leaves (run_seq ys F) r') \<Longrightarrow>
   leaves (run_seq (xs @ ys) F) r'"
  by (auto simp: leaves_def run_seq_append)

text \<open>A loop with an invariant.\<close>

lemma run_loop_invariant:
  assumes "\<And>k F. k < n \<Longrightarrow> I k F \<Longrightarrow> \<exists>F'. body (enter k F) = Next F' \<and> I (Suc k) F'" "I 0 F"
  shows "\<exists>F'. run_loop enter body [0..<n] F = Next F' \<and> I n F'"
proof -
  have "\<exists>F'. run_loop enter body [m..<n] F = Next F' \<and> I n F'" if "m \<le> n" "I m F" for m F
    using that
  proof (induction "n - m" arbitrary: m F)
    case (Suc k)
    then have "m < n" by simp
    then obtain F' where "body (enter m F) = Next F'" "I (Suc m) F'"
      using assms(1) Suc.prems(2) by blast
    then show ?case using Suc.hyps(1)[of "Suc m" F'] Suc.hyps(2) \<open>m < n\<close> by (simp add: upt_rec)
  qed simp
  then show ?thesis using assms(2) by blast
qed

lemma reading_of_sel [simp]:
  "floats (reading_of M dm n ob c) = fops M" "find_enum (reading_of M dm n ob c) = unstringifyEnum dm"
  "enum_cast (reading_of M dm n ob c) = enum_of_number M dm"
  "parse_integer (reading_of M dm n ob c) = to_integer M"
  "default_value (reading_of M dm n ob c) = local_value M dm n"
  "is_optional (reading_of M dm n ob c) = optional_member ob" "call (reading_of M dm n ob c) = c"
  by (simp_all add: reading_of_def)

lemma refs_bind [simp]: "refs (bind x v F) y = (if y = x then Some v else refs F y)"
  by (simp add: bind_def)

lemmas symbolic = declare_var_def bind_def found_block_def access_def type_test_def

lemma read_simple:
  assumes "storable_value M dm ok i v" "getStandardType (mType i) \<noteq> st_none"
    "\<not> mIsArray i" "\<not> mIsMap i" "own i"
    "map_of ms (mMember i) = Some (encode_value M dm enc i v)"
    "at_object r F" "distinct (map fst r)" "mMember i \<in> set (map fst r)"
    "field f (mMember i) = (if optional_member ob (mMember i) then COptional (Some v) else v)"
  shows "leaves (run_seq (map (exec (reading_of M dm n ob c) (Object ms)) (read_member ce xs i)) F)
     (overlay {mMember i} f r)"
proof -
  define w where "w = (if optional_member ob (mMember i) then COptional (Some v) else v)"
  have u: "AList.update (mMember i) w r = overlay {mMember i} f r"
    using update_overlay[OF assms(8,9), of f] assms(10) by (simp add: w_def)
  obtain y where y: "map_of r (mMember i) = Some y"
    using map_of_field[OF assms(9)] by blast
  note steps = read_member_def own_def getStandardType_def read_standard_def read_value_def
    read_checked_def read_numeric_def symbolic u[unfolded w_def] y at_object_def
  have F: "target F = r" "locals F ''r'' = None"
    using assms(7) by (simp_all add: at_object_def)
  show ?thesis
  proof (cases v)
    case (CInt k)
    then have t: "(mType i = ''u64'' \<and> 0 \<le> k \<and> k < 2 ^ 64) \<or> (mType i = ''u32'' \<and> 0 \<le> k \<and> k < 2 ^ 32) \<or>
        (mType i = ''i64'' \<and> - (2 ^ 63) \<le> k \<and> k < 2 ^ 63)"
      using assms(1) by simp
    then have k: "- (2 ^ 63) \<le> k" "k < 2 ^ 64" by auto
    show ?thesis
      using t assms(3-6) F
      by (elim disjE) (simp_all add: CInt steps[unfolded CInt] tests_number[OF k] assert_that_def)
  next
    case (CBool b)
    then show ?thesis
      using assms(1-6) F by (simp add: steps[unfolded CBool])
  next
    case (CReal z)
    then have t: "mType i = ''double'' \<or>
        mType i = ''float'' \<and> in_float_range (fops M) z \<and> to_float (fops M) z = z"
      using assms(1) by simp
    then show ?thesis
      using CReal assms(3-6) F by (elim disjE) (simp_all add: steps[unfolded CReal])
  next
    case (CString z)
    then show ?thesis
      using assms(1-6) F by (simp add: steps[unfolded CString] c_str_same)
  qed (use assms(1,2) in \<open>simp_all add: getStandardType_def\<close>)
qed

text \<open>The branches of \<open>read_named\<close>: an enum, an object, an array of either.\<close>

lemma read_enum_value:
  assumes "storable_value M dm ok i (CEnum t x)" "\<not> mIsArray i" "\<not> mIsMap i" "own i"
    "map_of ms (mMember i) = Some (encode_value M dm enc i (CEnum t x))"
    "at_object r F" "distinct (map fst r)" "mMember i \<in> set (map fst r)"
    "field f (mMember i) = (if optional_member ob (mMember i) then COptional (Some (CEnum t x)) else CEnum t x)"
  shows "leaves (run_seq (map (exec (reading_of M dm n ob c) (Object ms))
      (read_member (classEnumMap (mObjects dm)) xs i)) F) (overlay {mMember i} f r)"
proof -
  have u: "AList.update (mMember i)
      (if optional_member ob (mMember i) then COptional (Some (CEnum t x)) else CEnum t x) r
      = overlay {mMember i} f r"
    using update_overlay[OF assms(7,8), of f] assms(9) by simp
  obtain y where y: "map_of r (mMember i) = Some y"
    using map_of_field[OF assms(8)] by blast
  have F: "target F = r" "locals F ''r'' = None"
    using assms(6) by (simp_all add: at_object_def)
  have e: "t = mType i" "getStandardType (mType i) = st_none" "classEnumMap (mObjects dm) (mType i) = Some True"
    using assms(1) by auto
  note steps = read_member_def own_def read_named_def read_enum_def fails_def symbolic u y at_object_def e
  show ?thesis
  proof (cases "mSerializeEnumAsInteger i")
    case True
    then have k: "- (2 ^ 63) \<le> number_of M t x" "number_of M t x < 2 ^ 64" "0 \<le> number_of M t x"
      "enum_of_number M dm t (number_of M t x) = x"
      using assms(1) by auto
    show ?thesis
      using k(3,4) assms(2-5) F True u[unfolded e]
      by (simp add: steps tests_number[OF k(1,2), unfolded e] assert_that_def split: if_splits)
  next
    case False
    then obtain s where s: "stringifyEnum M dm t x = Inr s" "unstringifyEnum dm t s = (x, True)"
      using assms(1) by (auto split: sum.splits)
    then have "enum_name M dm t x = s" "c_str s = s"
      using stringifyEnum_c_str by (auto simp: enum_name_def)
    then show ?thesis
      using s assms(2-5) F False u[unfolded e] by (simp add: steps)
  qed
qed

lemma read_object_value:
  assumes "storable_value M dm ok i (CObject g)" "\<not> mIsArray i" "\<not> mIsMap i" "own i"
    "map_of ms (mMember i) = Some (encode_value M dm enc i (CObject g))"
    "at_object r F" "distinct (map fst r)" "mMember i \<in> set (map fst r)"
    "field f (mMember i) = (if optional_member ob (mMember i) then COptional (Some (CObject g)) else CObject g)"
    "c (mType i) (Object (enc (mType i) g)) (default_object M dm n (mType i)) = Inr (True, g)"
  shows "leaves (run_seq (map (exec (reading_of M dm n ob c) (Object ms))
      (read_member (classEnumMap (mObjects dm)) xs i)) F) (overlay {mMember i} f r)"
proof -
  have u: "AList.update (mMember i)
      (if optional_member ob (mMember i) then COptional (Some (CObject g)) else CObject g) r
      = overlay {mMember i} f r"
    using update_overlay[OF assms(7,8), of f] assms(9) by simp
  obtain y where y: "map_of r (mMember i) = Some y"
    using map_of_field[OF assms(8)] by blast
  have F: "target F = r" "locals F ''r'' = None"
    using assms(6) by (simp_all add: at_object_def)
  have e: "getStandardType (mType i) = st_none" "classEnumMap (mObjects dm) (mType i) = Some False"
    using assms(1) by auto
  show ?thesis
    using assms(2-5,10) F
    by (simp add: read_member_def own_def read_named_def read_object_def fails_def symbolic u y
        at_object_def e local_value_def)
qed

lemma iterates:
  assumes "\<And>k F. k < length js \<Longrightarrow> I k F \<Longrightarrow>
      \<exists>F'. exec E d s (at_index k F) = Next F' \<and> I (Suc k) F'"
    "I 0 F" "refs F ''v'' = Some (Array js)"
  shows "\<exists>F'. exec E d (ForElements ''v'' s) F = Next F' \<and> I (length js) F'"
  using run_loop_invariant[where enter = at_index and body = "exec E d s", OF assms(1) assms(2)] assms(3)
  by simp

lemma read_class_array:
  assumes "class_type dm (mType i)" "mIsArray i" "\<not> mIsMap i" "own i" "mMember i \<notin> {''v'', ''i'', ''r''}"
    "list_all (storable_value M dm ok i) vs"
    "map_of ms (mMember i) = Some (Array (map (encode_value M dm enc i) vs))"
    "at_object r F" "distinct (map fst r)" "mMember i \<in> set (map fst r)"
    "field f (mMember i) = CVector vs" "field r (mMember i) = CVector []"
    "\<And>g. ok (mType i) g \<Longrightarrow>
       c (mType i) (Object (enc (mType i) g)) (default_object M dm n (mType i)) = Inr (True, g)"
  shows "leaves (run_seq (map (exec (reading_of M dm n ob c) (Object ms))
      (read_member (classEnumMap (mObjects dm)) xs i)) F) (overlay {mMember i} f r)"
proof -
  let ?E = "reading_of M dm n ob c"
  let ?js = "map (encode_value M dm enc i) vs"
  define I where "I k G \<longleftrightarrow> at_object (AList.update (mMember i) (CVector (take k vs)) r) G \<and>
      refs G ''v'' = Some (Array ?js)" for k G
  have e: "getStandardType (mType i) = st_none" "classEnumMap (mObjects dm) (mType i) = Some False"
    using assms(1) by (simp_all add: class_type_def)
  let ?body = "Block [Bind ''item'' (Element ''v''), Declare (mType i) ''h'',
      If (Deserializes (Named ''item'') ''h'')
        (Block [PushTo (Field (mMember i)) (Local ''h'')]) (Some fails)]"
  have step: "\<exists>F'. exec ?E (Object ms) ?body (at_index k G) = Next F' \<and> I (Suc k) F'"
    if "k < length ?js" "I k G" for k G
  proof -
    have k: "k < length vs" using that(1) by simp
    then have "storable_value M dm ok i (vs ! k)"
      using assms(6) by (simp add: list_all_length)
    then obtain g where g: "vs ! k = CObject g" "ok (mType i) g"
      using e by (cases "vs ! k") (auto simp: getStandardType_def)
    have "AList.update (mMember i) (CVector (take k vs @ [CObject g]))
        (AList.update (mMember i) (CVector (take k vs)) r) =
        AList.update (mMember i) (CVector (take (Suc k) vs)) r"
      using k g by (simp add: take_Suc_conv_app_nth)
    then show ?thesis
      using that g k assms(13)[OF g(2)] e
      by (simp add: I_def at_object_def at_index_def symbolic fails_def local_value_def assert_that_def update_conv')
  qed
  have F: "target F = r" "locals F ''r'' = None"
    using assms(8) by (simp_all add: at_object_def)
  have u: "AList.update (mMember i) (CVector []) r = r"
    using map_of_field[OF assms(10)] assms(12) by (simp add: update_triv)
  have w: "AList.update (mMember i) (CVector vs) r = overlay {mMember i} f r"
    using update_overlay[OF assms(9,10), of f] assms(11) by simp
  define G where G: "G = bind ''v'' (Array ?js) (F\<lparr>found := Some (Array ?js)\<rparr>)"
  have "I 0 G" "refs G ''v'' = Some (Array ?js)"
    using F u by (simp_all add: I_def G bind_def at_object_def)
  from iterates[where E = ?E and d = "Object ms", OF step this]
  obtain F' where F': "exec ?E (Object ms) (ForElements ''v'' ?body) G = Next F'" "I (length ?js) F'"
    by blast
  have "run_seq (map (exec ?E (Object ms)) (read_member (classEnumMap (mObjects dm)) xs i)) F = Next F'"
    using assms(2-4,7) e F'(1)
    by (simp add: read_member_def own_def read_named_def read_array_def found_block_def fails_def type_test_def
        G)
  then show ?thesis
    using F'(2) w by (simp add: I_def)
qed

lemma read_integer_array:
  assumes "mType i \<in> {''u64'', ''u32'', ''i64''}" "mIsArray i" "\<not> mIsMap i" "own i"
    "mMember i \<notin> {''v'', ''i'', ''r'', ''entry'', ''ivalue''}"
    "list_all (storable_value M dm ok i) vs"
    "map_of ms (mMember i) = Some (Array (map (encode_value M dm enc i) vs))"
    "at_object r F" "distinct (map fst r)" "mMember i \<in> set (map fst r)"
    "field f (mMember i) = CVector vs" "\<not> optional_member ob (mMember i)"
  shows "leaves (run_seq (map (exec (reading_of M dm n ob c) (Object ms)) (read_member ce xs i)) F)
     (overlay {mMember i} f r)"
proof -
  let ?E = "reading_of M dm n ob c"
  let ?js = "map (encode_value M dm enc i) vs"
  define I where "I k G \<longleftrightarrow> at_object r G \<and> refs G ''v'' = Some (Array ?js) \<and>
      locals G (mMember i) = Some (CVector (take k vs))" for k G
  obtain g where g: "deserializeTypeName (getStandardType (mType i)) = (Some g, True)"
    "getStandardType (mType i) \<noteq> st_none"
    "(mType i, g) \<in> {(''u64'', ''GetUint64''), (''u32'', ''GetUint''), (''i64'', ''GetInt64'')}"
    using assms(1) by (auto simp: getStandardType_def)
  have ne: "mMember i \<noteq> ''v''" "mMember i \<noteq> ''i''" "mMember i \<noteq> ''r''" "mMember i \<noteq> ''entry''"
    "mMember i \<noteq> ''ivalue''"
    using assms(5) by simp_all
  let ?body = "Block [Bind ''entry'' (Element ''v''), Declare (getCppTypeString (mType i) False) ''ivalue'',
      If (Test (Named ''entry'') ''IsString'')
        (Block [StringToInt (Named ''entry'') ''ivalue''])
        (Some (If (Test (Named ''entry'') ''IsNumber'')
          (Block [Assign (LocalVar ''ivalue'') (Accessor (Named ''entry'') g)]) (Some fails))),
      PushTo (LocalVar (mMember i)) (Local ''ivalue'')]"
  have step: "\<exists>F'. exec ?E (Object ms) ?body (at_index k G) = Next F' \<and> I (Suc k) F'"
    if "k < length ?js" "I k G" for k G
  proof -
    have k: "k < length vs" using that(1) by simp
    then have sk: "storable_value M dm ok i (vs ! k)"
      using assms(6) by (simp add: list_all_length)
    then obtain z where z: "vs ! k = CInt z"
      using assms(1) by (cases "vs ! k") (auto simp: getStandardType_def)
    then have b: "(mType i = ''u64'' \<and> 0 \<le> z \<and> z < 2 ^ 64) \<or> (mType i = ''u32'' \<and> 0 \<le> z \<and> z < 2 ^ 32) \<or>
        (mType i = ''i64'' \<and> - (2 ^ 63) \<le> z \<and> z < 2 ^ 63)"
      using sk by simp
    then have l: "- (2 ^ 63) \<le> z" "z < 2 ^ 64" by auto
    have "g = ''GetUint64'' \<and> 0 \<le> z \<or> g = ''GetUint'' \<and> 0 \<le> z \<and> z < 2 ^ 32 \<or> g = ''GetInt64'' \<and> z < 2 ^ 63"
      using b g(3) by (elim disjE) simp_all
    then have "access (fops M) g (number z) = Inr (CInt z)"
      by (elim disjE) (simp_all add: access_def tests_number[OF l] assert_that_def)
    then show ?thesis
      using that z k
      by (simp add: I_def at_object_def at_index_def declare_var_def bind_def type_test_def fails_def
          local_value_def assert_that_def take_Suc_conv_app_nth tests_number[OF l] ne ne[symmetric])
  qed
  have F: "target F = r" "locals F ''r'' = None"
    using assms(8) by (simp_all add: at_object_def)
  obtain y where y: "map_of r (mMember i) = Some y"
    using map_of_field[OF assms(10)] by blast
  have w: "AList.update (mMember i) (CVector vs) r = overlay {mMember i} f r"
    using update_overlay[OF assms(9,10), of f] assms(11) by simp
  define G where G: "G = declare_var (getCppTypeString (mType i) False) (mMember i) (CVector [])
      (bind ''v'' (Array ?js) (F\<lparr>found := Some (Array ?js)\<rparr>))"
  have "I 0 G" "refs G ''v'' = Some (Array ?js)"
    using F by (simp_all add: I_def G bind_def declare_var_def at_object_def ne ne[symmetric])
  from iterates[where E = ?E and d = "Object ms", OF step this]
  obtain F' where F': "exec ?E (Object ms) (ForElements ''v'' ?body) G = Next F'" "I (length ?js) F'"
    by blast
  have "run_seq (map (exec ?E (Object ms)) (read_member ce xs i)) F =
      Next (F'\<lparr>target := overlay {mMember i} f r\<rparr>)"
    using assms(2-4,7,12) g(1,2) F' y w
    by (simp add: read_member_def own_def read_standard_def read_value_def read_numeric_array_def
        found_block_def fails_def type_test_def G I_def at_object_def)
  then show ?thesis
    using F'(2) by (simp add: I_def at_object_def)
qed

lemma read_absent:
  assumes "\<not> mIsArray i" "\<not> mIsMap i" "own i" "mIsOptional i = optional"
    "map_of ms (mMember i) = None" "at_object r F"
  shows "leaves (run_seq (map (exec E (Object ms)) (read_member ce xs i)) F) r"
proof (cases "getStandardType (mType i) = st_none")
  case True
  then show ?thesis
    using assms
    by (cases "ce (mType i)")
      (simp_all add: read_member_def own_def read_named_def read_enum_def read_object_def found_block_def
        at_object_def)
next
  case False
  then obtain g b where "deserializeTypeName (getStandardType (mType i)) = (Some g, b)"
    by (cases "getStandardType (mType i)") auto
  then show ?thesis
    using assms False
    by (simp add: read_member_def own_def read_standard_def read_value_def found_block_def at_object_def)
qed

text \<open>The other instances of \<open>deserializeFrom\<close> rebuild the objects of a predicate \<open>ok\<close>.\<close>

definition rebuilds ::
  "(string \<Rightarrow> 'd Value \<Rightarrow> 'd fields \<Rightarrow> fault + (bool \<times> 'd fields)) \<Rightarrow>
   (string \<Rightarrow> 'd fields \<Rightarrow> (string \<times> 'd Value) list) \<Rightarrow> (string \<Rightarrow> 'd fields) \<Rightarrow>
   (string \<Rightarrow> 'd fields \<Rightarrow> bool) \<Rightarrow> bool"
where
  "rebuilds c enc def ok \<longleftrightarrow> (\<forall>t g. ok t g \<longrightarrow> c t (Object (enc t g)) (def t) = Inr (True, g))"

lemma read_one_value:
  assumes "storable_value M dm ok i v" "\<not> mIsArray i" "\<not> mIsMap i" "own i"
    "map_of ms (mMember i) = Some (encode_value M dm enc i v)"
    "at_object r F" "distinct (map fst r)" "mMember i \<in> set (map fst r)"
    "field f (mMember i) = (if optional_member ob (mMember i) then COptional (Some v) else v)"
    "rebuilds c enc (default_object M dm n) ok"
  shows "leaves (run_seq (map (exec (reading_of M dm n ob c) (Object ms))
      (read_member (classEnumMap (mObjects dm)) xs i)) F) (overlay {mMember i} f r)"
proof (cases "getStandardType (mType i) = st_none")
  case False
  then show ?thesis using read_simple[OF assms(1) _ assms(2-9)] by blast
next
  case True
  show ?thesis
  proof (cases v)
    case (CEnum t x)
    then show ?thesis using read_enum_value assms by blast
  next
    case (CObject g)
    then have "c (mType i) (Object (enc (mType i) g)) (default_object M dm n (mType i)) = Inr (True, g)"
      using assms(1,10) by (simp add: rebuilds_def)
    then show ?thesis using CObject read_object_value assms by blast
  qed (use assms(1) True in \<open>auto simp: getStandardType_def\<close>)
qed

lemma reads_member:
  assumes "storable_member M dm ok i (field r (mMember i)) (field f (mMember i))" "own i"
    "map_of ms (mMember i) = encode_member M dm enc i (field f (mMember i))"
    "at_object r F" "distinct (map fst r)" "mMember i \<in> set (map fst r)"
    "optional_member ob (mMember i) \<longleftrightarrow> \<not> mIsArray i \<and> mIsOptional i = optional"
    "rebuilds c enc (default_object M dm n) ok"
  shows "leaves (run_seq (map (exec (reading_of M dm n ob c) (Object ms))
      (read_member (classEnumMap (mObjects dm)) xs i)) F) (overlay {mMember i} f r)"
proof (cases "mIsArray i")
  case True
  then obtain vs where vs: "field f (mMember i) = CVector vs" "list_all (storable_value M dm ok i) vs"
    using assms(1) by (auto simp: storable_member_def split: cval.splits)
  have "map_of ms (mMember i) = Some (Array (map (encode_value M dm enc i) vs))"
    using assms(3) True vs(1) by (simp add: encode_member_def)
  then show ?thesis
    using assms True vs
      read_integer_array[of i M dm ok vs ms enc r F f ob n c "classEnumMap (mObjects dm)" xs]
      read_class_array[of dm i M ok vs ms enc r F f c n ob xs]
    by (auto simp: storable_member_def rebuilds_def)
next
  case False
  show ?thesis
  proof (cases "field f (mMember i) = COptional None \<and> mIsOptional i = optional")
    case True
    then have "overlay {mMember i} f r = r"
      using assms(1,5) False map_of_field[OF assms(6)]
      by (intro overlay_same) (auto simp: storable_member_def)
    then show ?thesis
      using read_absent[OF False _ assms(2) _ _ assms(4)] assms(1,3) True False
      by (simp add: storable_member_def encode_member_def)
  next
    case some: False
    obtain v where v: "storable_value M dm ok i v"
      "field f (mMember i) = (if mIsOptional i = optional then COptional (Some v) else v)"
    proof (cases "mIsOptional i = optional")
      case True
      then obtain v where "field f (mMember i) = COptional (Some v)"
        using some assms(1) False
        by (cases "field f (mMember i)") (auto simp: storable_member_def split: option.splits)
      then show thesis using that[of v] True assms(1) False by (simp add: storable_member_def)
    next
      case False
      then show thesis
        using that[of "field f (mMember i)"] assms(1) \<open>\<not> mIsArray i\<close> by (simp add: storable_member_def)
    qed
    then have j: "map_of ms (mMember i) = Some (encode_value M dm enc i v)"
      "field f (mMember i) = (if optional_member ob (mMember i) then COptional (Some v) else v)"
      using assms(3,7) False by (simp_all add: encode_member_def)
    then show ?thesis
      using read_one_value[OF v(1) False _ assms(2) j(1) assms(4-6) j(2) assms(8)] assms(1)
      by (simp add: storable_member_def)
  qed
qed

section \<open>Reading an object\<close>

lemma optional_member_own:
  assumes "distinct (map mMember (own_items ob))" "i \<in> set (own_items ob)"
  shows "optional_member ob (mMember i) \<longleftrightarrow> \<not> mIsArray i \<and> mIsOptional i = optional"
proof -
  have "j = i" if "j \<in> set (own_items ob)" "mMember j = mMember i" for j
    using assms that by (metis distinct_map inj_on_eq_iff)
  then show ?thesis using assms(2) by (auto simp: optional_member_def list_ex_iff)
qed

lemma reads_items:
  assumes "\<And>i. i \<in> set is \<Longrightarrow>
      storable_member M dm ok i (field r (mMember i)) (field f (mMember i)) \<and> own i \<and>
      map_of ms (mMember i) = encode_member M dm enc i (field f (mMember i)) \<and>
      mMember i \<in> set (map fst r) \<and>
      (optional_member ob (mMember i) \<longleftrightarrow> \<not> mIsArray i \<and> mIsOptional i = optional)"
    "distinct (map mMember is)" "distinct (map fst r)" "at_object r F"
    "rebuilds c enc (default_object M dm n) ok"
  shows "leaves (run_seq (map (exec (reading_of M dm n ob c) (Object ms))
      (concat (map (read_member (classEnumMap (mObjects dm)) xs) is))) F) (overlay (mMember ` set is) f r)"
  using assms(1-4)
proof (induction "is" arbitrary: r F)
  case (Cons i "is")
  let ?r = "overlay {mMember i} f r"
  have head: "leaves (run_seq (map (exec (reading_of M dm n ob c) (Object ms))
      (read_member (classEnumMap (mObjects dm)) xs i)) F) ?r"
    using Cons.prems assms(5) by (intro reads_member) auto
  have same: "field ?r (mMember j) = field r (mMember j)" if "j \<in> set is" for j
    using that Cons.prems(1,2) by (subst field_overlay) (auto simp: image_iff)
  have "leaves (run_seq (map (exec (reading_of M dm n ob c) (Object ms))
      (concat (map (read_member (classEnumMap (mObjects dm)) xs) is))) G) (overlay (mMember ` set is) f ?r)"
    if "at_object ?r G" for G
    by (rule Cons.IH) (use Cons.prems that same in \<open>simp_all\<close>)
  then show ?case
    using leaves_seq[OF head] by (simp add: overlay_overlay)
qed simp

lemma encode_items_keys: "set (map fst (encode_items M dm enc f is)) \<subseteq> mMember ` set is"
  by (auto simp: encode_items_def entry_def split: option.splits)

lemma map_of_encode_items:
  assumes "distinct (map mMember is)" "i \<in> set is"
  shows "map_of (encode_items M dm enc f is) (mMember i) = encode_member M dm enc i (field f (mMember i))"
  using assms
proof (induction "is")
  case (Cons j "is")
  show ?case
  proof (cases "i = j")
    case True
    then have "mMember i \<notin> set (map fst (encode_items M dm enc f is))"
      using True Cons.prems(1) subsetD[OF encode_items_keys[of M dm enc f "is"], of "mMember j"] by auto
    then have "map_of (encode_items M dm enc f is) (mMember i) = None"
      by (simp add: map_of_eq_None_iff)
    then show ?thesis
      using True by (simp add: encode_items_def entry_def map_add_def split: option.split)
  next
    case False
    then have "mMember j \<noteq> mMember i" using Cons.prems by (auto simp: image_iff)
    then have "map_of (encode_items M dm enc f (j # is)) (mMember i) =
        map_of (encode_items M dm enc f is) (mMember i)"
      by (simp add: encode_items_def entry_def map_add_def split: option.split)
    then show ?thesis using False Cons by simp
  qed
qed simp

lemma encode_keys: "set (map fst (encode M dm n t f)) \<subseteq> set (member_names dm n t)"
proof (induction n arbitrary: t)
  case (Suc n)
  show ?case
  proof (cases "findObject dm t")
    case (Some ob)
    then show ?thesis
      using Suc[of "mInheritsFromO ob"] encode_items_keys[of M dm "encode M dm n" f "own_items ob"]
      by auto
  qed simp
qed simp

lemma inherited_defaults_keys: "map fst (inherited_defaults M ob fs) = map fst fs"
proof -
  have "map fst (fold (\<lambda>i fs. if \<not> own i \<and> mDefaultValue i \<noteq> [] then
        map (\<lambda>(x, v). (x, if x = mMember i then initializer M (mName ob) i else v)) fs
      else fs) is fs) = map fst fs" for "is"
    by (induction "is" arbitrary: fs) (simp_all add: case_prod_beta comp_def)
  then show ?thesis by (simp add: inherited_defaults_def)
qed

lemma default_object_keys: "map fst (default_object M dm n t) = member_names dm n t"
  by (induction n arbitrary: t) (auto simp: inherited_defaults_keys comp_def split: option.split)

lemma deserialize_step:
  assumes "findObject dm t = Some ob" "\<not> mIsEnum ob"
    "mInheritsFromO ob \<noteq> [] \<Longrightarrow>
       deserializeFrom M dm n (mInheritsFromO ob) (Object ms) r = Inr (True, r1)"
    "mInheritsFromO ob = [] \<Longrightarrow> r1 = r"
    "\<And>F. at_object r1 F \<Longrightarrow>
       leaves (run_seq (map (exec (reading_of M dm n ob (deserializeFrom M dm n)) (Object ms))
         (concat (map (read_member (classEnumMap (mObjects dm)) (non_map_items ob)) (mItems ob)))) F) r2"
  shows "deserializeFrom M dm (Suc n) t (Object ms) r = Inr (True, r2)"
proof -
  let ?E = "reading_of M dm n ob (deserializeFrom M dm n)"
  let ?base = "if mInheritsFromO ob \<noteq> [] then
      [Comment (''Deserialize the base class ('' @ mInheritsFromO ob @ '') first.''),
       If (NotBase (mInheritsFromO ob)) fails None] else []"
  have "leaves (run_seq (map (exec ?E (Object ms)) ?base) (start_reading r)) r1"
    using assms(3,4) by (simp add: start_reading_def at_object_def)
  from leaves_seq[OF this assms(5)]
  obtain F where "run_seq (map (exec ?E (Object ms)) (?base
      @ concat (map (read_member (classEnumMap (mObjects dm)) (non_map_items ob)) (mItems ob)))) (start_reading r)
      = Next F" "target F = r2"
    by (auto simp: leaves_def at_object_def)
  then have "exec ?E (Object ms) (read_function (classEnumMap (mObjects dm)) ob) (start_reading r)
      = Returned True F"
    unfolding read_function_def append_assoc[symmetric] exec.simps map_append
    by (simp only: run_seq_append[of _ "map (exec ?E (Object ms)) [Return True]"] outcome.case) simp
  then show ?thesis
    using assms(1,2) \<open>target F = r2\<close> by simp
qed

lemma read_members_own:
  "concat (map (read_member ce xs) is) = concat (map (read_member ce xs) (filter own is))"
  by (induction "is") (auto simp: read_member_def own_def)

lemma rebuildsI:
  assumes "\<And>t r ms f. storable M dm n t r f \<Longrightarrow> distinct (map fst r) \<Longrightarrow> map fst f = map fst r \<Longrightarrow>
      distinct (member_names dm n t) \<Longrightarrow>
      (\<And>x. x \<in> set (member_names dm n t) \<Longrightarrow> map_of ms x = map_of (encode M dm n t f) x) \<Longrightarrow>
      deserializeFrom M dm n t (Object ms) r = Inr (True, overlay (set (member_names dm n t)) f r)"
  shows "rebuilds (deserializeFrom M dm n) (encode M dm n) (default_object M dm n)
    (\<lambda>t g. has_fields (default_object M dm n t) g \<and> storable M dm n t (default_object M dm n t) g)"
  unfolding rebuilds_def
proof (intro allI impI, elim conjE)
  fix t g
  let ?d = "default_object M dm n t"
  assume g: "has_fields ?d g" "storable M dm n t ?d g"
  then have "deserializeFrom M dm n t (Object (encode M dm n t g)) ?d =
      Inr (True, overlay (set (member_names dm n t)) g ?d)"
    using assms[of t ?d g "encode M dm n t g"] by (simp add: has_fields_def default_object_keys)
  also have "overlay (set (member_names dm n t)) g ?d = g"
    by (rule overlay_all[OF g(1)]) (simp add: default_object_keys)
  finally show "deserializeFrom M dm n t (Object (encode M dm n t g)) ?d = Inr (True, g)" .
qed

theorem deserialize_storable:
  assumes "storable M dm n t r f" "distinct (map fst r)" "map fst f = map fst r"
    "distinct (member_names dm n t)"
    "\<And>x. x \<in> set (member_names dm n t) \<Longrightarrow> map_of ms x = map_of (encode M dm n t f) x"
  shows "deserializeFrom M dm n t (Object ms) r = Inr (True, overlay (set (member_names dm n t)) f r)"
  using assms
proof (induction n arbitrary: t r f ms)
  case (Suc n)
  then obtain ob where ob: "findObject dm t = Some ob" "\<not> mIsEnum ob" "distinct (map mMember (own_items ob))"
    by (auto split: option.splits)
  let ?b = "mInheritsFromO ob"
  let ?names = "if ?b \<noteq> [] then member_names dm n ?b else []"
  let ?r1 = "overlay (set ?names) f r"
  let ?ok = "\<lambda>t g. has_fields (default_object M dm n t) g \<and> storable M dm n t (default_object M dm n t) g"
  have names: "member_names dm (Suc n) t = ?names @ map mMember (own_items ob)"
    using ob(1) by simp
  then have disjoint: "set ?names \<inter> mMember ` set (own_items ob) = {}" "distinct ?names"
    using Suc.prems(4) by auto
  have own_lookup: "map_of ms (mMember i) = encode_member M dm (encode M dm n) i (field f (mMember i))"
    if "i \<in> set (own_items ob)" for i
  proof -
    have "map_of (if ?b \<noteq> [] then encode M dm n ?b f else []) (mMember i) = None"
      using that disjoint(1) subsetD[OF encode_keys[of M dm n ?b f], of "mMember i"]
      by (auto simp: map_of_eq_None_iff)
    then have "map_of (encode M dm (Suc n) t f) (mMember i) =
        map_of (encode_items M dm (encode M dm n) f (own_items ob)) (mMember i)"
      using ob(1) by (simp add: map_add_def split: option.split if_splits)
    moreover have "mMember i \<in> set (member_names dm (Suc n) t)"
      unfolding names using that by simp
    ultimately show ?thesis
      using Suc.prems(5)[of "mMember i"] map_of_encode_items[OF ob(3) that, of M dm "encode M dm n" f]
      by simp
  qed
  have base: "deserializeFrom M dm n ?b (Object ms) r = Inr (True, ?r1)" if "?b \<noteq> []"
  proof -
    have "map_of ms x = map_of (encode M dm n ?b f) x" if "x \<in> set (member_names dm n ?b)" for x
    proof -
      have "x \<notin> set (map fst (encode_items M dm (encode M dm n) f (own_items ob)))"
        using that \<open>?b \<noteq> []\<close> disjoint(1)
          subsetD[OF encode_items_keys[of M dm "encode M dm n" f "own_items ob"], of x] by auto
      then have "map_of (encode_items M dm (encode M dm n) f (own_items ob)) x = None"
        by (simp add: map_of_eq_None_iff)
      then show ?thesis
        using Suc.prems(5)[of x] that \<open>?b \<noteq> []\<close> names ob(1)
        by (simp add: map_add_def split: option.split)
    qed
    then show ?thesis
      using Suc.IH[of ?b r f ms] Suc.prems ob(1) disjoint(2) that by simp
  qed
  have rebuilds: "rebuilds (deserializeFrom M dm n) (encode M dm n) (default_object M dm n) ?ok"
    by (rule rebuildsI) (rule Suc.IH)
  have "leaves (run_seq (map (exec (reading_of M dm n ob (deserializeFrom M dm n)) (Object ms))
         (concat (map (read_member (classEnumMap (mObjects dm)) (non_map_items ob)) (mItems ob)))) F)
      (overlay (mMember ` set (own_items ob)) f ?r1)" if "at_object ?r1 F" for F
  proof -
    have "storable_member M dm ?ok i (field ?r1 (mMember i)) (field f (mMember i)) \<and> own i \<and>
        mMember i \<in> set (map fst ?r1)" if "i \<in> set (own_items ob)" for i
    proof -
      have "mMember i \<in> set (map fst f)"
        "storable_member M dm ?ok i (field r (mMember i)) (field f (mMember i))" "own i"
        using Suc.prems(1) ob(1) that by (auto simp: list_all_iff own_items_def)
      moreover have "mMember i \<notin> set ?names" using disjoint(1) that by auto
      moreover have "mMember i \<in> set (map fst r)" using calculation(1) Suc.prems(3) by simp
      ultimately have "field ?r1 (mMember i) = field r (mMember i)"
        by (simp only: field_overlay if_False)
      with \<open>storable_member M dm ?ok i _ _\<close> \<open>own i\<close> \<open>mMember i \<in> set (map fst r)\<close> show ?thesis
        by (simp only: overlay_keys simp_thms)
    qed
    then show ?thesis
      unfolding read_members_own[of _ _ "mItems ob"] own_items_def[symmetric]
      using own_lookup optional_member_own[OF ob(3)] Suc.prems(2) that
      by (intro reads_items[OF _ ob(3) _ that rebuilds]) simp_all
  qed
  from deserialize_step[OF ob(1,2) base _ this]
  have step: "deserializeFrom M dm (Suc n) t (Object ms) r =
      Inr (True, overlay (mMember ` set (own_items ob)) f ?r1)"
    by simp
  have "set (member_names dm (Suc n) t) = set ?names \<union> mMember ` set (own_items ob)"
    unfolding names by simp
  with step show ?case by (simp only: overlay_overlay)
qed simp

section \<open>Writing one member\<close>

text \<open>The statements end normally with the document \<open>d\<close>.\<close>

definition writes :: "fault + 'd wframe \<Rightarrow> 'd Value \<Rightarrow> bool" where
  "writes y d \<longleftrightarrow> (\<exists>F. y = Inr F \<and> doc F = d)"

lemma writes_Inr [simp]: "writes (Inr F) d \<longleftrightarrow> doc F = d"
  by (simp add: writes_def)

lemma wseq_append: "wseq (xs @ ys) F = bind_fault (wseq xs F) (wseq ys)"
proof (induction xs arbitrary: F)
  case (Cons x xs)
  then show ?case by (cases "x F") simp_all
qed simp

lemma writes_seq:
  "writes (wseq xs F) d \<Longrightarrow> (\<And>F. doc F = d \<Longrightarrow> writes (wseq ys F) d') \<Longrightarrow> writes (wseq (xs @ ys) F) d'"
  by (auto simp: writes_def wseq_append)

lemma AddMember_Object [simp]: "AddMember (Object ms) x v = Inr (Object (ms @ [(x, v)]))"
  by (simp add: AddMember_def)

lemma PushBack_Array [simp]: "PushBack (Array xs) v = Inr (Array (xs @ [v]))"
  by (simp add: PushBack_def)

lemma writing_of_sel [simp]:
  "stringify (writing_of M dm ob c) = stringifyEnum M dm" "enum_number (writing_of M dm ob c) = number_of M"
  "wcall (writing_of M dm ob c) = c" "class_of (writing_of M dm ob c) = member_class ob"
  by (simp_all add: writing_of_def)

lemma wloop_invariant:
  assumes "\<And>ys x F. x \<in> set xs \<Longrightarrow> I ys F \<Longrightarrow> \<exists>F'. body (enter x F) = Inr F' \<and> I (ys @ [x]) F'" "I [] F"
  shows "\<exists>F'. wloop enter body xs F = Inr F' \<and> I xs F'"
proof -
  have "\<exists>F'. wloop enter body zs F = Inr F' \<and> I (ys @ zs) F'"
    if "I ys F" "set zs \<subseteq> set xs" for ys zs F
    using that
  proof (induction zs arbitrary: ys F)
    case (Cons z zs)
    then obtain F' where F': "body (enter z F) = Inr F'" "I (ys @ [z]) F'"
      using assms(1) by fastforce
    then show ?case using Cons.IH[of "ys @ [z]" F'] Cons.prems(2) by simp
  qed simp
  from this[OF assms(2), of xs] show ?thesis by simp
qed

text \<open>The other instances of \<open>serializeTo\<close> append the JSON of the objects of a predicate \<open>ok\<close>.\<close>

definition appends ::
  "(string \<Rightarrow> 'd fields \<Rightarrow> 'd Value \<Rightarrow> fault + 'd Value) \<Rightarrow>
   (string \<Rightarrow> 'd fields \<Rightarrow> (string \<times> 'd Value) list) \<Rightarrow> (string \<Rightarrow> 'd fields \<Rightarrow> bool) \<Rightarrow> bool"
where
  "appends c enc ok \<longleftrightarrow> (\<forall>t g ms. ok t g \<longrightarrow> c t g (Object ms) = Inr (Object (ms @ enc t g)))"

text \<open>The statement for a value that is no array.\<close>

definition put :: "DOM \<Rightarrow> MemberVariable \<Rightarrow> source \<Rightarrow> wstmt" where
  "put dm i e =
     (if isStandardType (mType i) then Add (Quoted (mMember i)) (Plain e)
      else if mType i = ''string'' then Add (Quoted (mMember i)) (CText e)
      else if classEnumMap (mObjects dm) (mType i) = Some True then
        Add (Quoted (mMember i)) (if mSerializeEnumAsInteger i then Unsigned64 e else EnumText e)
      else WBlock
        [Declares ''v'' EmptyObject, SerializeTo e ''v'', Add (Quoted (mMember i)) (JsonVar ''v'')])"

lemma writes_value:
  assumes "storable_value M dm ok i v" "\<And>F. source_value f F e = Inr v"
    "\<And>F. source_class (writing_of M dm ob c) F e = mType i" "appends c enc ok" "doc F = Object ms"
  shows "writes (wexec (writing_of M dm ob c) f (put dm i e) F)
    (Object (ms @ [(mMember i, encode_value M dm enc i v)]))"
proof (cases v)
  case (CEnum t x)
  then have "\<not> isStandardType (mType i)" "mType i \<noteq> ''string''"
    using assms(1) standard_none by auto
  then show ?thesis
    using assms CEnum
    by (auto simp: put_def enum_name_def split: sum.splits)
next
  case (CObject g)
  then have "\<not> isStandardType (mType i)" "mType i \<noteq> ''string''"
    using assms(1) standard_none by auto
  then show ?thesis
    using assms CObject by (simp add: put_def appends_def)
qed (use assms in \<open>auto simp: put_def isStandardType_def c_str_same\<close>)

lemma write_plain:
  assumes "storable_value M dm ok i v" "\<not> mIsArray i" "own i"
  shows "write_member (classEnumMap (mObjects dm)) i =
    [if mIsOptional i = optional then
       IfHas (mMember i) (if class_type dm (mType i) then put dm i (ValueOf (Member (mMember i)))
         else WBlock [put dm i (ValueOf (Member (mMember i)))])
     else put dm i (Member (mMember i))]"
  using assms
  by (cases v) (auto simp: write_member_def own_def put_def write_standard_def write_string_def
      write_enum_def write_object_def Let_def class_type_def standard_none isStandardType_def)

lemma writes_array:
  assumes "mType i \<in> {''u64'', ''u32'', ''i64''} \<or> class_type dm (mType i)" "mIsArray i" "\<not> mIsMap i"
    "own i" "list_all (storable_value M dm ok i) vs" "map_of f (mMember i) = Some (CVector vs)"
    "member_class ob (mMember i) = mType i" "appends c enc ok" "doc F = Object ms"
  shows "writes (wseq (map (wexec (writing_of M dm ob c) f) (write_member (classEnumMap (mObjects dm)) i)) F)
    (Object (ms @ [(mMember i, Array (map (encode_value M dm enc i) vs))]))"
  using assms(1)
proof
  let ?W = "writing_of M dm ob c"
  let ?enter = "\<lambda>x F. F\<lparr>vars := (vars F)(''i'' \<mapsto> x), loop_class := mType i\<rparr>"
  define I where "I a ys F \<longleftrightarrow> doc F = Object ms \<and>
      jsons F a = Some (Array (map (encode_value M dm enc i) ys))" for a ys and F :: "'a wframe"
  {
    assume t: "mType i \<in> {''u64'', ''u32'', ''i64''}"
    let ?body = "WBlock [Declares ''v'' (Plain (LoopVar ''i'')), Push ''varray'' ''v'']"
    have step: "\<exists>F'. wexec ?W f ?body (?enter x F) = Inr F' \<and> I ''varray'' (ys @ [x]) F'"
      if "x \<in> set vs" "I ''varray'' ys F" for ys x F
    proof -
      have "storable_value M dm ok i x" using assms(5) that(1) by (auto simp: list_all_iff)
      then obtain k where "x = CInt k" using t by (cases x) (auto simp: getStandardType_def)
      then show ?thesis using that(2) by (simp add: I_def)
    qed
    moreover have "I ''varray'' [] (F\<lparr>jsons := (jsons F)(''varray'' \<mapsto> Array [])\<rparr>)"
      using assms(9) by (simp add: I_def)
    ultimately have "\<exists>F'. wloop ?enter (wexec ?W f ?body) vs (F\<lparr>jsons := (jsons F)(''varray'' \<mapsto> Array [])\<rparr>) = Inr F' \<and>
        I ''varray'' vs F'"
      by (rule wloop_invariant)
    then show ?thesis
      using t assms(2-4,6,7)
      by (auto simp: write_member_def own_def isStandardType_def write_standard_def I_def)
  next
    assume t: "class_type dm (mType i)"
    let ?body = "WBlock [Declares ''v'' EmptyObject, SerializeTo (LoopVar ''i'') ''v'', Push ''array'' ''v'']"
    have step: "\<exists>F'. wexec ?W f ?body (?enter x F) = Inr F' \<and> I ''array'' (ys @ [x]) F'"
      if "x \<in> set vs" "I ''array'' ys F" for ys x F
    proof -
      have "storable_value M dm ok i x" using assms(5) that(1) by (auto simp: list_all_iff)
      then obtain g where "x = CObject g" "ok (mType i) g"
        using t by (cases x) (auto simp: class_type_def getStandardType_def)
      then show ?thesis using that(2) assms(8) by (simp add: I_def appends_def)
    qed
    moreover have "I ''array'' [] (F\<lparr>jsons := (jsons F)(''array'' \<mapsto> Array [])\<rparr>)"
      using assms(9) by (simp add: I_def)
    ultimately have "\<exists>F'. wloop ?enter (wexec ?W f ?body) vs (F\<lparr>jsons := (jsons F)(''array'' \<mapsto> Array [])\<rparr>) = Inr F' \<and>
        I ''array'' vs F'"
      by (rule wloop_invariant)
    then show ?thesis
      using t assms(2-4,6,7)
      by (auto simp: write_member_def own_def class_type_def standard_none write_named_array_def I_def)
  }
qed

lemma writes_member:
  assumes "storable_member M dm ok i old (field f (mMember i))" "own i"
    "mMember i \<in> set (map fst f)" "member_class ob (mMember i) = mType i"
    "appends c enc ok" "doc F = Object ms"
  shows "writes (wseq (map (wexec (writing_of M dm ob c) f) (write_member (classEnumMap (mObjects dm)) i)) F)
    (Object (ms @ entry (mMember i) (encode_member M dm enc i (field f (mMember i)))))"
proof (cases "mIsArray i")
  case True
  then obtain vs where "field f (mMember i) = CVector vs" "list_all (storable_value M dm ok i) vs"
    using assms(1) by (auto simp: storable_member_def split: cval.splits)
  moreover have "mType i \<in> {''u64'', ''u32'', ''i64''} \<or> class_type dm (mType i)" "\<not> mIsMap i"
    using assms(1) True by (auto simp: storable_member_def)
  ultimately show ?thesis
    using writes_array[of i dm M ok vs f ob c enc F ms] map_of_field[OF assms(3)] assms(2,4-6) True
    by (simp add: encode_member_def entry_def)
next
  case False
  show ?thesis
  proof (cases "mIsOptional i = optional")
    case required: False
    then have s: "storable_value M dm ok i (field f (mMember i))"
      using assms(1) False by (simp add: storable_member_def)
    have "writes (wexec (writing_of M dm ob c) f (put dm i (Member (mMember i))) F)
        (Object (ms @ [(mMember i, encode_value M dm enc i (field f (mMember i)))]))"
      by (rule writes_value[OF s _ _ assms(5,6)]) (simp_all add: map_of_field[OF assms(3)] assms(4))
    then show ?thesis
      using required False write_plain[OF s False assms(2)]
      by (auto simp: encode_member_def entry_def writes_def)
  next
    case True
    then consider "field f (mMember i) = COptional None"
      | v where "field f (mMember i) = COptional (Some v)" "storable_value M dm ok i v"
      using assms(1) False by (cases "field f (mMember i)") (auto simp: storable_member_def split: option.splits)
    then show ?thesis
    proof cases
      case 1
      have "\<exists>s. write_member (classEnumMap (mObjects dm)) i = [IfHas (mMember i) s] \<or>
          write_member (classEnumMap (mObjects dm)) i = []"
        using True False assms(2)
        by (auto simp: write_member_def own_def write_standard_def write_string_def write_enum_def
            write_object_def Let_def split: option.split)
      then show ?thesis
        using 1 True False assms(6) map_of_field[OF assms(3)]
        by (auto simp: encode_member_def entry_def)
    next
      case (2 v)
      have "writes (wexec (writing_of M dm ob c) f (put dm i (ValueOf (Member (mMember i)))) F)
          (Object (ms @ [(mMember i, encode_value M dm enc i v)]))"
        by (rule writes_value[OF 2(2) _ _ assms(5,6)])
          (simp_all add: map_of_field[OF assms(3)] assms(4) 2(1))
      then show ?thesis
        using 2 True False write_plain[OF 2(2) False assms(2)] map_of_field[OF assms(3)]
        by (auto simp: encode_member_def entry_def writes_def)
    qed
  qed
qed

section \<open>Writing an object\<close>

lemma member_class_own:
  assumes "distinct (map mMember (own_items ob))" "i \<in> set (own_items ob)"
  shows "member_class ob (mMember i) = mType i"
proof -
  obtain j where j: "find (\<lambda>j. mMember j = mMember i) (own_items ob) = Some j"
    using assms(2) by (cases "find (\<lambda>j. mMember j = mMember i) (own_items ob)") (auto simp: find_None_iff)
  then have "mMember j = mMember i" "j \<in> set (own_items ob)"
    by (auto simp: find_Some_iff)
  then have "j = i"
    using assms by (metis distinct_map inj_on_eq_iff)
  with j show ?thesis by (simp add: member_class_def)
qed

lemma write_members_own:
  "concat (map (write_member ce) is) = concat (map (write_member ce) (filter own is))"
  by (induction "is") (auto simp: write_member_def own_def)

lemma writes_items:
  assumes "\<And>i. i \<in> set is \<Longrightarrow>
      storable_member M dm ok i (field r (mMember i)) (field f (mMember i)) \<and> own i \<and>
      mMember i \<in> set (map fst f) \<and> member_class ob (mMember i) = mType i"
    "appends c enc ok" "doc F = Object ms"
  shows "writes (wseq (map (wexec (writing_of M dm ob c) f)
      (concat (map (write_member (classEnumMap (mObjects dm))) is))) F)
    (Object (ms @ encode_items M dm enc f is))"
  using assms(1,3)
proof (induction "is" arbitrary: F ms)
  case (Cons i "is")
  let ?e = "entry (mMember i) (encode_member M dm enc i (field f (mMember i)))"
  have head: "writes (wseq (map (wexec (writing_of M dm ob c) f)
      (write_member (classEnumMap (mObjects dm)) i)) F) (Object (ms @ ?e))"
    using Cons.prems assms(2) by (intro writes_member) auto
  have "writes (wseq (map (wexec (writing_of M dm ob c) f)
      (concat (map (write_member (classEnumMap (mObjects dm))) is))) G)
      (Object ((ms @ ?e) @ encode_items M dm enc f is))" if "doc G = Object (ms @ ?e)" for G
    by (rule Cons.IH) (use Cons.prems that in auto)
  from writes_seq[OF head this] show ?case
    by (simp add: encode_items_def)
qed (simp add: encode_items_def)

theorem serialize_storable:
  assumes "storable M dm n t r f"
  shows "serializeTo M dm n t f (Object ms) = Inr (Object (ms @ encode M dm n t f))"
  using assms
proof (induction n arbitrary: t r f ms)
  case (Suc n)
  then obtain ob where ob: "findObject dm t = Some ob" "\<not> mIsEnum ob" "distinct (map mMember (own_items ob))"
    by (auto split: option.splits)
  let ?b = "mInheritsFromO ob"
  let ?W = "writing_of M dm ob (serializeTo M dm n)"
  let ?ok = "\<lambda>t g. has_fields (default_object M dm n t) g \<and> storable M dm n t (default_object M dm n t) g"
  let ?ms = "ms @ (if ?b \<noteq> [] then encode M dm n ?b f else [])"
  have "appends (serializeTo M dm n) (encode M dm n) ?ok"
    using Suc.IH by (auto simp: appends_def)
  moreover have "storable_member M dm ?ok i (field r (mMember i)) (field f (mMember i)) \<and> own i \<and>
      mMember i \<in> set (map fst f) \<and> member_class ob (mMember i) = mType i"
    if "i \<in> set (own_items ob)" for i
    using Suc.prems ob that member_class_own[OF ob(3) that] by (auto simp: list_all_iff own_items_def)
  ultimately have items: "writes (wseq (map (wexec ?W f)
      (concat (map (write_member (classEnumMap (mObjects dm))) (own_items ob)))) F)
      (Object (?ms @ encode_items M dm (encode M dm n) f (own_items ob)))" if "doc F = Object ?ms" for F
    using that by (intro writes_items)
  have "writes (wseq (map (wexec ?W f) (if ?b \<noteq> [] then [BaseTo ?b] else [])) (start_writing (Object ms)))
      (Object ?ms)"
    using Suc ob(1) by (auto simp: start_writing_def)
  from writes_seq[OF this items]
  have "writes (wseq (map (wexec ?W f) (write_function (classEnumMap (mObjects dm)) ob)) (start_writing (Object ms)))
      (Object (ms @ encode M dm (Suc n) t f))"
    using ob(1) unfolding write_function_def write_members_own[of _ "mItems ob"] own_items_def[symmetric]
    by simp
  then show ?case
    using ob(1,2) by (auto simp: writes_def)
qed simp

section \<open>The round trip\<close>

lemma rebuilt:
  assumes "storable M dm n t (default_object M dm n t) f" "has_fields (default_object M dm n t) f"
  shows "deserializeFrom M dm n t (Object (encode M dm n t f)) (default_object M dm n t) = Inr (True, f)"
proof -
  let ?d = "default_object M dm n t"
  have "deserializeFrom M dm n t (Object (encode M dm n t f)) ?d =
      Inr (True, overlay (set (member_names dm n t)) f ?d)"
    using assms by (intro deserialize_storable) (simp_all add: has_fields_def default_object_keys)
  moreover have "overlay (set (member_names dm n t)) f ?d = f"
    by (rule overlay_all[OF assms(2)]) (simp add: default_object_keys)
  ultimately show ?thesis by simp
qed


text \<open>A schema with every kind of member, and an object of it.\<close>

definition json_schema :: DOM where
  "json_schema = importComplete (new_dom\<lparr>mObjects :=
     [new_object\<lparr>mName := ''Color'', mTypeO := ''Enum'',
        mItems := [new_member\<lparr>mMember := ''red''\<rparr>, new_member\<lparr>mMember := ''green'', mAlias := ''grn''\<rparr>]\<rparr>,
      new_object\<lparr>mName := ''Node'', mTypeO := ''Class'',
        mItems := [new_member\<lparr>mMember := ''name'', mType := ''string''\<rparr>]\<rparr>,
      new_object\<lparr>mName := ''Part'', mTypeO := ''Class'',
        mItems := [new_member\<lparr>mMember := ''big'', mType := ''bool''\<rparr>,
          new_member\<lparr>mMember := ''size'', mType := ''i64'', mIsOptional := optional\<rparr>]\<rparr>,
      new_object\<lparr>mName := ''Shape'', mTypeO := ''Class'', mInheritsFromO := ''Node'',
        mItems := [new_member\<lparr>mMember := ''ids'', mType := ''u32'', mIsArray := True\<rparr>,
          new_member\<lparr>mMember := ''color'', mType := ''Color''\<rparr>,
          new_member\<lparr>mMember := ''code'', mType := ''Color'', mSerializeEnumAsInteger := True\<rparr>,
          new_member\<lparr>mMember := ''weight'', mType := ''double''\<rparr>,
          new_member\<lparr>mMember := ''core'', mType := ''Part''\<rparr>,
          new_member\<lparr>mMember := ''parts'', mType := ''Part'', mIsArray := True\<rparr>]\<rparr>]\<rparr>)"

definition json_machine :: "int machine" where
  "json_machine =
     \<lparr>fops = \<lparr>to_float = (\<lambda>x. x), in_float_range = (\<lambda>x. True), of_integer = (\<lambda>x. x)\<rparr>,
      number_of = (\<lambda>t x. if x = ''green'' then 1 else 0), to_integer = (\<lambda>t s. 0),
      initializer = (\<lambda>t i. CInt 0), indeterminate = (\<lambda>t. CInt 0)\<rparr>"

definition json_shape :: "int fields" where
  "json_shape =
     [(''name'', CString ''box''), (''ids'', CVector [CInt 7, CInt 4294967295]),
      (''color'', CEnum ''Color'' ''green''), (''code'', CEnum ''Color'' ''red''), (''weight'', CReal 5),
      (''core'', CObject [(''big'', CBool True), (''size'', COptional None)]),
      (''parts'', CVector [CObject [(''big'', CBool False), (''size'', COptional (Some (CInt (- 3))))]])]"

lemma json_shape_storable:
  "storable json_machine json_schema 3 ''Shape'' (default_object json_machine json_schema 3 ''Shape'') json_shape"
  "has_fields (default_object json_machine json_schema 3 ''Shape'') json_shape"
  by code_simp+


end
