(* ===== verification/JsonErrors.thy ===== *)
theory JsonErrors
  imports JsonRoundTrip
begin

text \<open>
  What the generated \<open>deserializeFrom\<close> does with JSON that \<open>serializeTo\<close> does not write, and with
  some that it does.
\<close>

section \<open>Members that are missing\<close>

definition result_is :: "'d outcome \<Rightarrow> bool \<Rightarrow> 'd fields \<Rightarrow> bool" where
  "result_is y b r \<longleftrightarrow> (\<exists>F. y = Returned b F \<and> target F = r)"

lemma found_block_missing:
  assumes "map_of ms (mMember i) = None" "target F = r"
  shows "if mIsOptional i = required then result_is (run_seq (map (exec E (Object ms)) (found_block i body)) F) False r
    else leaves (run_seq (map (exec E (Object ms)) (found_block i body)) F) r \<or> locals F ''r'' \<noteq> None"
  using assms
  by (auto simp: found_block_def fails_def result_is_def at_object_def)

text \<open>
  C39. A member that the JSON does not have. A required member makes \<open>deserializeFrom\<close> return false,
  except that a required enum is left at its default without an error; an optional one leaves the
  object as it is.
\<close>
theorem missing_member:
  assumes "own i" "\<not> mIsMap i" "known_type ce (mType i)" "map_of ms (mMember i) = None" "at_object r F"
  shows "if mIsOptional i = required \<and> \<not> (ce (mType i) = Some True \<and> getStandardType (mType i) = st_none \<and> \<not> mIsArray i)
    then result_is (run_seq (map (exec E (Object ms)) (read_member ce xs i)) F) False r
    else leaves (run_seq (map (exec E (Object ms)) (read_member ce xs i)) F) r"
proof (cases "getStandardType (mType i) = st_none")
  case True
  then obtain b where "ce (mType i) = Some b"
    using assms(3) by (auto simp: known_type_def standard_none)
  then show ?thesis
    using assms True
    by (cases b; cases "mIsArray i")
      (simp_all add: read_member_def own_def read_named_def read_enum_def read_object_def read_array_def
        found_block_def fails_def at_object_def result_is_def)
next
  case False
  then obtain g b where "deserializeTypeName (getStandardType (mType i)) = (Some g, b)"
    by (cases "getStandardType (mType i)") auto
  then show ?thesis
    using assms False
    by (simp add: read_member_def own_def read_standard_def read_value_def found_block_def fails_def
        at_object_def result_is_def)
qed

text \<open>Two members, the settings of a run and an object to read into.\<close>

definition demo_member :: "string \<Rightarrow> MemberVariable" where
  "demo_member t = new_member\<lparr>mMember := ''m'', mType := t\<rparr>"

definition demo_reading :: "int reading" where
  "demo_reading = reading_of json_machine json_schema 3 new_object (\<lambda>t v r. Inr (True, r))"

definition demo_frame :: "int frame" where
  "demo_frame = start_reading [(''m'', CVector [])]"

lemma demo_frame_at: "at_object [(''m'', CVector [])] demo_frame"
  by (simp add: at_object_def demo_frame_def start_reading_def)

theorem missing_member_witness:
  "result_is (run_seq (map (exec demo_reading (Object []))
     (read_member (classEnumMap (mObjects json_schema)) [] (demo_member ''Part''))) demo_frame) False [(''m'', CVector [])]"
proof -
  let ?ce = "classEnumMap (mObjects json_schema)"
  have "own (demo_member ''Part'')" "\<not> mIsMap (demo_member ''Part'')" "known_type ?ce (mType (demo_member ''Part''))"
    "mIsOptional (demo_member ''Part'') = required" "?ce (mType (demo_member ''Part'')) = Some False"
    by code_simp+
  then show ?thesis
    using missing_member[of "demo_member ''Part''" ?ce "[]" "[(''m'', CVector [])]" demo_frame demo_reading "[]"]
      demo_frame_at by simp
qed

section \<open>Arrays that are lost\<close>



section \<open>Values that are no object\<close>

definition not_object :: "'d Value \<Rightarrow> bool" where
  "not_object v \<longleftrightarrow> (\<forall>ms. v \<noteq> Object ms)"

lemma not_object_simps:
  "not_object v \<Longrightarrow> FindMember v x = Inl AssertFail" "not_object v \<Longrightarrow> members v = Inl AssertFail"
  by (cases v; simp add: not_object_def FindMember_def members_def)+

lemma member_of_no_object:
  assumes "own i" "known_type ce (mType i)" "not_object v"
  shows "run_seq (map (exec E v) (read_member ce xs i @ ys)) F = Fault AssertFail"
proof (cases "getStandardType (mType i) = st_none")
  case True
  then obtain b where "ce (mType i) = Some b"
    using assms(2) by (auto simp: known_type_def standard_none)
  then show ?thesis
    using assms True
    by (cases "mIsArray i"; cases "mIsMap i"; cases b)
      (simp_all add: read_member_def own_def read_named_def read_enum_def read_object_def read_array_def
        read_enum_map_def found_block_def not_object_simps)
next
  case False
  then obtain g b where "deserializeTypeName (getStandardType (mType i)) = (Some g, b)"
    by (cases "getStandardType (mType i)") auto
  then show ?thesis
    using assms False
    by (simp add: read_member_def own_def read_standard_def read_map_def read_value_def found_block_def
        not_object_simps)
qed

text \<open>
  C40. A JSON value that is no object, where a class is expected, is not reported as an error: the
  first lookup fails RapidJSON's assertion. This is what a document whose text does not parse (its
  value is null) or an array element of the wrong kind leads to.
\<close>
theorem no_object_asserts:
  assumes "findObject dm t = Some ob" "\<not> mIsEnum ob" "mInheritsFromO ob = []" "own_items ob \<noteq> []"
    "\<And>i. i \<in> set (own_items ob) \<Longrightarrow> known_type (classEnumMap (mObjects dm)) (mType i)" "not_object v"
  shows "deserializeFrom M dm (Suc n) t v r = Inl AssertFail"
proof -
  obtain i "is" where i: "own_items ob = i # is" using assms(4) by (cases "own_items ob") auto
  then have own: "own i" by (auto simp: own_items_def filter_eq_Cons_iff)
  have "concat (map (read_member (classEnumMap (mObjects dm)) (non_map_items ob)) (mItems ob)) =
      read_member (classEnumMap (mObjects dm)) (non_map_items ob) i
      @ concat (map (read_member (classEnumMap (mObjects dm)) (non_map_items ob)) is)"
    using i read_members_own[of _ _ "mItems ob"] by (simp add: own_items_def)
  then have "exec E v (read_function (classEnumMap (mObjects dm)) ob) F = Fault AssertFail" for E F
    using member_of_no_object[OF own assms(5)[of i] assms(6)] assms(3) i
    by (simp add: read_function_def del: map_append)
  then show ?thesis using assms(1,2) by simp
qed

theorem no_object_asserts_witness:
  "deserializeFrom json_machine json_schema 1 ''Part'' Null [] = Inl AssertFail"
proof -
  have ob: "findObject json_schema ''Part'' = Some (mObjects json_schema ! 2)"
    "\<not> mIsEnum (mObjects json_schema ! 2)" "mInheritsFromO (mObjects json_schema ! 2) = []"
    "own_items (mObjects json_schema ! 2) \<noteq> []"
    "list_all (\<lambda>i. known_type (classEnumMap (mObjects json_schema)) (mType i)) (own_items (mObjects json_schema ! 2))"
    by code_simp+
  show ?thesis
    using no_object_asserts[OF ob(1-4), of Null json_machine 0 "[]"] ob(5)
    by (simp add: not_object_def list_all_iff)
qed

end
