(* ===== verification/RapidReader.thy ===== *)
theory RapidReader
  imports RapidWriter
begin

text \<open>
  RapidJSON's recursive-descent reader (src/include/rapidjson/reader.h) with the default flags on a
  string stream, and the events of \<open>GenericDocument\<close> (src/include/rapidjson/document.h), the handler
  behind \<open>Parse\<close>. The stream is the text still to be read; the error position of the code is where
  the rest kept in \<open>Stopped\<close> begins. The handler is a parameter of the reader. Lengths and the
  exponent of a fraction are unbounded numbers here, for texts below two gigabytes.
\<close>

section \<open>Results\<close>

datatype ParseErrorCode =
    kParseErrorDocumentEmpty
  | kParseErrorDocumentRootNotSingular
  | kParseErrorValueInvalid
  | kParseErrorObjectMissName
  | kParseErrorObjectMissColon
  | kParseErrorObjectMissCommaOrCurlyBracket
  | kParseErrorArrayMissCommaOrSquareBracket
  | kParseErrorStringUnicodeEscapeInvalidHex
  | kParseErrorStringUnicodeSurrogateInvalid
  | kParseErrorStringEscapeInvalid
  | kParseErrorStringMissQuotationMark
  | kParseErrorStringInvalidEncoding
  | kParseErrorNumberTooBig
  | kParseErrorNumberMissFraction
  | kParseErrorNumberMissExponent
  | kParseErrorTermination
  | kParseErrorUnspecificSyntaxError

text \<open>
  A reader stops with an error code and a position, by a failed assertion, or because the fuel of
  the model is used up.
\<close>

datatype stop = Stopped ParseErrorCode string | Crashed fault | OutOfFuel

type_synonym ('d, 's) handler = "'d event \<Rightarrow> 's \<Rightarrow> fault + (bool \<times> 's)"

text \<open>Sending one event; the handler's false becomes \<open>kParseErrorTermination\<close>.\<close>

definition emit :: "('d, 's) handler \<Rightarrow> 'd event \<Rightarrow> string \<Rightarrow> 's \<Rightarrow> stop + 's" where
  "emit handle e pos s =
     (case handle e s of
        Inl f \<Rightarrow> Inl (Crashed f)
      | Inr (ok, s') \<Rightarrow> if ok then Inr s' else Inl (Stopped kParseErrorTermination pos))"

section \<open>The stream\<close>

text \<open>The terminating zero is all there is behind the text; no operation takes it.\<close>

definition Peek :: "string \<Rightarrow> char" where
  "Peek is = (case is of [] \<Rightarrow> nul | c # _ \<Rightarrow> c)"

definition blank :: "char \<Rightarrow> bool" where
  "blank c \<longleftrightarrow> c = CHR '' '' \<or> c = CHR 0x0A \<or> c = CHR 0x0D \<or> c = CHR 0x09"

fun SkipWhitespace :: "string \<Rightarrow> string" where
  "SkipWhitespace [] = []"
| "SkipWhitespace (c # s) = (if blank c then SkipWhitespace s else c # s)"

definition Consume :: "char \<Rightarrow> string \<Rightarrow> bool \<times> string" where
  "Consume expect is = (if Peek is = expect then (True, tl is) else (False, is))"

text \<open>\<open>Consume(is, a) && Consume(is, b) && ...\<close>\<close>

fun Consume_all :: "string \<Rightarrow> string \<Rightarrow> bool \<times> string" where
  "Consume_all [] is = (True, is)"
| "Consume_all (c # cs) is =
     (case Consume c is of (ok, r) \<Rightarrow> if ok then Consume_all cs r else (False, r))"

section \<open>Literals\<close>

definition ParseLiteral ::
  "char \<Rightarrow> string \<Rightarrow> 'd event \<Rightarrow> ('d, 's) handler \<Rightarrow> string \<Rightarrow> 's \<Rightarrow> stop + (string \<times> 's)"
where
  "ParseLiteral c cs e handle is s =
     (if Peek is \<noteq> c then Inl (Crashed AssertFail)
      else case Consume_all cs (tl is) of
        (ok, r) \<Rightarrow>
          if ok then bind_fault (emit handle e r s) (\<lambda>s. Inr (r, s))
          else Inl (Stopped kParseErrorValueInvalid r))"

definition ParseNull :: "('d, 's) handler \<Rightarrow> string \<Rightarrow> 's \<Rightarrow> stop + (string \<times> 's)" where
  "ParseNull = ParseLiteral CHR ''n'' ''ull'' NullE"

definition ParseTrue :: "('d, 's) handler \<Rightarrow> string \<Rightarrow> 's \<Rightarrow> stop + (string \<times> 's)" where
  "ParseTrue = ParseLiteral CHR ''t'' ''rue'' (BoolE True)"

definition ParseFalse :: "('d, 's) handler \<Rightarrow> string \<Rightarrow> 's \<Rightarrow> stop + (string \<times> 's)" where
  "ParseFalse = ParseLiteral CHR ''f'' ''alse'' (BoolE False)"

section \<open>Strings\<close>

text \<open>The digits left and the code point so far; \<open>None\<close> is a character that is no digit.\<close>

fun ParseHex4 :: "nat \<Rightarrow> u32 \<Rightarrow> string \<Rightarrow> (u32 \<times> string) option" where
  "ParseHex4 0 codepoint is = Some (codepoint, is)"
| "ParseHex4 (Suc i) codepoint is =
     (let c = Peek is; cp = push_bit 4 codepoint + of_nat (code_of c)
      in if in_range CHR ''0'' CHR ''9'' c then ParseHex4 i (cp - 48) (tl is)
         else if in_range CHR ''A'' CHR ''F'' c then ParseHex4 i (cp - 55) (tl is)
         else if in_range CHR ''a'' CHR ''f'' c then ParseHex4 i (cp - 87) (tl is)
         else None)"

definition byte :: "u32 \<Rightarrow> char" where
  "byte w = char_of (unat w)"

text \<open>\<open>UTF8::Encode\<close> (src/include/rapidjson/encodings.h)\<close>

definition Encode :: "u32 \<Rightarrow> fault + string" where
  "Encode cp =
     (if cp \<le> 0x7F then Inr [byte (cp AND 0xFF)]
      else if cp \<le> 0x7FF then
        Inr [byte (0xC0 OR (drop_bit 6 cp AND 0xFF)), byte (0x80 OR (cp AND 0x3F))]
      else if cp \<le> 0xFFFF then
        Inr [byte (0xE0 OR (drop_bit 12 cp AND 0xFF)), byte (0x80 OR (drop_bit 6 cp AND 0x3F)),
          byte (0x80 OR (cp AND 0x3F))]
      else if 0x10FFFF < cp then Inl AssertFail
      else
        Inr [byte (0xF0 OR (drop_bit 18 cp AND 0xFF)), byte (0x80 OR (drop_bit 12 cp AND 0x3F)),
          byte (0x80 OR (drop_bit 6 cp AND 0x3F)), byte (0x80 OR (cp AND 0x3F))])"

text \<open>The table \<open>escape\<close> of \<open>ParseStringToStream\<close>; zero is \<open>None\<close>.\<close>

definition read_escape :: "char \<Rightarrow> char option" where
  "read_escape e =
     (if e = quote_char \<or> e = CHR ''/'' \<or> e = backslash then Some e
      else if e = CHR ''b'' then Some CHR 0x08
      else if e = CHR ''f'' then Some CHR 0x0C
      else if e = CHR ''n'' then Some CHR 0x0A
      else if e = CHR ''r'' then Some CHR 0x0D
      else if e = CHR ''t'' then Some CHR 0x09
      else None)"

definition encoded :: "u32 \<Rightarrow> string \<Rightarrow> stop + (string \<times> string)" where
  "encoded cp is = (case Encode cp of Inl f \<Rightarrow> Inl (Crashed f) | Inr bs \<Rightarrow> Inr (bs, is))"

text \<open>After \<open>\u\<close>; \<open>esc\<close> is the position of the backslash.\<close>

definition ParseUnicode :: "string \<Rightarrow> string \<Rightarrow> stop + (string \<times> string)" where
  "ParseUnicode esc is =
     (case ParseHex4 4 0 is of
        None \<Rightarrow> Inl (Stopped kParseErrorStringUnicodeEscapeInvalidHex esc)
      | Some (cp, r) \<Rightarrow>
          if 0xD800 \<le> cp \<and> cp \<le> 0xDBFF then
            (case Consume_all [backslash, CHR ''u''] r of
               (ok, r) \<Rightarrow>
                 if \<not> ok then Inl (Stopped kParseErrorStringUnicodeSurrogateInvalid esc)
                 else case ParseHex4 4 0 r of
                   None \<Rightarrow> Inl (Stopped kParseErrorStringUnicodeEscapeInvalidHex esc)
                 | Some (cp2, r) \<Rightarrow>
                     if cp2 < 0xDC00 \<or> 0xDFFF < cp2
                     then Inl (Stopped kParseErrorStringUnicodeSurrogateInvalid esc)
                     else encoded ((push_bit 10 (cp - 0xD800) OR (cp2 - 0xDC00)) + 0x10000) r)
          else encoded cp r)"

text \<open>One turn of the loop of \<open>ParseStringToStream\<close>: the bytes it puts, or the end of the string.\<close>

definition string_turn :: "string \<Rightarrow> stop + (string option \<times> string)" where
  "string_turn is =
     (let c = Peek is
      in if c = backslash then
           (let e = Peek (tl is)
            in case read_escape e of
                 Some x \<Rightarrow> Inr (Some [x], tl (tl is))
               | None \<Rightarrow>
                   if e = CHR ''u'' then
                     map_sum id (map_prod Some id) (ParseUnicode is (tl (tl is)))
                   else Inl (Stopped kParseErrorStringEscapeInvalid is))
         else if c = quote_char then Inr (None, tl is)
         else if code_of c < 0x20 then
           Inl (Stopped (if c = nul then kParseErrorStringMissQuotationMark
                         else kParseErrorStringInvalidEncoding) is)
         else Inr (Some [c], tl is))"

text \<open>Everything the reader accepts makes the rest shorter.\<close>

lemma Peek_tl: "Peek is = c \<Longrightarrow> c \<noteq> nul \<Longrightarrow> is = c # tl is"
  by (cases "is") (auto simp: Peek_def)

lemma Consume_shorter: "Consume c is = (ok, r) \<Longrightarrow> length r \<le> length is"
  by (auto simp: Consume_def split: if_splits)

lemma Consume_all_shorter: "Consume_all cs is = (ok, r) \<Longrightarrow> length r \<le> length is"
proof (induction cs "is" rule: Consume_all.induct)
  case (2 c cs "is")
  then show ?case by (fastforce split: prod.splits if_splits dest: Consume_shorter)
qed simp

lemma ParseHex4_shorter: "ParseHex4 n cp is = Some (w, r) \<Longrightarrow> length r \<le> length is"
proof (induction n arbitrary: cp "is")
  case (Suc n)
  from Suc.prems have "length r \<le> length (tl is)"
    by (auto simp: Let_def split: if_splits dest!: Suc.IH)
  then show ?case by simp
qed simp

lemma ParseUnicode_shorter: "ParseUnicode esc is = Inr (bs, r) \<Longrightarrow> length r \<le> length is"
  by (auto simp: ParseUnicode_def encoded_def split: option.splits prod.splits if_splits sum.splits
      dest!: ParseHex4_shorter Consume_all_shorter simp del: Consume_all.simps)

lemma map_sum_Inr: "map_sum f g x = Inr y \<longleftrightarrow> (\<exists>z. x = Inr z \<and> y = g z)"
  by (cases x) auto

lemma string_turn_shorter:
  assumes "string_turn is = Inr (x, r)"
  shows "length r < length is"
proof (cases "is")
  case Nil
  then show ?thesis
    using assms by (simp add: string_turn_def Peek_def nul_def backslash_def quote_char_def code_of_def)
next
  case (Cons c s)
  then show ?thesis
    using assms
    by (auto simp: string_turn_def Let_def Peek_def map_sum_Inr split: option.splits if_splits list.splits
        dest!: ParseUnicode_shorter)
qed

function ParseStringToStream :: "string \<Rightarrow> stop + (string \<times> string)" where
  "ParseStringToStream is =
     (case string_turn is of
        Inl e \<Rightarrow> Inl e
      | Inr (None, r) \<Rightarrow> Inr ([], r)
      | Inr (Some bs, r) \<Rightarrow>
          (case ParseStringToStream r of
             Inl e \<Rightarrow> Inl e
           | Inr (t, r) \<Rightarrow> Inr (bs @ t, r)))"
  by pat_completeness auto
termination
  by (relation "measure length") (auto dest: string_turn_shorter)

declare ParseStringToStream.simps [simp del]

definition ParseString :: "('d, 's) handler \<Rightarrow> bool \<Rightarrow> string \<Rightarrow> 's \<Rightarrow> stop + (string \<times> 's)" where
  "ParseString handle isKey is s =
     (if Peek is \<noteq> quote_char then Inl (Crashed AssertFail)
      else case ParseStringToStream (tl is) of
        Inl e \<Rightarrow> Inl e
      | Inr (t, r) \<Rightarrow>
          bind_fault (emit handle (if isKey then KeyE t else StringE t) r s) (\<lambda>s. Inr (r, s)))"

section \<open>Numbers\<close>

text \<open>
  What the machine does with doubles: \<open>static_cast<double>\<close> of an integer, the arithmetic, the
  entries of the table of powers of ten, \<open>0.0\<close>, \<open>d > 0.0\<close>, \<open>d > max\<close> and \<open>-d\<close>.
\<close>

record 'd double_ops =
  d_of :: "u64 \<Rightarrow> 'd"
  d_add :: "'d \<Rightarrow> 'd \<Rightarrow> 'd"
  d_mul :: "'d \<Rightarrow> 'd \<Rightarrow> 'd"
  d_div :: "'d \<Rightarrow> 'd \<Rightarrow> 'd"
  d_pow10 :: "nat \<Rightarrow> 'd"
  d_zero :: 'd
  d_positive :: "'d \<Rightarrow> bool"
  d_too_big :: "'d \<Rightarrow> bool"
  d_neg :: "'d \<Rightarrow> 'd"

text \<open>src/include/rapidjson/internal/pow10.h and strtod.h\<close>

definition Pow10 :: "'d double_ops \<Rightarrow> int \<Rightarrow> fault + 'd" where
  "Pow10 ops n = (if 0 \<le> n \<and> n \<le> 308 then Inr (d_pow10 ops (nat n)) else Inl AssertFail)"

definition FastPath :: "'d double_ops \<Rightarrow> 'd \<Rightarrow> int \<Rightarrow> fault + 'd" where
  "FastPath ops significand e =
     (if e < - 308 then Inr (d_zero ops)
      else if 0 \<le> e then bind_fault (Pow10 ops e) (\<lambda>p. Inr (d_mul ops significand p))
      else bind_fault (Pow10 ops (- e)) (\<lambda>p. Inr (d_div ops significand p)))"

definition StrtodNormalPrecision :: "'d double_ops \<Rightarrow> 'd \<Rightarrow> int \<Rightarrow> fault + 'd" where
  "StrtodNormalPrecision ops d p =
     (if p < - 308 then bind_fault (FastPath ops d (- 308)) (\<lambda>d. FastPath ops d (p + 308))
      else FastPath ops d p)"

text \<open>The local variables of \<open>ParseNumber\<close>.\<close>

record 'd num_state =
  num_i :: u32
  num_i64 :: u64
  use64bit :: bool
  useDouble :: bool
  num_d :: 'd
  significandDigit :: nat
  expFrac :: int

definition digit_of :: "char \<Rightarrow> nat" where
  "digit_of c = code_of c - 48"

text \<open>
  The digit loops of the 32- and 64-bit integers: they break in front of the digit that would make
  the number exceed its type. \<open>limit\<close> and \<open>final\<close> are the greatest number and the greatest last digit.
\<close>

fun scan_digits ::
  "'w::len word \<Rightarrow> char \<Rightarrow> 'w word \<Rightarrow> nat \<Rightarrow> string \<Rightarrow> bool \<times> 'w word \<times> nat \<times> string"
where
  "scan_digits limit final i k [] = (False, i, k, [])"
| "scan_digits limit final i k (c # s) =
     (if \<not> is_dec_digit c then (False, i, k, c # s)
      else if limit \<le> i \<and> (i \<noteq> limit \<or> code_of final < code_of c) then (True, i, k, c # s)
      else scan_digits limit final (i * 10 + of_nat (digit_of c)) (Suc k) s)"

text \<open>\<open>d = d * 10 + (s.TakePush() - '0')\<close>\<close>

definition next_digit :: "'d double_ops \<Rightarrow> 'd \<Rightarrow> char \<Rightarrow> 'd" where
  "next_digit ops d c = d_add ops (d_mul ops d (d_of ops 10)) (d_of ops (of_nat (digit_of c)))"

fun big_digits :: "'d double_ops \<Rightarrow> 'd \<Rightarrow> string \<Rightarrow> 'd \<times> string" where
  "big_digits ops d [] = (d, [])"
| "big_digits ops d (c # s) =
     (if is_dec_digit c then big_digits ops (next_digit ops d c) s else (d, c # s))"

text \<open>The digits behind the point, in \<open>i64\<close> up to \<open>2 ^ 53 - 1\<close> (a 64-bit build), then in \<open>d\<close>.\<close>

fun frac_whole :: "u64 \<Rightarrow> int \<Rightarrow> nat \<Rightarrow> string \<Rightarrow> u64 \<times> int \<times> nat \<times> string" where
  "frac_whole i64 e k [] = (i64, e, k, [])"
| "frac_whole i64 e k (c # s) =
     (if \<not> is_dec_digit c \<or> 0x1FFFFFFFFFFFFF < i64 then (i64, e, k, c # s)
      else let i64 = i64 * 10 + of_nat (digit_of c)
           in frac_whole i64 (e - 1) (if i64 \<noteq> 0 then Suc k else k) s)"

fun frac_double :: "'d double_ops \<Rightarrow> 'd \<Rightarrow> int \<Rightarrow> nat \<Rightarrow> string \<Rightarrow> 'd \<times> int \<times> nat \<times> string" where
  "frac_double ops d e k [] = (d, e, k, [])"
| "frac_double ops d e k (c # s) =
     (if \<not> is_dec_digit c then (d, e, k, c # s)
      else if k < 17 then
        (let d = next_digit ops d c in frac_double ops d (e - 1) (if d_positive ops d then Suc k else k) s)
      else frac_double ops d e k s)"

text \<open>The digits of a negative exponent; beyond \<open>maxExp\<close> the rest of them is skipped.\<close>

fun exp_down :: "int \<Rightarrow> int \<Rightarrow> string \<Rightarrow> int \<times> string" where
  "exp_down maxExp e [] = (e, [])"
| "exp_down maxExp e (c # s) =
     (if is_dec_digit c then
        (let e = e * 10 + int (digit_of c)
         in if maxExp < e then (e, dropWhile is_dec_digit s) else exp_down maxExp e s)
      else (e, c # s))"

text \<open>The digits of a positive exponent; \<open>None\<close> is an exponent that is too big.\<close>

fun exp_up :: "int \<Rightarrow> int \<Rightarrow> string \<Rightarrow> (int \<times> string) option" where
  "exp_up maxExp e [] = Some (e, [])"
| "exp_up maxExp e (c # s) =
     (if is_dec_digit c then
        (let e = e * 10 + int (digit_of c) in if maxExp < e then None else exp_up maxExp e s)
      else Some (e, c # s))"

definition new_num :: "'d double_ops \<Rightarrow> 'd num_state" where
  "new_num ops =
     \<lparr>num_i = 0, num_i64 = 0, use64bit = False, useDouble = False, num_d = d_zero ops,
      significandDigit = 0, expFrac = 0\<rparr>"

definition num_int :: "'d double_ops \<Rightarrow> bool \<Rightarrow> string \<Rightarrow> stop + ('d num_state \<times> string)" where
  "num_int ops neg is =
     (let c = Peek is
      in if c = CHR ''0'' then Inr (new_num ops, tl is)
         else if in_range CHR ''1'' CHR ''9'' c then
           (case scan_digits (if neg then 214748364 else 429496729) (if neg then CHR ''8'' else CHR ''5'')
                   (of_nat (digit_of c)) 0 (tl is) of
              (big, i, k, r) \<Rightarrow>
                Inr ((new_num ops)\<lparr>num_i := i, num_i64 := (if big then ucast i else 0), use64bit := big,
                       significandDigit := k\<rparr>, r))
         else Inl (Stopped kParseErrorValueInvalid is))"

definition num_int64 :: "'d double_ops \<Rightarrow> bool \<Rightarrow> 'd num_state \<Rightarrow> string \<Rightarrow> 'd num_state \<times> string" where
  "num_int64 ops neg n is =
     (if use64bit n then
        (case scan_digits (if neg then 0x0CCCCCCCCCCCCCCC else 0x1999999999999999)
                (if neg then CHR ''8'' else CHR ''5'') (num_i64 n) (significandDigit n) is of
           (big, i64, k, r) \<Rightarrow>
             let n = n\<lparr>num_i64 := i64, significandDigit := k\<rparr>
             in if big then
                  (case big_digits ops (d_of ops i64) r of (d, r) \<Rightarrow> (n\<lparr>useDouble := True, num_d := d\<rparr>, r))
                else (n, r))
      else (n, is))"

text \<open>\<open>use64bit ? i64 : i\<close>\<close>

definition num_whole :: "'d num_state \<Rightarrow> u64" where
  "num_whole n = (if use64bit n then num_i64 n else ucast (num_i n))"

definition num_frac :: "'d double_ops \<Rightarrow> 'd num_state \<Rightarrow> string \<Rightarrow> stop + ('d num_state \<times> string)" where
  "num_frac ops n is =
     (case Consume CHR ''.'' is of
        (dot, r) \<Rightarrow>
          if \<not> dot then Inr (n, is)
          else if \<not> is_dec_digit (Peek r) then Inl (Stopped kParseErrorNumberMissFraction r)
          else
            (case (if useDouble n then (n, r)
                   else case frac_whole (num_whole n) (expFrac n) (significandDigit n) r of
                     (m, e, k, r) \<Rightarrow>
                       (n\<lparr>num_i64 := m, num_d := d_of ops m, useDouble := True, expFrac := e,
                          significandDigit := k\<rparr>, r)) of
               (n, r) \<Rightarrow>
                 case frac_double ops (num_d n) (expFrac n) (significandDigit n) r of
                   (d, e, k, r) \<Rightarrow> Inr (n\<lparr>num_d := d, expFrac := e, significandDigit := k\<rparr>, r)))"

text \<open>The exponent; \<open>start\<close> is where the number begins.\<close>

definition num_exp ::
  "'d double_ops \<Rightarrow> string \<Rightarrow> 'd num_state \<Rightarrow> string \<Rightarrow> stop + (int \<times> 'd num_state \<times> string)"
where
  "num_exp ops start n is =
     (if Peek is = CHR ''e'' \<or> Peek is = CHR ''E'' then
        (let n = (if useDouble n then n else n\<lparr>num_d := d_of ops (num_whole n), useDouble := True\<rparr>);
             (expMinus, r) =
               (if Peek (tl is) = CHR ''+'' then (False, tl (tl is)) else Consume CHR ''-'' (tl is))
         in if \<not> is_dec_digit (Peek r) then Inl (Stopped kParseErrorNumberMissExponent r)
            else
              let e = int (digit_of (Peek r))
              in if expMinus then
                   (if 0 < expFrac n then Inl (Crashed AssertFail)
                    else case exp_down ((expFrac n + 2147483639) div 10) e (tl r) of
                      (e, r) \<Rightarrow> Inr (- e, n, r))
                 else
                   (case exp_up (308 - expFrac n) e (tl r) of
                      None \<Rightarrow> Inl (Stopped kParseErrorNumberTooBig start)
                    | Some (e, r) \<Rightarrow> Inr (e, n, r)))
      else Inr (0, n, is))"

definition num_event ::
  "'d double_ops \<Rightarrow> bool \<Rightarrow> string \<Rightarrow> int \<Rightarrow> 'd num_state \<Rightarrow> stop + 'd event"
where
  "num_event ops neg start e n =
     (if useDouble n then
        (case StrtodNormalPrecision ops (num_d n) (e + expFrac n) of
           Inl f \<Rightarrow> Inl (Crashed f)
         | Inr d \<Rightarrow>
             if d_too_big ops d then Inl (Stopped kParseErrorNumberTooBig start)
             else Inr (DoubleE (if neg then d_neg ops d else d)))
      else if use64bit n then
        Inr (if neg then Int64E (NOT (num_i64 n) + 1) else Uint64E (num_i64 n))
      else Inr (if neg then IntE (NOT (num_i n) + 1) else UintE (num_i n)))"

definition ParseNumber :: "'d double_ops \<Rightarrow> ('d, 's) handler \<Rightarrow> string \<Rightarrow> 's \<Rightarrow> stop + (string \<times> 's)" where
  "ParseNumber ops handle start s =
     (case Consume CHR ''-'' start of
        (neg, r) \<Rightarrow>
          bind_fault (num_int ops neg r) (\<lambda>(n, r).
          case num_int64 ops neg n r of (n, r) \<Rightarrow>
          bind_fault (num_frac ops n r) (\<lambda>(n, r).
          bind_fault (num_exp ops start n r) (\<lambda>(e, n, r).
          bind_fault (num_event ops neg start e n) (\<lambda>ev.
          bind_fault (emit handle ev start s) (\<lambda>s. Inr (r, s)))))))"

section \<open>Values\<close>

text \<open>
  \<open>ParseValue\<close> and the loops of \<open>ParseObject\<close> and \<open>ParseArray\<close>, which call each other. The fuel
  bounds the turns and the nesting.
\<close>

definition open_level ::
  "('d, 's) handler \<Rightarrow> char \<Rightarrow> 'd event \<Rightarrow> string \<Rightarrow> 's \<Rightarrow> stop + (string \<times> 's)"
where
  "open_level handle c e is s =
     (if Peek is \<noteq> c then Inl (Crashed AssertFail)
      else bind_fault (emit handle e (tl is) s) (\<lambda>s. Inr (SkipWhitespace (tl is), s)))"

definition close_level ::
  "('d, 's) handler \<Rightarrow> 'd event \<Rightarrow> string \<Rightarrow> 's \<Rightarrow> stop + (string \<times> 's)"
where
  "close_level handle e is s = bind_fault (emit handle e (tl is) s) (\<lambda>s. Inr (tl is, s))"

fun ParseValue :: "'d double_ops \<Rightarrow> ('d, 's) handler \<Rightarrow> nat \<Rightarrow> string \<Rightarrow> 's \<Rightarrow> stop + (string \<times> 's)"
  and object_members ::
    "'d double_ops \<Rightarrow> ('d, 's) handler \<Rightarrow> nat \<Rightarrow> nat \<Rightarrow> string \<Rightarrow> 's \<Rightarrow> stop + (string \<times> 's)"
  and array_elements ::
    "'d double_ops \<Rightarrow> ('d, 's) handler \<Rightarrow> nat \<Rightarrow> nat \<Rightarrow> string \<Rightarrow> 's \<Rightarrow> stop + (string \<times> 's)"
where
  "ParseValue ops handle 0 is s = Inl OutOfFuel"
| "ParseValue ops handle (Suc n) is s =
     (let c = Peek is
      in if c = CHR ''n'' then ParseNull handle is s
         else if c = CHR ''t'' then ParseTrue handle is s
         else if c = CHR ''f'' then ParseFalse handle is s
         else if c = quote_char then ParseString handle False is s
         else if c = CHR ''{'' then
           bind_fault (open_level handle CHR ''{'' StartObject is s) (\<lambda>(is, s).
             if Peek is = CHR ''}'' then close_level handle (EndObject 0) is s
             else object_members ops handle n 0 is s)
         else if c = CHR ''['' then
           bind_fault (open_level handle CHR ''['' StartArray is s) (\<lambda>(is, s).
             if Peek is = CHR '']'' then close_level handle (EndArray 0) is s
             else array_elements ops handle n 0 is s)
         else ParseNumber ops handle is s)"
| "object_members ops handle 0 memberCount is s = Inl OutOfFuel"
| "object_members ops handle (Suc n) memberCount is s =
     (if Peek is \<noteq> quote_char then Inl (Stopped kParseErrorObjectMissName is)
      else
        bind_fault (ParseString handle True is s) (\<lambda>(is, s).
        case Consume CHR '':'' (SkipWhitespace is) of (ok, is) \<Rightarrow>
          if \<not> ok then Inl (Stopped kParseErrorObjectMissColon is)
          else
            bind_fault (ParseValue ops handle n (SkipWhitespace is) s) (\<lambda>(is, s).
            let is = SkipWhitespace is
            in if Peek is = CHR '','' then
                 object_members ops handle n (Suc memberCount) (SkipWhitespace (tl is)) s
               else if Peek is = CHR ''}'' then close_level handle (EndObject (Suc memberCount)) is s
               else Inl (Stopped kParseErrorObjectMissCommaOrCurlyBracket is))))"
| "array_elements ops handle 0 elementCount is s = Inl OutOfFuel"
| "array_elements ops handle (Suc n) elementCount is s =
     bind_fault (ParseValue ops handle n is s) (\<lambda>(is, s).
     let is = SkipWhitespace is
     in if Peek is = CHR '','' then
          array_elements ops handle n (Suc elementCount) (SkipWhitespace (tl is)) s
        else if Peek is = CHR '']'' then close_level handle (EndArray (Suc elementCount)) is s
        else Inl (Stopped kParseErrorArrayMissCommaOrSquareBracket is))"

definition Parse :: "'d double_ops \<Rightarrow> ('d, 's) handler \<Rightarrow> nat \<Rightarrow> string \<Rightarrow> 's \<Rightarrow> stop + 's" where
  "Parse ops handle n is s =
     (let is = SkipWhitespace is
      in if Peek is = nul then Inl (Stopped kParseErrorDocumentEmpty is)
         else
           bind_fault (ParseValue ops handle n is s) (\<lambda>(is, s).
           let is = SkipWhitespace is
           in if Peek is \<noteq> nul then Inl (Stopped kParseErrorDocumentRootNotSingular is)
              else Inr s))"

section \<open>The document\<close>

text \<open>The handler's stack of values, the last one pushed first.\<close>

definition push_value :: "'d Value \<Rightarrow> 'd Value list \<Rightarrow> fault + (bool \<times> 'd Value list)" where
  "push_value v st = Inr (True, v # st)"

text \<open>\<open>stack_.Pop(n)\<close>: the values in the order they were pushed, and the stack below.\<close>

definition Pop :: "nat \<Rightarrow> 'd Value list \<Rightarrow> fault + ('d Value list \<times> 'd Value list)" where
  "Pop n st = (if length st < n then Inl AssertFail else Inr (rev (take n st), drop n st))"

text \<open>
  \<open>SetObjectRaw\<close> on the value at the top: its members are pairs of adjacent values, the first of
  each a name. The model of objects has strings as names, so any other name is a fault.
\<close>

fun as_members :: "'d Value list \<Rightarrow> fault + (string \<times> 'd Value) list" where
  "as_members [] = Inr []"
| "as_members (String k # v # vs) = bind_fault (as_members vs) (\<lambda>ms. Inr ((k, v) # ms))"
| "as_members _ = Inl AssertFail"

fun set_top :: "'d Value \<Rightarrow> 'd Value list \<Rightarrow> fault + (bool \<times> 'd Value list)" where
  "set_top v [] = Inl AssertFail"
| "set_top v (_ # st) = Inr (True, v # st)"

fun document_event :: "('d, 'd Value list) handler" where
  "document_event NullE st = push_value Null st"
| "document_event (BoolE b) st = push_value (Boolean b) st"
| "document_event (IntE i) st = push_value (Value_int i) st"
| "document_event (UintE u) st = push_value (Value_unsigned u) st"
| "document_event (Int64E i) st = push_value (Value_int64 i) st"
| "document_event (Uint64E u) st = push_value (Value_uint64 u) st"
| "document_event (DoubleE d) st = push_value (Value_double d) st"
| "document_event (StringE t) st = push_value (String t) st"
| "document_event (KeyE t) st = push_value (String t) st"
| "document_event StartObject st = push_value (Object []) st"
| "document_event (EndObject n) st =
     bind_fault (Pop (2 * n) st) (\<lambda>(vs, st).
     bind_fault (as_members vs) (\<lambda>ms. set_top (Object ms) st))"
| "document_event StartArray st = push_value (Array []) st"
| "document_event (EndArray n) st = bind_fault (Pop n st) (\<lambda>(vs, st). set_top (Array vs) st)"

text \<open>
  \<open>Document::Parse\<close> on a new document: the value and the parse error. A document whose text could
  not be parsed stays null.
\<close>

definition Document_Parse ::
  "'d double_ops \<Rightarrow> nat \<Rightarrow> string \<Rightarrow> fault + ('d Value \<times> (ParseErrorCode \<times> string) option)"
where
  "Document_Parse ops n text =
     (case Parse ops document_event n text [] of
        Inr [v] \<Rightarrow> Inr (v, None)
      | Inr _ \<Rightarrow> Inl AssertFail
      | Inl (Stopped e pos) \<Rightarrow> Inr (Null, Some (e, pos))
      | Inl (Crashed f) \<Rightarrow> Inl f
      | Inl OutOfFuel \<Rightarrow> Inl Diverges)"

end
