(* ===== verification/ReaderTotal.thy ===== *)
theory ReaderTotal
  imports RapidReader
begin

text \<open>
  The reader returns on every text: no assertion of the reader, of the tables it uses or of the
  document can fail, the fuel is never used up when it exceeds the length of the text, and a parse
  error is at a position of the text.
\<close>

section \<open>Results that are within a text\<close>

definition good :: "string \<Rightarrow> ('a \<Rightarrow> bool) \<Rightarrow> stop + 'a \<Rightarrow> bool" where
  "good is P x =
     (case x of
        Inl (Stopped e pos) \<Rightarrow> suffix pos is
      | Inl _ \<Rightarrow> False
      | Inr y \<Rightarrow> P y)"

lemma good_simps [simp]:
  "good is P (Inr y) = P y"
  "good is P (Inl (Stopped e pos)) = suffix pos is"
  "good is P (Inl (Crashed f)) = False"
  "good is P (Inl OutOfFuel) = False"
  by (simp_all add: good_def)

lemma good_bind: "good is P x \<Longrightarrow> (\<And>y. P y \<Longrightarrow> good is Q (f y)) \<Longrightarrow> good is Q (bind_fault x f)"
  by (cases x) (auto simp: good_def split: stop.splits)

lemma good_wider: "good is P x \<Longrightarrow> suffix is is' \<Longrightarrow> (\<And>y. P y \<Longrightarrow> Q y) \<Longrightarrow> good is' Q x"
  by (auto simp: good_def split: sum.splits stop.splits intro: suffix_order.trans)

lemma good_Inr: "good is P x \<Longrightarrow> x = Inr y \<Longrightarrow> P y"
  by simp

section \<open>The stream\<close>

lemma suffix_tl [intro]: "suffix (tl is) is"
  by (cases "is") (auto simp: suffix_def)

lemma Peek_Cons: "Peek is = c \<Longrightarrow> c \<noteq> nul \<Longrightarrow> strict_suffix (tl is) is"
  by (cases "is") (auto simp: Peek_def strict_suffix_def suffix_def)

lemma suffix_tl_of: "suffix r is \<Longrightarrow> suffix (tl r) is"
  by (meson suffix_order.trans suffix_tl)

lemma suffix_Skip [intro]: "suffix (SkipWhitespace is) is"
  by (induction "is") (auto simp: suffix_ConsI)

lemma suffix_Skip_of: "suffix r is \<Longrightarrow> suffix (SkipWhitespace r) is"
  by (meson suffix_order.trans suffix_Skip)

lemma Consume_suffix: "Consume c is = (ok, r) \<Longrightarrow> suffix r is"
  by (auto simp: Consume_def split: if_splits)

lemma Consume_all_suffix: "Consume_all cs is = (ok, r) \<Longrightarrow> suffix r is"
proof (induction cs "is" arbitrary: ok rule: Consume_all.induct)
  case (2 c cs "is")
  obtain b s where "Consume c is = (b, s)" by fastforce
  with 2 Consume_suffix[OF this] show ?case by (auto split: if_splits intro: suffix_order.trans)
qed simp

lemma next_suffixes:
  assumes "strict_suffix r is"
  shows "suffix (SkipWhitespace r) is" "strict_suffix (SkipWhitespace (tl (SkipWhitespace r))) is"
proof -
  have "suffix (SkipWhitespace (tl (SkipWhitespace r))) r"
    by (intro suffix_Skip_of suffix_tl_of suffix_order.refl)
  then show "strict_suffix (SkipWhitespace (tl (SkipWhitespace r))) is"
    using assms by (rule suffix_order.le_less_trans)
  show "suffix (SkipWhitespace r) is"
    using assms by (intro suffix_Skip_of) (rule suffix_order.less_imp_le)
qed

lemma suffix_strict: "suffix a b \<Longrightarrow> strict_suffix b c \<Longrightarrow> strict_suffix a c"
  by (rule suffix_order.le_less_trans)

lemma strict_length: "strict_suffix a b \<Longrightarrow> length a < length b"
  by (auto simp: strict_suffix_def suffix_def)

section \<open>Strings\<close>

lemma ParseHex4_suffix: "ParseHex4 n cp is = Some (w, r) \<Longrightarrow> suffix r is"
proof (induction n arbitrary: cp "is")
  case (Suc n)
  from Suc.prems have "suffix r (tl is)"
    by (auto simp: Let_def split: if_splits dest!: Suc.IH)
  then show ?case by (rule suffix_order.trans) blast
qed simp

lemma hex_step:
  assumes "unat (cp :: u32) < 16 ^ k" "k < 7" "m \<le> c" "c - m < 16" "c < 256"
  shows "unat (push_bit 4 cp + of_nat c - of_nat m) < 16 ^ Suc k"
proof -
  have e: "push_bit 4 cp + of_nat c - of_nat m = of_nat (16 * unat cp + (c - m))"
    using assms(3) by (simp add: push_bit_eq_mult of_nat_diff)
  have "16 * unat cp + (c - m) < 16 * 16 ^ k" using assms(1,4) by linarith
  moreover have "(16 :: nat) * 16 ^ k \<le> 16 ^ 7" using assms(2) power_increasing[of "Suc k" 7 "16 :: nat"] by simp
  ultimately have "16 * unat cp + (c - m) < 2 ^ LENGTH(32)" by simp
  then have "unat (of_nat (16 * unat cp + (c - m)) :: u32) = 16 * unat cp + (c - m)"
    by (simp only: unat_of_nat mod_less)
  then show ?thesis unfolding e using \<open>16 * unat cp + (c - m) < 16 * 16 ^ k\<close> by simp
qed

lemma ParseHex4_bound:
  "ParseHex4 n cp is = Some (w, r) \<Longrightarrow> unat cp < 16 ^ k \<Longrightarrow> k + n \<le> 7 \<Longrightarrow> unat w < 16 ^ (k + n)"
proof (induction n arbitrary: cp "is" k)
  case (Suc n)
  obtain m where m: "ParseHex4 n (push_bit 4 cp + of_nat (code_of (Peek is)) - of_nat m) (tl is) = Some (w, r)"
    "m \<le> code_of (Peek is)" "code_of (Peek is) - m < 16"
  proof -
    consider "in_range CHR ''0'' CHR ''9'' (Peek is)"
      | "\<not> in_range CHR ''0'' CHR ''9'' (Peek is)" "in_range CHR ''A'' CHR ''F'' (Peek is)"
      | "\<not> in_range CHR ''0'' CHR ''9'' (Peek is)" "\<not> in_range CHR ''A'' CHR ''F'' (Peek is)"
        "in_range CHR ''a'' CHR ''f'' (Peek is)"
      using Suc.prems(1) by (auto simp: Let_def split: if_splits)
    then show thesis
    proof cases
      case 1
      then show thesis using Suc.prems(1) that[of 48] by (auto simp: Let_def in_range_def code_of_def)
    next
      case 2
      then show thesis using Suc.prems(1) that[of 55] by (auto simp: Let_def in_range_def code_of_def)
    next
      case 3
      then show thesis using Suc.prems(1) that[of 87] by (auto simp: Let_def in_range_def code_of_def)
    qed
  qed
  from Suc.IH[OF m(1) hex_step[OF Suc.prems(2) _ m(2,3)]] Suc.prems(3) show ?case by simp
qed simp

lemma ParseHex4_four: "ParseHex4 4 0 is = Some (w, r) \<Longrightarrow> uint w < 65536 \<and> suffix r is"
proof
  assume h: "ParseHex4 4 0 is = Some (w, r)"
  from ParseHex4_bound[OF h, of 0] have "unat w < 65536" by simp
  moreover have "uint w = int (unat w)" by (rule uint_nat)
  ultimately show "uint w < 65536" by linarith
  show "suffix r is" by (rule ParseHex4_suffix[OF h])
qed

lemma encoded_good: "uint cp < 0x110000 \<Longrightarrow> good is (\<lambda>(bs, r'). r' = r) (encoded cp r)"
proof -
  assume "uint cp < 0x110000"
  then have "\<not> 0x10FFFF < cp" by (simp add: word_less_def)
  then obtain bs where "Encode cp = Inr bs"
    unfolding Encode_def
    by (cases "cp \<le> 0x7F"; cases "cp \<le> 0x7FF"; cases "cp \<le> 0xFFFF"; simp only: if_True if_False; blast)
  then show ?thesis by (simp add: encoded_def)
qed

lemma surrogates:
  assumes "0xD800 \<le> cp" "cp \<le> 0xDBFF" "0xDC00 \<le> cp2" "cp2 \<le> (0xDFFF :: u32)"
  shows "uint ((push_bit 10 (cp - 0xD800) OR (cp2 - 0xDC00)) + 0x10000) < 0x110000"
proof -
  have a: "uint (cp - 0xD800) < 1024" "uint (cp2 - 0xDC00) < 1024"
    using assms by (simp_all add: word_le_def uint_sub_if')
  have "uint (push_bit 10 x) = uint x * 1024" if "uint x < 1024" for x :: u32
    using that by (simp add: push_bit_eq_mult uint_word_ariths)
  then have "uint (push_bit 10 (cp - 0xD800)) = uint (cp - 0xD800) * 1024" using a(1) by blast
  then have "uint (push_bit 10 (cp - 0xD800)) < 2 ^ 20" using a(1) by simp
  then have o: "uint (push_bit 10 (cp - 0xD800) OR (cp2 - 0xDC00)) < 2 ^ 20"
    using a(2) OR_upper[of "uint (push_bit 10 (cp - 0xD800))" 20 "uint (cp2 - 0xDC00)"]
    by (simp add: uint_or)
  then show ?thesis by (simp add: uint_plus_if')
qed

lemma ParseUnicode_good:
  assumes "suffix is esc"
  shows "good esc (\<lambda>(bs, r). suffix r is) (ParseUnicode esc is)"
proof (cases "ParseHex4 4 0 is")
  case None
  then show ?thesis by (simp add: ParseUnicode_def)
next
  case (Some p)
  obtain cp r where p: "p = (cp, r)" by fastforce
  with Some have cp: "uint cp < 65536" "suffix r is" using ParseHex4_four by auto
  show ?thesis
  proof (cases "0xD800 \<le> cp \<and> cp \<le> 0xDBFF")
    case False
    then have "ParseUnicode esc is = encoded cp r"
      unfolding ParseUnicode_def Some p by (simp only: option.case prod.case if_not_P if_False)
    then show ?thesis
      using encoded_good[of cp esc r] cp assms by (auto elim!: good_wider intro: suffix_order.trans)
  next
    case True
    obtain ok r2 where c: "Consume_all [backslash, CHR ''u''] r = (ok, r2)" by fastforce
    note r2 = Consume_all_suffix[OF c]
    show ?thesis
    proof (cases "ok \<and> ParseHex4 4 0 r2 \<noteq> None")
      case False
      then show ?thesis
        using Some p True c by (auto simp: ParseUnicode_def split: option.split simp del: Consume_all.simps)
    next
      case ok: True
      then obtain cp2 r3 where h: "ParseHex4 4 0 r2 = Some (cp2, r3)" by auto
      then have r3: "suffix r3 is" using ParseHex4_four r2 cp(2) by (blast intro: suffix_order.trans)
      have "ParseUnicode esc is =
          (if cp2 < 0xDC00 \<or> 0xDFFF < cp2 then Inl (Stopped kParseErrorStringUnicodeSurrogateInvalid esc)
           else encoded ((push_bit 10 (cp - 0xD800) OR (cp2 - 0xDC00)) + 0x10000) r3)"
        using Some p True c ok h by (simp add: ParseUnicode_def del: Consume_all.simps)
      then show ?thesis
        using encoded_good[OF surrogates[of cp cp2], of esc r3] True r3
        by (auto simp: not_less elim!: good_wider)
    qed
  qed
qed


lemma good_map: "good is P (map_sum id f x) = good is (P \<circ> f) x"
  by (cases x) (auto simp: good_def)

lemma string_turn_good: "good is (\<lambda>(x, r). strict_suffix r is) (string_turn is)"
proof (cases "is")
  case Nil
  then show ?thesis by (simp add: string_turn_def Peek_def nul_def backslash_def quote_char_def code_of_def)
next
  case (Cons c s)
  have "good (c # s) (\<lambda>(bs, r). suffix r (tl s)) (ParseUnicode (c # s) (tl s))"
    by (rule ParseUnicode_good) (meson suffix_ConsI suffix_tl suffix_order.trans)
  moreover have "strict_suffix r (c # s)" if "suffix r s" for r
    using that by (auto simp: strict_suffix_def suffix_def)
  moreover have "suffix r s" if "suffix r (tl s)" for r
    using that by (meson suffix_tl suffix_order.trans)
  ultimately show ?thesis
    unfolding Cons by (auto simp: string_turn_def Let_def Peek_def good_map suffix_tl split: option.split elim!: good_wider)
qed

lemma ParseStringToStream_good: "good is (\<lambda>(t, r). strict_suffix r is) (ParseStringToStream is)"
proof (induction "is" rule: ParseStringToStream.induct)
  case (1 "is")
  show ?case
  proof (cases "string_turn is")
    case (Inl e)
    then show ?thesis using string_turn_good[of "is"]
      by (subst ParseStringToStream.simps) (cases e; simp)
  next
    case (Inr y)
    obtain x r where y: "y = (x, r)" by fastforce
    have r: "strict_suffix r is" using string_turn_good[of "is"] Inr y by simp
    show ?thesis
    proof (cases x)
      case None
      then show ?thesis using Inr y r by (subst ParseStringToStream.simps) simp
    next
      case (Some bs)
      have "good is (\<lambda>(t, r). strict_suffix r is) (ParseStringToStream r)"
        by (rule good_wider[OF 1[OF Inr y[symmetric] Some]])
          (use r in \<open>auto intro: suffix_order.less_imp_le suffix_order.less_trans\<close>)
      then show ?thesis
        using Inr y Some by (subst ParseStringToStream.simps) (auto simp: good_def split: sum.splits)
    qed
  qed
qed

section \<open>Numbers\<close>

lemma scan_digits_suffix: "scan_digits limit final i k is = (big, i', k', r) \<Longrightarrow> suffix r is"
  by (induction limit final i k "is" rule: scan_digits.induct) (auto split: if_splits intro: suffix_ConsI)

lemma big_digits_suffix: "big_digits ops d is = (d', r) \<Longrightarrow> suffix r is"
  by (induction ops d "is" rule: big_digits.induct) (auto split: if_splits intro: suffix_ConsI)

lemma frac_whole_suffix: "frac_whole m e k is = (m', e', k', r) \<Longrightarrow> suffix r is \<and> e' \<le> e"
  by (induction m e k "is" rule: frac_whole.induct) (fastforce simp: Let_def split: if_splits intro: suffix_ConsI)+

lemma frac_double_suffix: "frac_double ops d e k is = (d', e', k', r) \<Longrightarrow> suffix r is \<and> e' \<le> e"
  by (induction ops d e k "is" rule: frac_double.induct) (fastforce simp: Let_def split: if_splits intro: suffix_ConsI)+

lemma exp_down_suffix: "exp_down m e is = (e', r) \<Longrightarrow> 0 \<le> e \<Longrightarrow> suffix r is \<and> 0 \<le> e'"
  by (induction m e "is" rule: exp_down.induct)
    (fastforce simp: Let_def split: if_splits intro: suffix_ConsI suffix_dropWhile)+

lemma exp_up_suffix: "exp_up m e is = Some (e', r) \<Longrightarrow> e \<le> m \<Longrightarrow> suffix r is \<and> e' \<le> m"
  by (induction m e "is" rule: exp_up.induct) (fastforce simp: Let_def split: if_splits intro: suffix_ConsI)+

lemma num_int_good: "good is (\<lambda>(n, r). strict_suffix r is \<and> expFrac n = 0) (num_int ops neg is)"
proof -
  have "strict_suffix (tl is) is" if "Peek is = CHR ''0'' \<or> in_range CHR ''1'' CHR ''9'' (Peek is)"
    using that by (intro Peek_Cons[OF refl]) (auto simp: nul_def in_range_def code_of_def)
  then show ?thesis
    by (auto simp: num_int_def new_num_def Let_def split: prod.split
        intro: suffix_strict dest: scan_digits_suffix)
qed

lemma num_int64_suffix: "num_int64 ops neg n is = (n', r) \<Longrightarrow> suffix r is \<and> expFrac n' = expFrac n"
  by (auto simp: num_int64_def Let_def split: if_splits prod.splits
      dest!: scan_digits_suffix big_digits_suffix intro: suffix_order.trans)

lemma num_frac_good:
  assumes "expFrac n \<le> 0"
  shows "good is (\<lambda>(n', r). suffix r is \<and> expFrac n' \<le> 0) (num_frac ops n is)"
  using assms
  by (auto simp: num_frac_def split: prod.split if_splits
      dest!: Consume_suffix frac_whole_suffix frac_double_suffix intro: suffix_order.trans)

lemma digit_of_digit: "is_dec_digit c \<Longrightarrow> digit_of c \<le> 9"
  by (auto simp: is_dec_digit_def in_range_def digit_of_def code_of_def)

lemma num_exp_good:
  assumes "expFrac n \<le> 0" "suffix is start"
  shows "good start (\<lambda>(e, n', r). suffix r is \<and> e + expFrac n' \<le> 308) (num_exp ops start n is)"
proof -
  let ?m = "if useDouble n then n else n\<lparr>num_d := d_of ops (num_whole n), useDouble := True\<rparr>"
  have m: "expFrac ?m = expFrac n" by simp
  obtain minus r where r: "(if Peek (tl is) = CHR ''+'' then (False, tl (tl is)) else Consume CHR ''-'' (tl is)) = (minus, r)"
    by fastforce
  then have s: "suffix r is"
    using Consume_suffix[of "CHR ''-''" "tl is" minus r] suffix_tl[of "is"] suffix_tl[of "tl is"]
    by (auto split: if_splits intro: suffix_order.trans)
  let ?e = "int (digit_of (Peek r))"
  show ?thesis
  proof (cases "Peek is = CHR ''e'' \<or> Peek is = CHR ''E''")
    case False
    then show ?thesis using assms by (simp add: num_exp_def)
  next
    case True
    show ?thesis
    proof (cases "is_dec_digit (Peek r)")
      case False
      then show ?thesis
        using True r s assms(2) by (auto simp: num_exp_def Let_def intro: suffix_order.trans)
    next
      case d: True
      have e: "0 \<le> ?e" "?e \<le> 308 - expFrac ?m" using digit_of_digit[OF d] assms(1) by auto
      have t: "suffix q is" if "suffix q (tl r)" for q
        using that s suffix_tl by (blast intro: suffix_order.trans)
      have "num_exp ops start n is =
          (if minus then
             (case exp_down ((expFrac ?m + 2147483639) div 10) ?e (tl r) of (e, q) \<Rightarrow> Inr (- e, ?m, q))
           else
             (case exp_up (308 - expFrac ?m) ?e (tl r) of
                None \<Rightarrow> Inl (Stopped kParseErrorNumberTooBig start)
              | Some (e, q) \<Rightarrow> Inr (e, ?m, q)))"
        using True r d assms(1) by (simp add: num_exp_def Let_def)
      then show ?thesis
        using e m assms(1)
        by (auto split: prod.split option.split dest!: exp_down_suffix exp_up_suffix intro: t)
    qed
  qed
qed

definition scalar :: "'d event \<Rightarrow> bool" where
  "scalar e \<longleftrightarrow> (\<forall>k n. e \<notin> {StartObject, KeyE k, EndObject n, StartArray, EndArray n})"

lemma FastPath_bound: "p \<le> 308 \<Longrightarrow> \<exists>d'. FastPath ops d p = Inr d'"
  by (auto simp: FastPath_def Pow10_def)

lemma StrtodNormalPrecision_bound:
  assumes "p \<le> 308" shows "\<exists>d'. StrtodNormalPrecision ops d p = Inr d'"
proof (cases "p < - 308")
  case True
  obtain d' where "FastPath ops d (- 308) = Inr d'" using FastPath_bound[of "- 308" ops d] by auto
  then show ?thesis using True FastPath_bound[of "p + 308"] by (simp add: StrtodNormalPrecision_def)
next
  case False
  then show ?thesis using FastPath_bound[OF assms] by (simp add: StrtodNormalPrecision_def)
qed

lemma num_event_good: "e + expFrac n \<le> 308 \<Longrightarrow> good start scalar (num_event ops neg start e n)"
  using StrtodNormalPrecision_bound[of "e + expFrac n" ops "num_d n"]
  by (auto simp: num_event_def scalar_def)


section \<open>Fuel is no limit\<close>

text \<open>\<open>y\<close> is what \<open>x\<close> is, once there is more fuel.\<close>

definition refuels :: "stop + 'a \<Rightarrow> stop + 'a \<Rightarrow> bool" where
  "refuels x y \<longleftrightarrow> x = Inl OutOfFuel \<or> y = x"

lemma refuels_same [simp]: "refuels x x" "refuels (Inl OutOfFuel) y"
  by (simp_all add: refuels_def)

lemma refuels_bind:
  "refuels x y \<Longrightarrow> (\<And>z. refuels (f z) (g z)) \<Longrightarrow> refuels (bind_fault x f) (bind_fault y g)"
  by (cases x) (auto simp: refuels_def)

lemma refuels_trans: "refuels x y \<Longrightarrow> refuels y z \<Longrightarrow> refuels x z"
  by (auto simp: refuels_def)

lemma values_refuel:
  "refuels (ParseValue ops handle n is s) (ParseValue ops handle (Suc n) is s)"
  "refuels (object_members ops handle n k is s) (object_members ops handle (Suc n) k is s)"
  "refuels (array_elements ops handle n k is s) (array_elements ops handle (Suc n) k is s)"
proof (induction n arbitrary: k "is" s)
  case (Suc n)
  {
    case 1
    show ?case
      by (subst (1 2) ParseValue.simps(2))
        (auto simp only: Let_def refuels_same split: if_split prod.split intro!: refuels_bind Suc)
  next
    case 2
    show ?case
      by (subst (1 2) object_members.simps(2))
        (auto simp only: Let_def refuels_same split: if_split prod.split intro!: refuels_bind Suc)
  next
    case 3
    show ?case
      by (subst (1 2) array_elements.simps(2))
        (auto simp only: Let_def refuels_same split: if_split prod.split intro!: refuels_bind Suc)
  }
qed simp_all

lemma value_refuels: "n \<le> m \<Longrightarrow> refuels (ParseValue ops handle n is s) (ParseValue ops handle m is s)"
proof (induction m)
  case (Suc m)
  then show ?case
    by (cases "n = Suc m") (auto simp del: ParseValue.simps intro: refuels_trans[OF _ values_refuel(1)])
qed simp

lemma parse_refuels:
  assumes "n \<le> m" shows "refuels (Parse ops handle n is s) (Parse ops handle m is s)"
  using value_refuels[OF assms] by (auto simp: Parse_def Let_def intro!: refuels_bind split: prod.split)

section \<open>Handlers\<close>

text \<open>
  What the reader relies on when it calls a handler: the handler accepts a scalar or the start of an
  object or array whenever a value may come (\<open>ready\<close>), and once the value is complete it is
  \<open>added\<close> to the state in front of it. \<open>in_object k s0 s\<close> is a state after \<open>k\<close> members of an
  object that began at \<open>s0\<close>, \<open>named k s0 s\<close> one after the name of the next member, and
  \<open>in_array k s0 s\<close> one after \<open>k\<close> elements of an array.
\<close>

locale value_handler =
  fixes handle :: "('d, 's) handler"
    and ready :: "'s \<Rightarrow> bool"
    and added :: "'s \<Rightarrow> 's \<Rightarrow> bool"
    and in_object :: "nat \<Rightarrow> 's \<Rightarrow> 's \<Rightarrow> bool"
    and named :: "nat \<Rightarrow> 's \<Rightarrow> 's \<Rightarrow> bool"
    and in_array :: "nat \<Rightarrow> 's \<Rightarrow> 's \<Rightarrow> bool"
  assumes scalar: "ready s \<Longrightarrow> scalar e \<Longrightarrow> \<exists>s'. handle e s = Inr (True, s') \<and> added s s'"
    and start_object: "ready s \<Longrightarrow> \<exists>s'. handle StartObject s = Inr (True, s') \<and> in_object 0 s s'"
    and start_array: "ready s \<Longrightarrow> \<exists>s'. handle StartArray s = Inr (True, s') \<and> in_array 0 s s'"
    and key: "in_object k s0 s \<Longrightarrow> \<exists>s'. handle (KeyE t) s = Inr (True, s') \<and> named k s0 s'"
    and member_ready: "named k s0 s \<Longrightarrow> ready s"
    and member_added: "named k s0 s \<Longrightarrow> added s s' \<Longrightarrow> in_object (Suc k) s0 s'"
    and element_ready: "in_array k s0 s \<Longrightarrow> ready s"
    and element_added: "in_array k s0 s \<Longrightarrow> added s s' \<Longrightarrow> in_array (Suc k) s0 s'"
    and end_object: "in_object k s0 s \<Longrightarrow> \<exists>s'. handle (EndObject k) s = Inr (True, s') \<and> added s0 s'"
    and end_array: "in_array k s0 s \<Longrightarrow> \<exists>s'. handle (EndArray k) s = Inr (True, s') \<and> added s0 s'"
begin

lemma emitted:
  assumes "\<exists>s'. handle e s = Inr (True, s') \<and> Q s'" "\<And>s'. Q s' \<Longrightarrow> good is P (f s')"
  shows "good is P (bind_fault (emit handle e pos s) f)"
  using assms by (auto simp: emit_def)

lemma literal_good:
  assumes "ready s" "Peek is = c" "c \<noteq> nul" "scalar e"
  shows "good is (\<lambda>(r, s'). strict_suffix r is \<and> added s s') (ParseLiteral c cs e handle is s)"
proof -
  obtain ok r where c: "Consume_all cs (tl is) = (ok, r)" by fastforce
  then have "strict_suffix r is" using Consume_all_suffix Peek_Cons assms(2,3) suffix_strict by blast
  then show ?thesis
    using assms scalar[OF assms(1,4)] c by (auto simp: ParseLiteral_def emit_def suffix_order.less_imp_le)
qed

lemma string_good:
  assumes "\<And>t. \<exists>s'. handle (if isKey then KeyE t else StringE t) s = Inr (True, s') \<and> Q s'"
    and "Peek is = quote_char"
  shows "good is (\<lambda>(r, s'). strict_suffix r is \<and> Q s') (ParseString handle isKey is s)"
proof -
  have tl: "strict_suffix (tl is) is" using Peek_Cons[OF assms(2)] by (simp add: quote_char_def nul_def)
  then have "suffix (tl is) is" by (rule suffix_order.less_imp_le)
  from good_wider[OF ParseStringToStream_good this, of "\<lambda>(t, r). strict_suffix r is"] tl
  have g: "good is (\<lambda>(t, r). strict_suffix r is) (ParseStringToStream (tl is))"
    by (auto intro: suffix_order.less_trans)
  show ?thesis
  proof (cases "ParseStringToStream (tl is)")
    case (Inl e)
    then show ?thesis using g assms(2) by (cases e) (simp_all add: ParseString_def)
  next
    case (Inr y)
    obtain t r where y: "y = (t, r)" by fastforce
    then show ?thesis
      using g Inr assms(2) assms(1)[of t] by (auto simp: ParseString_def emit_def)
  qed
qed

lemma number_good:
  assumes "ready s"
  shows "good is (\<lambda>(r, s'). strict_suffix r is \<and> added s s') (ParseNumber ops handle is s)"
proof -
  obtain minus r where c: "Consume CHR ''-'' is = (minus, r)" by fastforce
  note r = Consume_suffix[OF c]
  have "good is (\<lambda>(n, q). strict_suffix q is \<and> expFrac n = 0) (num_int ops minus r)"
    by (rule good_wider[OF num_int_good r]) (use r in \<open>auto intro: suffix_order.less_le_trans\<close>)
  then show ?thesis
    unfolding ParseNumber_def c prod.case
  proof (rule good_bind, clarify)
    fix n r assume n: "strict_suffix r is" "expFrac (n :: 'd num_state) = 0"
    obtain n2 r2 where i: "num_int64 ops minus n r = (n2, r2)" by fastforce
    then have r2: "strict_suffix r2 is" "expFrac n2 \<le> 0"
      using num_int64_suffix[OF i] n by (auto intro: suffix_strict)
    have "good is (\<lambda>(n, q). strict_suffix q is \<and> expFrac n \<le> 0) (num_frac ops n2 r2)"
      by (rule good_wider[OF num_frac_good[OF r2(2)]])
        (use r2 in \<open>auto intro: suffix_strict suffix_order.less_imp_le\<close>)
    then show "good is (\<lambda>(r, s'). strict_suffix r is \<and> added s s')
       (case num_int64 ops minus n r of (n, r) \<Rightarrow>
         bind_fault (num_frac ops n r) (\<lambda>(n, r).
         bind_fault (num_exp ops is n r) (\<lambda>(e, n, r).
         bind_fault (num_event ops minus is e n) (\<lambda>ev.
         bind_fault (emit handle ev is s) (\<lambda>s. Inr (r, s))))))"
      unfolding i prod.case
    proof (rule good_bind, clarify)
      fix n r assume n: "strict_suffix r is" "expFrac (n :: 'd num_state) \<le> 0"
      from num_exp_good[OF n(2) suffix_order.less_imp_le[OF n(1)]]
      show "good is (\<lambda>(r, s'). strict_suffix r is \<and> added s s')
         (bind_fault (num_exp ops is n r) (\<lambda>(e, n, r).
          bind_fault (num_event ops minus is e n) (\<lambda>ev.
          bind_fault (emit handle ev is s) (\<lambda>s. Inr (r, s)))))"
      proof (rule good_bind, clarify)
        fix e n q assume e: "suffix q r" "e + expFrac (n :: 'd num_state) \<le> 308"
        then have "strict_suffix q is" using n(1) by (blast intro: suffix_strict)
        then show "good is (\<lambda>(r, s'). strict_suffix r is \<and> added s s')
           (bind_fault (num_event ops minus is e n) (\<lambda>ev.
            bind_fault (emit handle ev is s) (\<lambda>s. Inr (q, s))))"
          by (intro good_bind[OF num_event_good[OF e(2)]] emitted[OF scalar[OF assms]]) auto
      qed
    qed
  qed
qed

lemma close_good:
  assumes "\<exists>s'. handle e s = Inr (True, s') \<and> added s0 s'" "suffix q is" "Peek q = c" "c \<noteq> nul"
  shows "good is (\<lambda>(r, s'). strict_suffix r is \<and> added s0 s') (close_level handle e q s)"
proof -
  have "strict_suffix (tl q) is" using Peek_Cons[OF assms(3,4)] assms(2) by (rule suffix_order.less_le_trans)
  then show ?thesis unfolding close_level_def by (intro emitted[OF assms(1)]) simp
qed

lemma open_good:
  assumes "\<exists>s'. handle e s = Inr (True, s') \<and> Q s'" "Peek is = c" "c \<noteq> nul"
  shows "good is (\<lambda>(r, s'). strict_suffix r is \<and> Q s') (open_level handle c e is s)"
proof -
  have "good is (\<lambda>(r, s'). strict_suffix r is \<and> Q s')
      (bind_fault (emit handle e (tl is) s) (\<lambda>s. Inr (SkipWhitespace (tl is), s)))"
    by (rule emitted[OF assms(1)]) (auto intro: suffix_strict[OF suffix_Skip] Peek_Cons[OF assms(2,3)])
  then show ?thesis using assms(2) by (simp add: open_level_def)
qed

lemma shorter: "strict_suffix r is \<Longrightarrow> 2 * length is < Suc n \<Longrightarrow> 2 * length r < n"
  "strict_suffix r is \<Longrightarrow> 2 * length is < Suc n \<Longrightarrow> 2 * length r + 1 < n"
  using strict_length[of r "is"] by simp_all

lemma smaller:
  assumes "good r (\<lambda>(q, s'). strict_suffix q r \<and> Q s') x" "strict_suffix r is"
  shows "good is (\<lambda>(q, s'). strict_suffix q is \<and> Q s') x"
  using assms by (auto elim!: good_wider intro: suffix_order.less_imp_le suffix_order.less_trans)

lemma values_good:
  "2 * length is < n \<Longrightarrow> ready s \<Longrightarrow>
     good is (\<lambda>(r, s'). strict_suffix r is \<and> added s s') (ParseValue ops handle n is s)"
  "2 * length is < n \<Longrightarrow> in_object k s0 s \<Longrightarrow>
     good is (\<lambda>(r, s'). strict_suffix r is \<and> added s0 s') (object_members ops handle n k is s)"
  "2 * length is + 1 < n \<Longrightarrow> in_array k s0 s \<Longrightarrow>
     good is (\<lambda>(r, s'). strict_suffix r is \<and> added s0 s') (array_elements ops handle n k is s)"
proof (induction n arbitrary: k "is" s0 s)
  case (Suc n)
  {
    case 1
    note any = scalar[OF 1(2)]
    consider (scalar) "Peek is \<noteq> CHR ''{'' \<and> Peek is \<noteq> CHR ''[''" | (object) "Peek is = CHR ''{''" | (array) "Peek is = CHR ''[''"
      by blast
    then show ?case
    proof cases
      case scalar
      have "good is (\<lambda>(r, s'). strict_suffix r is \<and> added s s') (ParseString handle False is s)"
        if "Peek is = quote_char"
        using that by (intro string_good) (simp_all add: any scalar_def)
      then show ?thesis
        using scalar by (auto simp: Let_def ParseNull_def ParseTrue_def ParseFalse_def nul_def scalar_def
            intro!: literal_good[OF 1(2)] number_good[OF 1(2)])
    next
      case object
      then have "ParseValue ops handle (Suc n) is s =
          bind_fault (open_level handle CHR ''{'' StartObject is s) (\<lambda>(is, s).
             if Peek is = CHR ''}'' then close_level handle (EndObject 0) is s
             else object_members ops handle n 0 is s)"
        by (simp add: quote_char_def)
      also have "good is (\<lambda>(r, s'). strict_suffix r is \<and> added s s') \<dots>"
      proof (rule good_bind[OF open_good[OF start_object[OF 1(2)] object]], simp add: nul_def, clarify)
        fix r s1 assume a: "strict_suffix r is" "in_object 0 s s1"
        show "good is (\<lambda>(r, s'). strict_suffix r is \<and> added s s')
           (if Peek r = CHR ''}'' then close_level handle (EndObject 0) r s1
            else object_members ops handle n 0 r s1)"
          using smaller[OF Suc(2)[OF shorter(1)[OF a(1) 1(1)] a(2)] a(1)]
            close_good[OF end_object[OF a(2)] suffix_order.less_imp_le[OF a(1)]]
          by (simp add: nul_def)
      qed
      finally show ?thesis .
    next
      case array
      then have "ParseValue ops handle (Suc n) is s =
          bind_fault (open_level handle CHR ''['' StartArray is s) (\<lambda>(is, s).
             if Peek is = CHR '']'' then close_level handle (EndArray 0) is s
             else array_elements ops handle n 0 is s)"
        by (simp add: quote_char_def)
      also have "good is (\<lambda>(r, s'). strict_suffix r is \<and> added s s') \<dots>"
      proof (rule good_bind[OF open_good[OF start_array[OF 1(2)] array]], simp add: nul_def, clarify)
        fix r s1 assume a: "strict_suffix r is" "in_array 0 s s1"
        show "good is (\<lambda>(r, s'). strict_suffix r is \<and> added s s')
           (if Peek r = CHR '']'' then close_level handle (EndArray 0) r s1
            else array_elements ops handle n 0 r s1)"
          using smaller[OF Suc(3)[OF shorter(2)[OF a(1) 1(1)] a(2)] a(1)]
            close_good[OF end_array[OF a(2)] suffix_order.less_imp_le[OF a(1)]]
          by (simp add: nul_def)
      qed
      finally show ?thesis .
    qed
  next
    case 2
    show ?case
    proof (cases "Peek is = quote_char")
      case False
      then show ?thesis by simp
    next
      case True
      have "good is (\<lambda>(r, s'). strict_suffix r is \<and> named k s0 s') (ParseString handle True is s)"
        using key[OF 2(2)] True by (intro string_good) simp_all
      then show ?thesis
        unfolding object_members.simps if_not_P[OF iffD2[OF not_not True]]
      proof (rule good_bind, clarify)
        fix r s1 assume r: "strict_suffix r is" "named k s0 s1"
        obtain ok q where q: "Consume CHR '':'' (SkipWhitespace r) = (ok, q)" by fastforce
        then have "strict_suffix q is"
          using r(1) Consume_suffix suffix_Skip by (blast intro: suffix_strict)
        then have q': "suffix q is" "strict_suffix (SkipWhitespace q) is"
          by (auto intro: suffix_order.less_imp_le suffix_strict)
        have "good is (\<lambda>(r, s'). strict_suffix r is \<and> added s1 s') (ParseValue ops handle n (SkipWhitespace q) s1)"
          by (rule smaller[OF Suc(1) q'(2)]) (use q'(2) 2(1) shorter r(2) member_ready in auto)
        then have "good is (\<lambda>(r, s'). strict_suffix r is \<and> in_object (Suc k) s0 s')
            (ParseValue ops handle n (SkipWhitespace q) s1)"
          using member_added[OF r(2)] by (auto elim!: good_wider)
        then have "good is (\<lambda>(r, s'). strict_suffix r is \<and> added s0 s')
           (bind_fault (ParseValue ops handle n (SkipWhitespace q) s1) (\<lambda>(is, s).
              let is = SkipWhitespace is
              in if Peek is = CHR '','' then object_members ops handle n (Suc k) (SkipWhitespace (tl is)) s
                 else if Peek is = CHR ''}'' then close_level handle (EndObject (Suc k)) is s
                 else Inl (Stopped kParseErrorObjectMissCommaOrCurlyBracket is)))"
        proof (rule good_bind, clarify)
          fix r s2 assume a: "strict_suffix r is" "in_object (Suc k) s0 s2"
          note next_text = next_suffixes[OF a(1)]
          show "good is (\<lambda>(r, s'). strict_suffix r is \<and> added s0 s')
             (let is = SkipWhitespace r
              in if Peek is = CHR '','' then object_members ops handle n (Suc k) (SkipWhitespace (tl is)) s2
                 else if Peek is = CHR ''}'' then close_level handle (EndObject (Suc k)) is s2
                 else Inl (Stopped kParseErrorObjectMissCommaOrCurlyBracket is))"
            using smaller[OF Suc(2)[OF shorter(1)[OF next_text(2) 2(1)] a(2)] next_text(2)]
              close_good[OF end_object[OF a(2)] next_text(1)] next_text(1)
            by (simp add: Let_def nul_def)
        qed
        then show "good is (\<lambda>(r, s'). strict_suffix r is \<and> added s0 s')
           (case Consume CHR '':'' (SkipWhitespace r) of (ok, is) \<Rightarrow>
              if \<not> ok then Inl (Stopped kParseErrorObjectMissColon is)
              else bind_fault (ParseValue ops handle n (SkipWhitespace is) s1) (\<lambda>(is, s).
                let is = SkipWhitespace is
                in if Peek is = CHR '','' then object_members ops handle n (Suc k) (SkipWhitespace (tl is)) s
                   else if Peek is = CHR ''}'' then close_level handle (EndObject (Suc k)) is s
                   else Inl (Stopped kParseErrorObjectMissCommaOrCurlyBracket is)))"
          unfolding q using q'(1) by simp
      qed
    qed
  next
    case 3
    have first: "good is (\<lambda>(r, s'). strict_suffix r is \<and> in_array (Suc k) s0 s') (ParseValue ops handle n is s)"
      using 3 element_added[OF 3(2)] element_ready[OF 3(2)] by (intro good_wider[OF Suc(1)]) auto
    have less: "2 * length is < Suc n" using 3(1) by simp
    show ?case
      unfolding array_elements.simps
    proof (rule good_bind[OF first], clarify)
      fix r s2 assume a: "strict_suffix r is" "in_array (Suc k) s0 s2"
      note next_text = next_suffixes[OF a(1)]
      show "good is (\<lambda>(r, s'). strict_suffix r is \<and> added s0 s')
         (let is = SkipWhitespace r
          in if Peek is = CHR '','' then array_elements ops handle n (Suc k) (SkipWhitespace (tl is)) s2
             else if Peek is = CHR '']'' then close_level handle (EndArray (Suc k)) is s2
             else Inl (Stopped kParseErrorArrayMissCommaOrSquareBracket is))"
        using smaller[OF Suc(3)[OF shorter(2)[OF next_text(2) less] a(2)] next_text(2)]
          close_good[OF end_array[OF a(2)] next_text(1)] next_text(1)
        by (simp add: Let_def nul_def)
    qed
  }
qed simp_all

lemma parse_good:
  assumes "2 * length text < n" "ready s"
  shows "good text (added s) (Parse ops handle n text s)"
proof (cases "Peek (SkipWhitespace text) = nul")
  case True
  then show ?thesis by (auto simp: Parse_def Let_def)
next
  case False
  have sk: "suffix (SkipWhitespace text) text" by blast
  then have "2 * length (SkipWhitespace text) < n" using assms(1) suffix_length_le by fastforce
  note vals = values_good(1)[OF this assms(2)]
  have "good text (\<lambda>(r, s'). suffix r text \<and> added s s') (ParseValue ops handle n (SkipWhitespace text) s)"
    by (rule good_wider[OF vals sk]) (use sk in \<open>auto dest!: suffix_order.less_imp_le intro: suffix_order.trans\<close>)
  then show ?thesis
    using False unfolding Parse_def Let_def
    by (simp, elim good_bind) (auto intro: suffix_Skip_of)
qed

end

section \<open>The document never fails\<close>

definition member_values :: "(string \<times> 'd Value) list \<Rightarrow> 'd Value list" where
  "member_values ms = concat (map (\<lambda>(k, v). [String k, v]) ms)"

lemma member_values_simps [simp]:
  "member_values [] = []" "member_values ((k, v) # ms) = String k # v # member_values ms"
  "member_values (ms @ ms') = member_values ms @ member_values ms'"
  by (simp_all add: member_values_def)

lemma as_members_values [simp]: "as_members (member_values ms) = Inr ms"
proof (induction ms)
  case (Cons m ms)
  then show ?case by (cases m) simp
qed simp

lemma length_member_values [simp]: "length (member_values ms) = 2 * length ms"
proof (induction ms)
  case (Cons m ms)
  then show ?case by (cases m) simp
qed simp

definition doc_added :: "'d Value list \<Rightarrow> 'd Value list \<Rightarrow> bool" where
  "doc_added st st' \<longleftrightarrow> (\<exists>v. st' = v # st)"

definition doc_object :: "nat \<Rightarrow> 'd Value list \<Rightarrow> 'd Value list \<Rightarrow> bool" where
  "doc_object k st st' \<longleftrightarrow> (\<exists>ms x. length ms = k \<and> st' = rev (member_values ms) @ Object x # st)"

definition doc_named :: "nat \<Rightarrow> 'd Value list \<Rightarrow> 'd Value list \<Rightarrow> bool" where
  "doc_named k st st' \<longleftrightarrow> (\<exists>t s. st' = String t # s \<and> doc_object k st s)"

definition doc_array :: "nat \<Rightarrow> 'd Value list \<Rightarrow> 'd Value list \<Rightarrow> bool" where
  "doc_array k st st' \<longleftrightarrow> (\<exists>vs x. length vs = k \<and> st' = rev vs @ Array x # st)"

lemma end_of_object:
  "document_event (EndObject (length ms)) (rev (member_values ms) @ Object x # st) = Inr (True, Object ms # st)"
  by (simp add: Pop_def)

lemma end_of_array:
  "document_event (EndArray (length vs)) (rev vs @ Array x # st) = Inr (True, Array vs # st)"
  by (simp add: Pop_def)

interpretation doc: value_handler document_event "\<lambda>_. True" doc_added doc_object doc_named doc_array
proof
  fix k and s0 s s' :: "'a Value list" and e :: "'a event" and t
  show "\<exists>s'. document_event e s = Inr (True, s') \<and> doc_added s s'" if "scalar e"
    using that by (cases e) (auto simp: scalar_def push_value_def doc_added_def)
  show "\<exists>s'. document_event StartObject s = Inr (True, s') \<and> doc_object 0 s s'"
    by (auto simp: push_value_def doc_object_def)
  show "\<exists>s'. document_event StartArray s = Inr (True, s') \<and> doc_array 0 s s'"
    by (auto simp: push_value_def doc_array_def)
  show "\<exists>s'. document_event (KeyE t) s = Inr (True, s') \<and> doc_named k s0 s'" if "doc_object k s0 s"
    using that by (auto simp: push_value_def doc_named_def)
  show "doc_object (Suc k) s0 s'" if "doc_named k s0 s" "doc_added s s'"
  proof -
    from that obtain ms x u v where "length ms = k" "s' = v # String u # rev (member_values ms) @ Object x # s0"
      by (auto simp: doc_named_def doc_object_def doc_added_def)
    then have "length (ms @ [(u, v)]) = Suc k \<and> s' = rev (member_values (ms @ [(u, v)])) @ Object x # s0" by simp
    then show ?thesis unfolding doc_object_def by blast
  qed
  show "doc_array (Suc k) s0 s'" if "doc_array k s0 s" "doc_added s s'"
  proof -
    from that obtain vs x v where "length vs = k" "s' = v # rev vs @ Array x # s0"
      by (auto simp: doc_array_def doc_added_def)
    then have "length (vs @ [v]) = Suc k \<and> s' = rev (vs @ [v]) @ Array x # s0" by simp
    then show ?thesis unfolding doc_array_def by blast
  qed
  show "\<exists>s'. document_event (EndObject k) s = Inr (True, s') \<and> doc_added s0 s'" if "doc_object k s0 s"
    using that end_of_object by (fastforce simp: doc_object_def doc_added_def simp del: document_event.simps)
  show "\<exists>s'. document_event (EndArray k) s = Inr (True, s') \<and> doc_added s0 s'" if "doc_array k s0 s"
    using that end_of_array by (fastforce simp: doc_array_def doc_added_def simp del: document_event.simps)
qed auto

text \<open>
  C23. The reader returns on every text. With more fuel than twice the length of the text,
  \<open>Document::Parse\<close> ends with a value or with a parse error at a position of the text: no input
  reaches an assertion of the reader, of the UTF-8 encoder, of the table of powers of ten or of the
  document's stack, and none makes a loop run forever. More fuel never changes the result.
\<close>
theorem reader_total:
  assumes "2 * length text < n" "n \<le> m"
  shows "Document_Parse ops m text = Document_Parse ops n text \<and>
    ((\<exists>v. Document_Parse ops n text = Inr (v, None)) \<or>
     (\<exists>e pos. Document_Parse ops n text = Inr (Null, Some (e, pos)) \<and> suffix pos text))"
proof -
  have fuel: "refuels (Parse ops document_event n text []) (Parse ops document_event m text [])"
    using assms(2) by (rule parse_refuels)
  have "good text (doc_added []) (Parse ops document_event n text [])"
    using assms(1) by (rule doc.parse_good) simp
  with fuel show ?thesis
    by (auto simp: refuels_def good_def Document_Parse_def doc_added_def split: sum.splits stop.splits)
qed

text \<open>A toy arithmetic, whole numbers only.\<close>

definition int_ops :: "int double_ops" where
  "int_ops =
     \<lparr>d_of = uint, d_add = (+), d_mul = (*), d_div = (div), d_pow10 = (\<lambda>n. 10 ^ n), d_zero = 0,
      d_positive = (\<lambda>d. 0 < d), d_too_big = (\<lambda>d. 10 ^ 308 < d), d_neg = uminus\<rparr>"

lemma trailing_comma: "Document_Parse int_ops 9 ''[1,]'' = Inr (Null, Some (kParseErrorValueInvalid, '']''))"
  by code_simp

theorem reader_total_witness:
  "Document_Parse int_ops 100 ''[1,]'' = Inr (Null, Some (kParseErrorValueInvalid, '']''))"
  using reader_total[of "''[1,]''" 9 100 int_ops] by (simp add: trailing_comma)

end
