(* ===== verification/RapidText.thy ===== *)
theory RapidText
  imports ReaderTotal
begin

text \<open>
  What RapidJSON's writer writes, its reader reads back: for every value whose numbers come from the
  constructors and whose doubles survive their own text.
\<close>

section \<open>Integers\<close>

text \<open>What may stand behind a value.\<close>

definition delimited :: "string \<Rightarrow> bool" where
  "delimited rest \<longleftrightarrow> rest = [] \<or> hd rest \<in> {CHR '','', CHR '']'', CHR ''}''}"

lemma delimited_cases:
  assumes "delimited rest"
  obtains "rest = []" | c s where "rest = c # s" "c \<in> {CHR '','', CHR '']'', CHR ''}''}"
  using assms by (cases rest) (auto simp: delimited_def)

lemma delimited_no_digit: "delimited rest \<Longrightarrow> \<not> is_dec_digit (Peek rest)"
  by (erule delimited_cases) (auto simp: Peek_def nul_def is_dec_digit_def in_range_def code_of_def)

lemma digit_of_value: "is_dec_digit c \<Longrightarrow> digit_of c = digit_value c"
  by (simp add: digit_of_def digit_value_def)

lemma digits_value_mono: "a \<le> digits_value 10 a ds"
proof (induction ds arbitrary: a)
  case (Cons c ds)
  have "a \<le> a * 10 + digit_value c" by simp
  also have "\<dots> \<le> digits_value 10 (a * 10 + digit_value c) ds" by (rule Cons)
  finally show ?case by simp
qed simp

lemma scan_digits_spec:
  fixes limit i :: "'w::len word"
  assumes L: "unat limit = L" "10 * L + F < 2 ^ LENGTH('w)" and F: "digit_of final = F" "is_dec_digit final"
    and "\<forall>c \<in> set ds. is_dec_digit c" "\<not> is_dec_digit (Peek rest)" "a \<le> 10 * L + F"
  shows "if digits_value 10 a ds \<le> 10 * L + F
    then scan_digits limit final (of_nat a) k (ds @ rest) = (False, of_nat (digits_value 10 a ds), k + length ds, rest)
    else \<exists>ds1 ds2. ds = ds1 @ ds2 \<and> digits_value 10 a ds1 \<le> 10 * L + F \<and>
      scan_digits limit final (of_nat a) k (ds @ rest) = (True, of_nat (digits_value 10 a ds1), k + length ds1, ds2 @ rest)"
  using assms(5-)
proof (induction ds arbitrary: a k)
  case Nil
  then show ?case by (cases rest) (auto simp: Peek_def)
next
  case (Cons c ds)
  let ?x = "digit_of c"
  have x: "is_dec_digit c" "?x = digit_value c" "?x \<le> 9" "F \<le> 9"
    using Cons.prems(1) digit_of_value[of c] digit_of_digit[of c] digit_of_digit[of final] F by auto
  have a: "a < 2 ^ LENGTH('w)" using Cons.prems(3) L(2) by simp
  then have u: "unat (of_nat a :: 'w word) = a" by (simp only: unat_of_nat mod_less)
  have lt: "code_of final < code_of c \<longleftrightarrow> F < ?x"
    using F x(1) dec_digit_range[of c] dec_digit_range[of final] by (auto simp: digit_of_def)
  have "limit \<le> of_nat a \<longleftrightarrow> L \<le> a" "of_nat a = limit \<longleftrightarrow> a = L"
    using u L(1) by (auto simp: word_le_nat_alt word_unat_eq_iff)
  then have guard: "limit \<le> of_nat a \<and> (of_nat a \<noteq> limit \<or> code_of final < code_of c) \<longleftrightarrow> 10 * L + F < 10 * a + ?x"
    using x lt by auto
  show ?case
  proof (cases "10 * L + F < 10 * a + ?x")
    case True
    moreover have "10 * a + ?x \<le> digits_value 10 a (c # ds)"
      using digits_value_mono[of "a * 10 + ?x" ds] x digit_value_less[of c] by simp
    ultimately have "\<not> digits_value 10 a (c # ds) \<le> 10 * L + F" by simp
    moreover have "scan_digits limit final (of_nat a) k ((c # ds) @ rest) = (True, of_nat a, k, (c # ds) @ rest)"
      using x(1) guard True by simp
    ultimately show ?thesis
      using Cons.prems(3) by (simp only: if_False) (rule exI[of _ "[]"], simp)
  next
    case False
    have e: "of_nat a * 10 + of_nat ?x = (of_nat (a * 10 + ?x) :: 'w word)" by simp
    have d: "digits_value 10 a (c # ds) = digits_value 10 (a * 10 + ?x) ds"
      using x digit_value_less[of c] by simp
    have s: "scan_digits limit final (of_nat a) k ((c # ds) @ rest) =
        scan_digits limit final (of_nat (a * 10 + ?x)) (Suc k) (ds @ rest)"
    proof -
      have "\<not> (limit \<le> of_nat a \<and> (of_nat a \<noteq> limit \<or> code_of final < code_of c))"
        using guard False by blast
      then show ?thesis
        by (simp only: append_Cons scan_digits.simps x(1) not_True_eq_False if_False e)
    qed
    have IH: "if digits_value 10 (a * 10 + ?x) ds \<le> 10 * L + F
      then scan_digits limit final (of_nat (a * 10 + ?x)) (Suc k) (ds @ rest) =
        (False, of_nat (digits_value 10 (a * 10 + ?x) ds), Suc k + length ds, rest)
      else \<exists>ds1 ds2. ds = ds1 @ ds2 \<and> digits_value 10 (a * 10 + ?x) ds1 \<le> 10 * L + F \<and>
        scan_digits limit final (of_nat (a * 10 + ?x)) (Suc k) (ds @ rest) =
          (True, of_nat (digits_value 10 (a * 10 + ?x) ds1), Suc k + length ds1, ds2 @ rest)"
      using Cons.prems False by (intro Cons.IH) auto
    show ?thesis
    proof (cases "digits_value 10 (a * 10 + ?x) ds \<le> 10 * L + F")
      case True
      then show ?thesis using IH unfolding d s by simp
    next
      case False
      then obtain ds1 ds2 where "ds = ds1 @ ds2" "digits_value 10 (a * 10 + ?x) ds1 \<le> 10 * L + F"
        "scan_digits limit final (of_nat (a * 10 + ?x)) (Suc k) (ds @ rest) =
          (True, of_nat (digits_value 10 (a * 10 + ?x) ds1), Suc k + length ds1, ds2 @ rest)"
        using IH by auto
      moreover have "digits_value 10 a (c # ds1) = digits_value 10 (a * 10 + ?x) ds1"
        using x digit_value_less[of c] by simp
      ultimately show ?thesis
        using False unfolding d s by (simp only: if_False) (rule exI[of _ "c # ds1"], rule exI[of _ ds2], simp)
    qed
  qed
qed


text \<open>The integer part of \<open>ParseNumber\<close>, read from the decimal text of a number in range.\<close>

definition most32 :: "bool \<Rightarrow> nat" where "most32 neg = (if neg then 2 ^ 31 else 2 ^ 32 - 1)"
definition most64 :: "bool \<Rightarrow> nat" where "most64 neg = (if neg then 2 ^ 63 else 2 ^ 64 - 1)"

lemma read_int:
  assumes "m \<le> most64 neg" "delimited rest"
  shows "\<exists>n r. num_int ops neg (dec m @ rest) = Inr (n, r) \<and>
    (\<exists>n'. num_int64 ops neg n r = (n', rest) \<and> \<not> useDouble n' \<and> expFrac n' = 0 \<and>
      (if m \<le> most32 neg then \<not> use64bit n' \<and> num_i n' = of_nat m else use64bit n' \<and> num_i64 n' = of_nat m))"
proof (cases "m = 0")
  case True
  moreover have "digit_char 0 = CHR ''0''" by code_simp
  ultimately have "dec m = ''0''" by (subst dec.simps) simp
  then show ?thesis
    using True by (simp add: num_int_def Peek_def new_num_def num_int64_def most32_def)
next
  case False
  obtain c ds where d: "dec m = c # ds" by (cases "dec m") auto
  then have digits: "is_dec_digit c" "\<forall>c \<in> set ds. is_dec_digit c" "c \<noteq> CHR ''0''"
    using dec_digits[of m] dec_first[of m] False by auto
  have "code_of CHR ''0'' = 48" "code_of CHR ''1'' = 49" "code_of CHR ''9'' = 57" by code_simp+
  moreover have "code_of c \<noteq> code_of CHR ''0''" using digits(3) by (simp only: code_of_inject) simp
  ultimately have c: "in_range CHR ''1'' CHR ''9'' c" "digit_of c \<le> 9"
    using dec_digit_range[OF digits(1)] by (simp_all only: in_range_def digit_of_def, auto)
  have m: "digits_value 10 (digit_of c) ds = m"
    using digits_value_dec[of m] digits(1) digit_value_less[of c] digit_of_value[of c] unfolding d by simp
  have nd: "\<not> is_dec_digit (Peek rest)" using assms(2) by (rule delimited_no_digit)
  let ?l = "if neg then 214748364 else 429496729 :: u32" and ?f = "if neg then CHR ''8'' else CHR ''5''"
  let ?l64 = "if neg then 0x0CCCCCCCCCCCCCCC else 0x1999999999999999 :: u64"
  have f: "digit_of ?f = (if neg then 8 else 5)" "is_dec_digit ?f"
    by (auto simp: digit_of_def code_of_def is_dec_digit_def in_range_def)
  have l: "unat ?l = (if neg then 214748364 else 429496729)"
    "unat ?l64 = (if neg then 0x0CCCCCCCCCCCCCCC else 0x1999999999999999)" by auto
  have M: "10 * (if neg then 214748364 else 429496729) + (if neg then 8 else 5) = most32 neg"
    "10 * (if neg then 0x0CCCCCCCCCCCCCCC else 0x1999999999999999) + (if neg then 8 else 5) = most64 neg"
    by (simp_all add: most32_def most64_def)
  have less: "most32 neg < 2 ^ LENGTH(32)" "most64 neg < 2 ^ LENGTH(64)" by (simp_all add: most32_def most64_def)
  note scan32 = scan_digits_spec[OF l(1) _ f digits(2) nd, unfolded M, OF less(1)]
  note scan64 = scan_digits_spec[OF l(2) _ f _ nd, unfolded M, OF less(2)]
  have a: "digit_of c \<le> most32 neg" using c(2) by (simp add: most32_def)
  have start: "num_int ops neg (dec m @ rest) =
      (case scan_digits ?l ?f (of_nat (digit_of c)) 0 (ds @ rest) of
         (big, i, k, r) \<Rightarrow> Inr ((new_num ops)\<lparr>num_i := i, num_i64 := (if big then ucast i else 0), use64bit := big,
             significandDigit := k\<rparr>, r))"
    using c(1) digits(3) unfolding d by (simp add: num_int_def Peek_def)
  show ?thesis
  proof (cases "m \<le> most32 neg")
    case True
    then have "scan_digits ?l ?f (of_nat (digit_of c)) 0 (ds @ rest) = (False, of_nat m, length ds, rest)"
      using scan32[OF a, of 0] unfolding m by simp
    then show ?thesis using True unfolding start by (simp add: num_int64_def new_num_def)
  next
    case big: False
    then obtain ds1 ds2 where s: "ds = ds1 @ ds2" "digits_value 10 (digit_of c) ds1 \<le> most32 neg"
      "scan_digits ?l ?f (of_nat (digit_of c)) 0 (ds @ rest) =
        (True, of_nat (digits_value 10 (digit_of c) ds1), length ds1, ds2 @ rest)"
      using scan32[OF a, of 0] unfolding m by auto
    let ?a = "digits_value 10 (digit_of c) ds1"
    have m2: "digits_value 10 ?a ds2 = m"
      using m digits_value_append[of ds1 10 "digit_of c" ds2] digits(2) digit_value_less s(1) by auto
    have a2: "?a \<le> most64 neg" using s(2) by (simp add: most32_def most64_def split: if_splits)
    have "scan_digits ?l64 ?f (of_nat ?a) (length ds1) (ds2 @ rest) = (False, of_nat m, length ds1 + length ds2, rest)"
      using scan64[OF _ a2, of ds2 "length ds1"] digits(2) s(1) assms(1) unfolding m2 by simp
    moreover have "ucast (of_nat ?a :: u32) = (of_nat ?a :: u64)"
    proof -
      have "?a < 2 ^ LENGTH(32)" using s(2) less(1) by simp
      then show ?thesis by (simp add: unsigned_of_nat take_bit_nat_eq_self)
    qed
    ultimately show ?thesis
      using big unfolding start s(3) by (simp add: num_int64_def new_num_def)
  qed
qed

lemma sint_in_range32: "- (2 ^ 31) \<le> n \<Longrightarrow> n < 2 ^ 31 \<Longrightarrow> sint (word_of_int n :: s32) = n"
  by (subst sint_sbintrunc') (auto intro!: signed_take_bit_int_eq_self)

lemma sint_in_range64: "- (2 ^ 63) \<le> n \<Longrightarrow> n < 2 ^ 63 \<Longrightarrow> sint (word_of_int n :: s64) = n"
  by (subst sint_sbintrunc') (auto intro!: signed_take_bit_int_eq_self)

lemma read_number:
  assumes "- (2 ^ 63) \<le> n" "n < 2 ^ 64" "delimited rest"
  shows "ParseNumber ops document_event (dec_int n @ rest) st = Inr (rest, number n # st)"
proof -
  let ?neg = "n < 0" and ?m = "nat \<bar>n\<bar>"
  have m: "?m \<le> most64 ?neg" using assms by (simp add: most64_def) linarith
  obtain x r y where read: "num_int ops ?neg (dec ?m @ rest) = Inr (x, r)" "num_int64 ops ?neg x r = (y, rest)"
    "\<not> useDouble y" "expFrac y = 0"
    "if ?m \<le> most32 ?neg then \<not> use64bit y \<and> num_i y = of_nat ?m else use64bit y \<and> num_i64 y = of_nat ?m"
    using read_int[OF m assms(3), of ops] by blast
  have sign: "Consume CHR ''-'' (dec_int n @ rest) = (?neg, dec ?m @ rest)"
  proof (cases ?neg)
    case False
    then show ?thesis
      using dec_front(2)[of "nat n"] by (cases "dec (nat n)") (auto simp: dec_int_def Consume_def Peek_def)
  qed (simp add: dec_int_def Consume_def Peek_def)
  have no_frac: "num_frac ops y rest = Inr (y, rest)" "num_exp ops start y rest = Inr (0, y, rest)" for start
    using assms(3) by (auto elim!: delimited_cases simp: num_frac_def num_exp_def Consume_def Peek_def nul_def)
  have "\<exists>e. num_event ops ?neg start 0 y = Inr e \<and> document_event e st = Inr (True, number n # st)" for start
  proof (cases "?m \<le> most32 ?neg")
    case True
    then have y: "\<not> use64bit y" "num_i y = of_nat ?m" using read(5) by simp_all
    have "(if ?neg then Value_int (NOT (of_nat ?m) + 1) else Value_unsigned (of_nat ?m) :: 'a Value) = number n"
    proof (cases ?neg)
      case True
      then have "NOT (of_nat ?m) + 1 = (of_int n :: s32)" by (simp add: minus_eq_not_plus_1[symmetric])
      moreover have "- (2 ^ 31) \<le> n \<and> n < 2 ^ 31" using True \<open>?m \<le> most32 ?neg\<close> by (simp add: most32_def)
      ultimately show ?thesis using True by (simp add: constructors_agree sint_in_range32)
    next
      case False
      then have "n < 2 ^ 32" using True by (simp add: most32_def)
      then show ?thesis using False by (simp add: constructors_agree uint_word_of_int of_nat_nat)
    qed
    then show ?thesis
      using y read(3) by (cases ?neg) (auto simp: num_event_def push_value_def)
  next
    case False
    then have y: "use64bit y" "num_i64 y = of_nat ?m" using read(5) by simp_all
    have "(if ?neg then Value_int64 (NOT (of_nat ?m) + 1) else Value_uint64 (of_nat ?m) :: 'a Value) = number n"
    proof (cases ?neg)
      case True
      then have "NOT (of_nat ?m) + 1 = (of_int n :: s64)" by (simp add: minus_eq_not_plus_1[symmetric])
      then show ?thesis using True assms(1,2) by (simp add: constructors_agree sint_in_range64)
    next
      case False
      then show ?thesis using assms(2) by (simp add: constructors_agree uint_word_of_int of_nat_nat)
    qed
    then show ?thesis
      using y read(3) by (cases ?neg) (auto simp: num_event_def push_value_def)
  qed
  then obtain e where e: "num_event ops ?neg (dec_int n @ rest) 0 y = Inr e"
    "document_event e st = Inr (True, number n # st)" by blast
  then show ?thesis
    unfolding ParseNumber_def sign prod.case read(1) bind_fault.simps read(2) no_frac read(4)
    by (simp add: emit_def)
qed


section \<open>Strings\<close>

lemma Peek_append: "Peek is \<noteq> nul \<Longrightarrow> Peek (is @ t) = Peek is \<and> tl (is @ t) = tl is @ t"
  by (cases "is") (auto simp: Peek_def)

lemma ParseHex4_append: "ParseHex4 n cp is = Some (w, r) \<Longrightarrow> ParseHex4 n cp (is @ t) = Some (w, r @ t)"
proof (induction n arbitrary: cp "is")
  case (Suc n)
  then have "Peek is \<noteq> nul" by (auto simp: Let_def nul_def in_range_def code_of_def split: if_splits)
  with Suc show ?case by (auto simp: Let_def Peek_append split: if_splits)
qed simp

text \<open>What \<open>WriteString\<close> does with a control character, and the way back.\<close>

lemma control_table:
  "list_all (\<lambda>k :: nat. case write_escape (char_of k) of
      None \<Rightarrow> False
    | Some e \<Rightarrow>
        if e = CHR ''u'' then
          ParseHex4 4 0 [CHR ''0'', CHR ''0'', hexDigits ! (k div 16), hexDigits ! (k mod 16)] = Some (of_nat k, []) \<and>
          Encode (of_nat k) = Inr [char_of k]
        else read_escape e = Some (char_of k)) [0..<32]"
  by code_simp

lemma control_turn:
  assumes "(k :: nat) < 32"
  shows "string_turn (write_char (char_of k) @ t) = Inr (Some [char_of k], t)"
proof -
  have "case write_escape (char_of k) of
      None \<Rightarrow> False
    | Some e \<Rightarrow>
        if e = CHR ''u'' then
          ParseHex4 4 0 [CHR ''0'', CHR ''0'', hexDigits ! (k div 16), hexDigits ! (k mod 16)] = Some (of_nat k, []) \<and>
          Encode (of_nat k) = Inr [char_of k]
        else read_escape e = Some (char_of k)"
    using control_table assms by (simp only: list_all_iff set_upt atLeastLessThan_iff) simp
  then obtain e where e: "write_escape (char_of k) = Some e"
    "if e = CHR ''u'' then
       ParseHex4 4 0 [CHR ''0'', CHR ''0'', hexDigits ! (k div 16), hexDigits ! (k mod 16)] = Some (of_nat k, []) \<and>
       Encode (of_nat k) = Inr [char_of k]
     else read_escape e = Some (char_of k)"
    by (cases "write_escape (char_of k)") auto
  show ?thesis
  proof (cases "e = CHR ''u''")
    case True
    then have h: "ParseHex4 4 0 ([CHR ''0'', CHR ''0'', hexDigits ! (k div 16), hexDigits ! (k mod 16)] @ t) = Some (of_nat k, [] @ t)"
      "Encode (of_nat k) = Inr [char_of k]"
      using e(2) by (simp_all only: if_True ParseHex4_append)
    have "\<not> (0xD800 \<le> (of_nat k :: u32))" using assms by (simp add: word_le_nat_alt unat_of_nat)
    then have "ParseUnicode esc ([CHR ''0'', CHR ''0'', hexDigits ! (k div 16), hexDigits ! (k mod 16)] @ t) =
        Inr ([char_of k], t)" for esc
      using h by (simp add: ParseUnicode_def encoded_def)
    moreover have "read_escape CHR ''u'' = None" by code_simp
    ultimately show ?thesis
      using True e(1) assms by (simp add: write_char_def string_turn_def Peek_def)
  next
    case False
    then show ?thesis using e by (simp add: write_char_def string_turn_def Peek_def)
  qed
qed

lemma turn_write_char: "string_turn (write_char c @ t) = Inr (Some [c], t)"
proof (cases "code_of c < 32")
  case True
  then show ?thesis using control_turn[of "code_of c" t] by (simp add: code_of_def)
next
  case False
  then have "c \<noteq> CHR 0x08" "c \<noteq> CHR 0x09" "c \<noteq> CHR 0x0A" "c \<noteq> CHR 0x0C" "c \<noteq> CHR 0x0D" by (auto simp: code_of_def)
  then show ?thesis
    using False
    by (auto simp: write_char_def write_escape_def string_turn_def Peek_def read_escape_def Let_def
        quote_char_def backslash_def)
qed

lemma read_chars: "ParseStringToStream (concat (map write_char s) @ quote_char # rest) = Inr (s, rest)"
proof (induction s)
  case Nil
  have "string_turn (quote_char # rest) = Inr (None, rest)"
    by (simp add: string_turn_def Peek_def quote_char_def backslash_def)
  then show ?case by (subst ParseStringToStream.simps) simp
next
  case (Cons c s)
  then show ?case by (subst ParseStringToStream.simps) (simp add: turn_write_char)
qed

lemma read_string:
  "ParseString document_event isKey (WriteString s @ rest) st = Inr (rest, String s # st)"
  using read_chars[of s rest]
  by (simp add: ParseString_def WriteString_def Peek_def emit_def push_value_def)

section \<open>Values\<close>

text \<open>
  A double that is read back from its text; how doubles are printed and what arithmetic does to
  their digits are the parameters \<open>dtoa\<close> and \<open>ops\<close>.
\<close>

definition readable_double :: "'d double_ops \<Rightarrow> ('d \<Rightarrow> string option) \<Rightarrow> 'd \<Rightarrow> bool" where
  "readable_double ops dtoa d \<longleftrightarrow>
     (\<exists>t. dtoa d = Some t \<and> nul \<notin> set t \<and> (is_dec_digit (Peek t) \<or> Peek t = CHR ''-'') \<and>
       (\<forall>rest st. delimited rest \<longrightarrow>
          ParseNumber ops document_event (t @ rest) st = Inr (rest, Value_double d # st)))"

primrec doubles :: "'d Value \<Rightarrow> 'd set" where
  "doubles Null = {}"
| "doubles (Boolean b) = {}"
| "doubles (Number f p) = (case p of Whole n \<Rightarrow> {} | Real d \<Rightarrow> {d})"
| "doubles (String s) = {}"
| "doubles (Array xs) = \<Union> (set (map doubles xs))"
| "doubles (Object ms) = \<Union> (snd ` set (map (map_prod id doubles) ms))"

text \<open>Numbers as the constructors make them.\<close>

primrec proper :: "'d Value \<Rightarrow> bool" where
  "proper Null = True"
| "proper (Boolean b) = True"
| "proper (Number f p) =
     (case p of
        Whole n \<Rightarrow> - (2 ^ 63) \<le> n \<and> n < 2 ^ 64 \<and> (Number f (Whole n) :: 'd Value) = number n
      | Real d \<Rightarrow> Number f (Real d) = Value_double d)"
| "proper (String s) = True"
| "proper (Array xs) = list_all id (map proper xs)"
| "proper (Object ms) = list_all snd (map (map_prod id proper) ms)"

lemma proper_printable:
  "proper v \<Longrightarrow> (\<And>d. d \<in> doubles v \<Longrightarrow> readable_double ops dtoa d) \<Longrightarrow> printable dtoa v"
proof (induction v)
  case (Number f p)
  show ?case
  proof (cases p)
    case (Whole n)
    show ?thesis
      using Number.prems(1) unfolding proper.simps printable.simps Whole payload.case .
  next
    case (Real d)
    then have "dtoa d \<noteq> None" using Number.prems(2)[of d] by (auto simp: readable_double_def)
    then show ?thesis
      using Number.prems(1) unfolding proper.simps printable.simps Real payload.case by blast
  qed
next
  case (Array xs)
  then show ?case by (auto simp: list_all_iff)
next
  case (Object ms)
  then show ?case by (fastforce simp: list_all_iff snds.simps)
qed auto

lemma text_start:
  assumes "proper v" "\<And>d. d \<in> doubles v \<Longrightarrow> readable_double ops dtoa d"
  shows "\<exists>c t. json_text dtoa v = c # t \<and> \<not> blank c \<and> c \<noteq> CHR '']'' \<and> c \<noteq> nul"
proof -
  have digit: "\<not> blank c \<and> c \<noteq> CHR '']'' \<and> c \<noteq> nul" if "is_dec_digit c \<or> c = CHR ''-''" for c
    using that by (auto simp: is_dec_digit_def in_range_def blank_def nul_def code_of_def)
  show ?thesis
  proof (cases v)
    case (Number f p)
    have "\<exists>c t. json_text dtoa v = c # t \<and> (is_dec_digit c \<or> c = CHR ''-'')"
    proof (cases p)
      case (Whole n)
      have "\<exists>c t. dec m = c # t \<and> is_dec_digit c" for m
        using dec_digits[of m] by (cases "dec m") auto
      then show ?thesis using Number Whole by (simp add: dec_int_def) blast
    next
      case (Real d)
      then obtain t where "dtoa d = Some t" "is_dec_digit (Peek t) \<or> Peek t = CHR ''-''"
        using assms(2)[of d] Number by (auto simp: readable_double_def)
      then show ?thesis using Number Real
        by (cases t) (auto simp: Peek_def is_dec_digit_def in_range_def nul_def code_of_def)
    qed
    then show ?thesis using digit by blast
  qed (auto simp: WriteString_def blank_def nul_def quote_char_def)
qed


text \<open>\<open>ParseValue\<close> reads the text of \<open>v\<close>, whatever stands behind it.\<close>

definition reads_value :: "'d double_ops \<Rightarrow> ('d \<Rightarrow> string option) \<Rightarrow> 'd Value \<Rightarrow> bool" where
  "reads_value ops dtoa v \<longleftrightarrow>
     (\<exists>c t. json_text dtoa v = c # t \<and> \<not> blank c \<and> c \<noteq> CHR '']'' \<and> c \<noteq> nul) \<and>
     (\<forall>n rest st. delimited rest \<longrightarrow> 2 * length (json_text dtoa v @ rest) < n \<longrightarrow>
        ParseValue ops document_event n (json_text dtoa v @ rest) st = Inr (rest, v # st))"

lemma reads_value:
  "reads_value ops dtoa v \<Longrightarrow> delimited rest \<Longrightarrow> 2 * length (json_text dtoa v @ rest) < n \<Longrightarrow>
   ParseValue ops document_event n (json_text dtoa v @ rest) st = Inr (rest, v # st)"
  by (simp add: reads_value_def)

lemma skip_start: "\<not> blank c \<Longrightarrow> SkipWhitespace (c # s) = c # s"
  by simp

lemma skip_value:
  assumes "reads_value ops dtoa v"
  shows "SkipWhitespace (json_text dtoa v @ s) = json_text dtoa v @ s"
    "Peek (json_text dtoa v @ s) \<noteq> CHR '']''" "Peek (json_text dtoa v @ s) \<noteq> nul"
  using assms by (auto simp: reads_value_def Peek_def)

lemma no_blank: "\<not> blank CHR '',''" "\<not> blank CHR '']''" "\<not> blank CHR ''}''" "\<not> blank CHR '':''" "\<not> blank quote_char"
  by (auto simp: blank_def quote_char_def)

lemma closers: "delimited (CHR '','' # s)" "delimited (CHR '']'' # s)" "delimited (CHR ''}'' # s)"
  by (simp_all add: delimited_def)

lemma reads_elements:
  "(\<And>y. y \<in> set (x # xs) \<Longrightarrow> reads_value ops dtoa y) \<Longrightarrow>
   2 * length (joined False (map (json_text dtoa) (x # xs)) @ CHR '']'' # rest) + 1 < n \<Longrightarrow> length done = k \<Longrightarrow>
   array_elements ops document_event n k (joined False (map (json_text dtoa) (x # xs)) @ CHR '']'' # rest)
     (rev done @ Array ys # st) = Inr (rest, Array (done @ x # xs) # st)"
proof (induction xs arbitrary: x n k "done")
  case Nil
  then obtain m where n: "n = Suc m" by (cases n) auto
  have x: "reads_value ops dtoa x" using Nil.prems(1) by simp
  have "ParseValue ops document_event m (json_text dtoa x @ CHR '']'' # rest) (rev done @ Array ys # st) =
      Inr (CHR '']'' # rest, x # rev done @ Array ys # st)"
    using Nil.prems(2) n by (intro reads_value[OF x] closers) simp
  moreover have "document_event (EndArray (Suc k)) (x # rev done @ Array ys # st) = Inr (True, Array (done @ [x]) # st)"
    using end_of_array[of "done @ [x]" ys st] Nil.prems(3) by simp
  ultimately show ?case
    unfolding n by (simp add: no_blank Peek_def close_level_def emit_def Let_def del: document_event.simps)
next
  case (Cons x2 xs)
  then obtain m where n: "n = Suc m" by (cases n) auto
  let ?rest = "joined False (map (json_text dtoa) (x2 # xs)) @ CHR '']'' # rest"
  have x: "reads_value ops dtoa x" and x2: "reads_value ops dtoa x2" using Cons.prems(1) by simp_all
  have whole: "joined False (map (json_text dtoa) (x # x2 # xs)) @ CHR '']'' # rest = json_text dtoa x @ CHR '','' # ?rest"
    by simp
  have "ParseValue ops document_event m (json_text dtoa x @ CHR '','' # ?rest) (rev done @ Array ys # st) =
      Inr (CHR '','' # ?rest, x # rev done @ Array ys # st)"
    using Cons.prems(2) n unfolding whole by (intro reads_value[OF x] closers) simp
  moreover have "SkipWhitespace ?rest = ?rest" using skip_value(1)[OF x2] by simp
  moreover have "array_elements ops document_event m (Suc k) ?rest (rev (done @ [x]) @ Array ys # st) =
      Inr (rest, Array ((done @ [x]) @ x2 # xs) # st)"
    using Cons.prems n unfolding whole by (intro Cons.IH) simp_all
  ultimately show ?case
    unfolding whole n by (simp add: no_blank Peek_def Let_def del: joined.simps list.map)
qed


lemma one_member:
  assumes "reads_value ops dtoa (snd m)" "delimited s" "2 * length (json_text dtoa (snd m) @ s) < n"
  shows "object_members ops document_event (Suc n) k (member_text dtoa m @ s) st =
    (let is = SkipWhitespace s
     in if Peek is = CHR '','' then
          object_members ops document_event n (Suc k) (SkipWhitespace (tl is)) (snd m # String (fst m) # st)
        else if Peek is = CHR ''}'' then
          close_level document_event (EndObject (Suc k)) is (snd m # String (fst m) # st)
        else Inl (Stopped kParseErrorObjectMissCommaOrCurlyBracket is))"
proof -
  have "Peek (member_text dtoa m @ s) = quote_char"
    by (simp add: member_text_def WriteString_def Peek_def)
  moreover have "ParseString document_event True (member_text dtoa m @ s) st =
      Inr (CHR '':'' # json_text dtoa (snd m) @ s, String (fst m) # st)"
    using read_string[of True "fst m" "CHR '':'' # json_text dtoa (snd m) @ s" st] by (simp add: member_text_def)
  moreover have "Consume CHR '':'' (SkipWhitespace (CHR '':'' # t)) = (True, t)" for t
    by (simp add: no_blank Consume_def Peek_def)
  ultimately show ?thesis
    using reads_value[OF assms] skip_value(1)[OF assms(1)] by simp
qed

lemma reads_members:
  "(\<And>x. x \<in> set (m # ms) \<Longrightarrow> reads_value ops dtoa (snd x)) \<Longrightarrow>
   2 * length (joined False (map (member_text dtoa) (m # ms)) @ CHR ''}'' # rest) < n \<Longrightarrow> length done = k \<Longrightarrow>
   object_members ops document_event n k (joined False (map (member_text dtoa) (m # ms)) @ CHR ''}'' # rest)
     (rev (member_values done) @ Object ys # st) = Inr (rest, Object (done @ m # ms) # st)"
proof (induction ms arbitrary: m n k "done")
  case Nil
  then obtain l where n: "n = Suc l" by (cases n) auto
  have v: "reads_value ops dtoa (snd m)" using Nil.prems(1) by simp
  have "2 * length (json_text dtoa (snd m) @ CHR ''}'' # rest) < l"
    using Nil.prems(2) n by (simp add: member_text_def WriteString_def)
  note one = one_member[OF v closers(3) this]
  have "document_event (EndObject (Suc k)) (snd m # String (fst m) # rev (member_values done) @ Object ys # st) =
      Inr (True, Object (done @ [m]) # st)"
    using end_of_object[of "done @ [m]" ys st] Nil.prems(3) by (cases m) simp
  then show ?case
    unfolding n using one
    by (simp add: no_blank Peek_def close_level_def emit_def Let_def
        del: document_event.simps object_members.simps)
next
  case (Cons m2 ms)
  then obtain l where n: "n = Suc l" by (cases n) auto
  let ?rest = "joined False (map (member_text dtoa) (m2 # ms)) @ CHR ''}'' # rest"
  have v: "reads_value ops dtoa (snd m)" using Cons.prems(1) by simp
  have whole: "joined False (map (member_text dtoa) (m # m2 # ms)) @ CHR ''}'' # rest = member_text dtoa m @ CHR '','' # ?rest"
    by simp
  have less: "2 * length (json_text dtoa (snd m) @ CHR '','' # ?rest) < l" "2 * length ?rest < l"
    using Cons.prems(2) n unfolding whole by (simp_all add: member_text_def WriteString_def)
  have "SkipWhitespace ?rest = ?rest"
    by (simp add: member_text_def WriteString_def no_blank)
  moreover have "object_members ops document_event l (Suc k) ?rest (rev (member_values (done @ [m])) @ Object ys # st) =
      Inr (rest, Object ((done @ [m]) @ m2 # ms) # st)"
    using Cons.prems less(2) by (intro Cons.IH) simp_all
  moreover have "rev (member_values (done @ [m])) = snd m # String (fst m) # rev (member_values done)"
    by (cases m) simp
  ultimately show ?case
    unfolding whole n one_member[OF v closers(1) less(1)]
    by (simp add: no_blank Peek_def Let_def del: joined.simps list.map object_members.simps)
qed

text \<open>A value that is read in one step.\<close>

lemma scalar_reads:
  assumes "\<exists>c t. json_text dtoa v = c # t \<and> \<not> blank c \<and> c \<noteq> CHR '']'' \<and> c \<noteq> nul"
    and "\<And>n rest st. delimited rest \<Longrightarrow>
      ParseValue ops document_event (Suc n) (json_text dtoa v @ rest) st = Inr (rest, v # st)"
  shows "reads_value ops dtoa v"
  unfolding reads_value_def
proof (intro conjI allI impI)
  fix n :: nat and rest st
  assume "delimited rest" "2 * length (json_text dtoa v @ rest) < n"
  then show "ParseValue ops document_event n (json_text dtoa v @ rest) st = Inr (rest, v # st)"
    using assms(2) by (cases n) auto
qed (rule assms(1))

lemma Peek_first [simp]: "Peek (c # s) = c"
  by (simp add: Peek_def)

lemma number_dispatch:
  "is_dec_digit (Peek is) \<or> Peek is = CHR ''-'' \<Longrightarrow>
   ParseValue ops handle (Suc n) is s = ParseNumber ops handle is s"
  by (auto simp: is_dec_digit_def in_range_def code_of_def quote_char_def Let_def)

lemma literal_reads:
  "ParseNull document_event (''null'' @ rest) st = Inr (rest, Null # st)"
  "ParseTrue document_event (''true'' @ rest) st = Inr (rest, Boolean True # st)"
  "ParseFalse document_event (''false'' @ rest) st = Inr (rest, Boolean False # st)"
  by (simp_all add: ParseNull_def ParseTrue_def ParseFalse_def ParseLiteral_def Peek_def Consume_def
      emit_def push_value_def)

theorem text_reads_value:
  "proper v \<Longrightarrow> (\<And>d. d \<in> doubles v \<Longrightarrow> readable_double ops dtoa d) \<Longrightarrow> reads_value ops dtoa v"
proof (induction v)
  case Null
  show ?case by (rule scalar_reads) (simp_all add: literal_reads[simplified] Let_def quote_char_def blank_def nul_def)
next
  case (Boolean b)
  show ?case
    by (rule scalar_reads; cases b) (simp_all add: literal_reads[simplified] Let_def quote_char_def blank_def nul_def)
next
  case (Number f p)
  show ?case
  proof (rule scalar_reads[OF text_start[OF Number.prems]])
    fix n rest and st :: "'a Value list"
    assume rest: "delimited rest"
    show "ParseValue ops document_event (Suc n) (json_text dtoa (Number f p) @ rest) st = Inr (rest, Number f p # st)"
    proof (cases p)
      case (Whole m)
      then have m: "- (2 ^ 63) \<le> m" "m < 2 ^ 64" and v: "Number f p = (number m :: 'a Value)"
        using Number.prems(1) by simp_all
      have "is_dec_digit (Peek (dec_int m @ rest)) \<or> Peek (dec_int m @ rest) = CHR ''-''"
        using dec_digits[of "nat m"] by (cases "dec (nat m)") (auto simp: dec_int_def)
      moreover have "json_text dtoa (Number f p) = dec_int m" using Whole by simp
      ultimately show ?thesis using read_number[OF m rest] v by (simp only: number_dispatch)
    next
      case (Real d)
      then have v: "Number f p = Value_double d" using Number.prems(1) by simp
      obtain t where t: "dtoa d = Some t" "is_dec_digit (Peek t) \<or> Peek t = CHR ''-''"
        "ParseNumber ops document_event (t @ rest) st = Inr (rest, Value_double d # st)"
        using Number.prems(2)[of d] Real rest by (auto simp: readable_double_def)
      then have "is_dec_digit (Peek (t @ rest)) \<or> Peek (t @ rest) = CHR ''-''"
        by (cases t) (auto simp: Peek_def is_dec_digit_def in_range_def nul_def code_of_def)
      moreover have "json_text dtoa (Number f p) = t" using Real t(1) by simp
      ultimately show ?thesis using t(3) v by (simp only: number_dispatch)
    qed
  qed
next
  case (String s)
  show ?case
    by (rule scalar_reads) (simp_all add: Let_def read_string, simp_all add: WriteString_def blank_def nul_def quote_char_def)
next
  case (Array xs)
  have r: "reads_value ops dtoa x" if "x \<in> set xs" for x
    using Array that by (auto simp: list_all_iff)
  have "ParseValue ops document_event n (json_text dtoa (Array xs) @ rest) st = Inr (rest, Array xs # st)"
    if d: "delimited rest" and fuel: "2 * length (json_text dtoa (Array xs) @ rest) < n" for n rest st
  proof -
    obtain l where n: "n = Suc l" using fuel by (cases n) auto
    show ?thesis
    proof (cases xs)
      case Nil
      then show ?thesis
        unfolding n
        by (simp add: Peek_def no_blank open_level_def close_level_def emit_def push_value_def quote_char_def Pop_def)
    next
      case (Cons x ys)
      let ?t = "joined False (map (json_text dtoa) (x # ys)) @ CHR '']'' # rest"
      have t: "json_text dtoa (Array xs) @ rest = CHR ''['' # ?t" by (simp add: Cons commas_joined)
      have "SkipWhitespace ?t = ?t" "Peek ?t \<noteq> CHR '']''"
        using skip_value[OF r[of x]] Cons by simp_all
      moreover have "array_elements ops document_event l 0 ?t (rev [] @ Array [] # st) = Inr (rest, Array ([] @ x # ys) # st)"
        using fuel unfolding t n by (intro reads_elements r) (simp_all add: Cons)
      ultimately show ?thesis
        unfolding t n
        by (simp add: Peek_def[of "_ # _"] open_level_def emit_def push_value_def quote_char_def Cons
            del: joined.simps list.map)
    qed
  qed
  then show ?case by (simp add: reads_value_def blank_def nul_def)
next
  case (Object ms)
  have r: "reads_value ops dtoa (snd m)" if "m \<in> set ms" for m
    using Object that by (cases m) (fastforce simp: list_all_iff snds.simps)
  have "ParseValue ops document_event n (json_text dtoa (Object ms) @ rest) st = Inr (rest, Object ms # st)"
    if d: "delimited rest" and fuel: "2 * length (json_text dtoa (Object ms) @ rest) < n" for n rest st
  proof -
    obtain l where n: "n = Suc l" using fuel by (cases n) auto
    show ?thesis
    proof (cases ms)
      case Nil
      then show ?thesis
        unfolding n
        by (simp add: Peek_def no_blank open_level_def close_level_def emit_def push_value_def quote_char_def Pop_def)
    next
      case (Cons m ys)
      let ?t = "joined False (map (member_text dtoa) (m # ys)) @ CHR ''}'' # rest"
      have t: "json_text dtoa (Object ms) @ rest = CHR ''{'' # ?t" by (simp add: Cons json_text_Object del: json_text.simps)
      have "SkipWhitespace ?t = ?t" "Peek ?t \<noteq> CHR ''}''"
        by (simp_all add: member_text_def WriteString_def no_blank Peek_def) (simp add: quote_char_def)
      moreover have "object_members ops document_event l 0 ?t (rev (member_values []) @ Object [] # st) =
          Inr (rest, Object ([] @ m # ys) # st)"
        using fuel unfolding t n by (intro reads_members r) (simp_all add: Cons)
      ultimately show ?thesis
        unfolding t n
        by (simp add: Peek_def[of "_ # _"] open_level_def emit_def push_value_def quote_char_def Cons
            del: joined.simps list.map)
    qed
  qed
  then show ?case by (simp add: reads_value_def blank_def nul_def)
qed


section \<open>Documents\<close>

lemma document_reads_text:
  assumes "reads_value ops dtoa v" "2 * length (json_text dtoa v) < n"
  shows "Document_Parse ops n (json_text dtoa v) = Inr (v, None)"
proof -
  have "ParseValue ops document_event n (json_text dtoa v @ []) [] = Inr ([], [v])"
    using assms by (intro reads_value) (simp_all add: delimited_def)
  then show ?thesis
    using skip_value[OF assms(1), of "[]"] by (simp add: Document_Parse_def Parse_def Peek_def[of "[]"])
qed

lemma writer_text:
  "printable dtoa v \<Longrightarrow>
   send (writer_event dtoa) (Accept v) new_writer = Inr (True, put (json_text dtoa v) (new_writer\<lparr>hasRoot := True\<rparr>))"
  using writer_writes_text[of dtoa v] by (simp add: writes_text_def Prefix_def new_writer_def)



text \<open>Doubles that are whole numbers, printed with one digit behind the point.\<close>

definition int_dtoa :: "int \<Rightarrow> string option" where
  "int_dtoa d = Some (dec_int d @ ''.0'')"

lemma five_text: "int_dtoa 5 = Some ''5.0''"
  by code_simp

lemma five_readable: "readable_double int_ops int_dtoa 5"
proof -
  have "ParseNumber int_ops document_event (''5.0'' @ rest) st = Inr (rest, Value_double 5 # st)"
    if "delimited rest" for rest st
  proof -
    have rest: "frac_whole m e k rest = (m, e, k, rest)" "frac_double ops d e k rest = (d, e, k, rest)"
      "num_exp ops start n rest = Inr (0, n, rest)" for m e k ops d start n
      using that
      by (auto elim!: delimited_cases simp: is_dec_digit_def in_range_def code_of_def num_exp_def Peek_def nul_def)
    have digits: "digit_of CHR ''5'' = 5" "digit_of CHR ''0'' = 0" "is_dec_digit CHR ''5''" "is_dec_digit CHR ''0''"
      "in_range CHR ''1'' CHR ''9'' CHR ''5''" "\<not> is_dec_digit CHR ''.''" by code_simp+
    have "num_int int_ops False (''5.0'' @ rest) = Inr ((new_num int_ops)\<lparr>num_i := 5\<rparr>, ''.0'' @ rest)"
      using digits by (simp add: num_int_def new_num_def)
    moreover have "num_int64 int_ops False ((new_num int_ops)\<lparr>num_i := 5\<rparr>) is = ((new_num int_ops)\<lparr>num_i := 5\<rparr>, is)" for "is"
      by (simp add: num_int64_def new_num_def)
    moreover have "num_frac int_ops ((new_num int_ops)\<lparr>num_i := 5\<rparr>) (''.0'' @ rest) =
        Inr ((new_num int_ops)\<lparr>num_i := 5, num_i64 := 50, num_d := 50, useDouble := True, expFrac := - 1,
               significandDigit := 1\<rparr>, rest)"
      using digits by (simp add: num_frac_def Consume_def rest num_whole_def new_num_def Let_def int_ops_def)
    moreover have "num_event int_ops False start 0 ((new_num int_ops)\<lparr>num_i := 5, num_i64 := 50, num_d := 50,
        useDouble := True, expFrac := - 1, significandDigit := 1\<rparr>) = Inr (DoubleE 5)" for start
      by (simp add: num_event_def StrtodNormalPrecision_def FastPath_def Pow10_def int_ops_def)
    moreover have "Consume CHR ''-'' (''5.0'' @ rest) = (False, ''5.0'' @ rest)"
      by (simp add: Consume_def)
    ultimately show ?thesis
      by (simp only: ParseNumber_def prod.case bind_fault.simps rest) (simp add: emit_def push_value_def)
  qed
  moreover have "nul \<notin> set ''5.0''" "is_dec_digit (Peek ''5.0'')" by code_simp+
  ultimately show ?thesis unfolding readable_double_def five_text by blast
qed

lemma demo_value:
  "proper (Object [(''a'', Array [number 7, Value_double 5, Null]), (''b'', String [CHR 0x0A, CHR 0x22])] :: int Value)"
  "doubles (Object [(''a'', Array [number 7, Value_double 5, Null]), (''b'', String [CHR 0x0A, CHR 0x22])] :: int Value) = {5}"
  by code_simp (simp add: number_def Value_uint64_def Value_double_def)


end
