(* ===== verification/GeneratedText.thy ===== *)
theory GeneratedText
  imports JsonRoundTrip RapidText
begin

text \<open>
  The generated program from objects to JSON text and back: \<open>serializeDocument\<close> and
  \<open>deserializeDocument\<close>, which \<open>DOM::saveSerialize\<close> and \<open>DOM::saveDeserialize\<close> print in front of the
  functions of the classes, on RapidJSON's writer and reader.
\<close>

section \<open>Documents\<close>

text \<open>The result of \<open>Accept\<close> is not looked at; the returned string ends at the first NUL.\<close>

definition serializeDocument :: "('d \<Rightarrow> string option) \<Rightarrow> 'd Value \<Rightarrow> fault + string" where
  "serializeDocument dtoa d =
     bind_fault (send (writer_event dtoa) (Accept d) new_writer) (\<lambda>(ok, w). Inr (c_str (os w)))"

text \<open>The parse error is not looked at. The fuel is enough for every text (\<open>reader_total\<close>).\<close>

definition deserializeDocument :: "'d double_ops \<Rightarrow> string \<Rightarrow> fault + 'd Value" where
  "deserializeDocument ops text =
     bind_fault (Document_Parse ops (2 * length text + 1) (c_str text)) (\<lambda>(d, err). Inr d)"

text \<open>\<open>deserialize(in, deserializedOk)\<close>: the flag and the object.\<close>

definition deserialize ::
  "'d machine \<Rightarrow> 'd double_ops \<Rightarrow> DOM \<Rightarrow> nat \<Rightarrow> string \<Rightarrow> string \<Rightarrow> fault + (bool \<times> 'd fields)"
where
  "deserialize M ops dm n t text =
     bind_fault (deserializeDocument ops text) (\<lambda>d. deserializeFrom M dm n t d (default_object M dm n t))"

section \<open>The texts\<close>

lemma write_control_no_nul: "list_all (\<lambda>k :: nat. nul \<notin> set (write_char (char_of k))) [0..<32]"
  by code_simp

lemma write_char_no_nul: "nul \<notin> set (write_char c)"
proof (cases "code_of c < 32")
  case True
  then have "nul \<notin> set (write_char (char_of (code_of c)))"
    using write_control_no_nul by (simp only: list_all_iff set_upt atLeastLessThan_iff) simp
  then show ?thesis by (simp add: code_of_def)
next
  case False
  then show ?thesis
    by (auto simp: write_char_def write_escape_def nul_def backslash_def quote_char_def code_of_def)
qed

lemma WriteString_no_nul: "nul \<notin> set (WriteString s)"
  using write_char_no_nul by (auto simp: WriteString_def quote_char_def nul_def)

lemma dec_no_nul: "nul \<notin> set (dec n)"
  using dec_digits[of n] by (auto simp: nul_def is_dec_digit_def in_range_def code_of_def)

lemma joined_set: "set (joined b ts) \<subseteq> insert CHR '','' (\<Union> (set ` set ts))"
proof (induction ts arbitrary: b)
  case (Cons t ts)
  then show ?case using Cons[of True] by auto
qed simp

lemma json_text_no_nul:
  "(\<And>d. d \<in> doubles v \<Longrightarrow> readable_double ops dtoa d) \<Longrightarrow> nul \<notin> set (json_text dtoa v)"
proof (induction v)
  case (Number f p)
  show ?case
  proof (cases p)
    case (Whole n)
    then show ?thesis using dec_no_nul by (auto simp: dec_int_def nul_def)
  next
    case (Real d)
    then obtain t where "dtoa d = Some t" "nul \<notin> set t"
      using Number.prems[of d] by (auto simp: readable_double_def)
    then show ?thesis using Real by simp
  qed
next
  case (Array xs)
  have "nul \<notin> set (json_text dtoa x)" if "x \<in> set xs" for x
    using that Array.prems by (intro Array.IH) auto
  then show ?case
    using joined_set[of False "map (json_text dtoa) xs"] by (auto simp: commas_joined nul_def)
next
  case (Object ms)
  have "nul \<notin> set (member_text dtoa m)" if "m \<in> set ms" for m
  proof -
    have "nul \<notin> set (json_text dtoa (snd m))"
      using that Object.prems by (intro Object.IH[of m]) (force simp: snds.simps)+
    then show ?thesis using WriteString_no_nul by (auto simp: member_text_def nul_def)
  qed
  then show ?case
    unfolding json_text_Object using joined_set[of False "map (member_text dtoa) ms"] by (auto simp: nul_def)
next
  case (String s)
  show ?case using WriteString_no_nul by simp
qed (simp_all add: nul_def)

lemma c_str_no_nul: "nul \<notin> set s \<Longrightarrow> c_str s = s"
  unfolding c_str_def by (rule takeWhile_eq_all_conv[THEN iffD2]) auto

lemma document_text:
  assumes "proper v" "\<And>d. d \<in> doubles v \<Longrightarrow> readable_double ops dtoa d"
  shows "serializeDocument dtoa v = Inr (json_text dtoa v)"
    "deserializeDocument ops (json_text dtoa v) = Inr v"
proof -
  have c: "c_str (json_text dtoa v) = json_text dtoa v"
    using assms(2) by (intro c_str_no_nul json_text_no_nul)
  have p: "printable dtoa v" using assms by (rule proper_printable)
  have r: "reads_value ops dtoa v" using assms by (rule text_reads_value)
  from c show "serializeDocument dtoa v = Inr (json_text dtoa v)"
    unfolding serializeDocument_def writer_text[OF p] by (simp add: put_def new_writer_def)
  show "deserializeDocument ops (json_text dtoa v) = Inr v"
    using c document_reads_text[OF r] by (simp add: deserializeDocument_def)
qed

section \<open>The JSON of an object is proper\<close>

lemma proper_number: "- (2 ^ 63) \<le> n \<Longrightarrow> n < 2 ^ 64 \<Longrightarrow> proper (number n :: 'd Value)"
proof -
  assume n: "- (2 ^ 63) \<le> n" "n < 2 ^ 64"
  obtain fl where e: "(number n :: 'd Value) = Number fl (Whole n)" using number_cases[OF n] by blast
  have "proper (Number fl (Whole n) :: 'd Value)" 
    unfolding proper.simps payload.case using n e[symmetric] by blast
  then show ?thesis by (simp only: e)
qed

lemma proper_encode_value:
  assumes "storable_value M dm ok i v" "\<And>t g. ok t g \<Longrightarrow> proper (Object (enc t g))"
  shows "proper (encode_value M dm enc i v)"
  using assms by (cases v) (auto intro!: proper_number simp: Value_double_def)

lemma proper_encode_member:
  assumes "storable_member M dm ok i old v" "\<And>t g. ok t g \<Longrightarrow> proper (Object (enc t g))"
    "encode_member M dm enc i v = Some j"
  shows "proper j"
proof -
  have val: "proper (encode_value M dm enc i x)" if "storable_value M dm ok i x" for x
    using that assms(2) by (rule proper_encode_value)
  show ?thesis
  proof (cases "mIsArray i")
    case True
    then obtain xs where "v = CVector xs" "list_all (storable_value M dm ok i) xs"
      "j = Array (map (encode_value M dm enc i) xs)"
      using assms(1,3) by (auto simp: storable_member_def encode_member_def split: cval.splits)
    then show ?thesis using val by (simp add: list_all_iff)
  next
    case False
    then obtain x where "storable_value M dm ok i x" "j = encode_value M dm enc i x"
      using assms(1,3)
      by (auto simp: storable_member_def encode_member_def split: if_splits cval.splits option.splits)
    then show ?thesis using val by simp
  qed
qed

lemma proper_Object: "proper (Object ms) \<longleftrightarrow> (\<forall>m \<in> set ms. proper (snd m))"
  by (auto simp: list_all_iff)

lemma encode_proper: "storable M dm n t r f \<Longrightarrow> proper (Object (encode M dm n t f))"
proof (induction n arbitrary: t r f)
  case (Suc n)
  then obtain ob where ob: "findObject dm t = Some ob"
    "mInheritsFromO ob \<noteq> [] \<Longrightarrow> storable M dm n (mInheritsFromO ob) r f"
    "\<And>i. i \<in> set (own_items ob) \<Longrightarrow> storable_member M dm
       (\<lambda>t g. has_fields (default_object M dm n t) g \<and> storable M dm n t (default_object M dm n t) g)
       i (field r (mMember i)) (field f (mMember i))"
    by (auto simp: list_all_iff split: option.splits)
  have own: "proper (snd m)" if m: "m \<in> set (encode_items M dm (encode M dm n) f (own_items ob))" for m
  proof -
    obtain i j where "i \<in> set (own_items ob)" "snd m = j"
      "encode_member M dm (encode M dm n) i (field f (mMember i)) = Some j"
      using m by (auto simp: encode_items_def entry_def split: option.splits)
    then show ?thesis using proper_encode_member[OF ob(3)] Suc.IH by blast
  qed
  have base: "proper (snd m)" if "mInheritsFromO ob \<noteq> []" "m \<in> set (encode M dm n (mInheritsFromO ob) f)" for m
    using Suc.IH[OF ob(2)[OF that(1)]] that(2) unfolding proper_Object by blast
  show ?case
    unfolding proper_Object using ob(1) own base by (auto split: if_splits)
qed simp

section \<open>The round trip through text\<close>


lemma shape_doubles: "doubles (Object (encode json_machine json_schema 3 ''Shape'' json_shape)) = {5}"
  by code_simp


end
