(* ===== verification/Spec2Isabelle.thy ===== *)
theory Spec2Isabelle
  imports Prelude CodeSink DomModel CsvReader Schema ValueText EmitSerialize EmitDeserialize Faults
    EmitEnum EmitCpp EmitPod EmitPython EmitProto EmitDom Driver StringHelper Itoa
    GeneratedKeys GeneratedBraces GeneratedFiles
    RapidJson RapidItoa RapidWriter CppRead CppWrite JsonStatements SolidText ReadText WriteText JsonText
    GeneratedJson JsonRoundTrip JsonErrors RapidReader ReaderTotal RapidText GeneratedText
begin

text \<open>
  SchemaCodeGen reads a schema (a spreadsheet saved as CSV: objects, enumerations and their
  members) and writes a C++ header and implementation with the data types, their enum tables and
  their JSON serializers. This development models the whole of the tool's own code: the generator
  (src/src/CreateDOM.cpp), its string helpers (src/src/StringHelper.cpp), the integer printer
  (src/src/itoa_jeaiii.cpp) and the program (src/app/main.cpp).

  \<^bold>\<open>How the parts work together.\<close> \<open>main\<close> creates a \<open>CreateDOMDef\<close>, which memory-reads the CSV
  file in \<open>parseCSV\<close>: the scanner cuts it into rows of at most 128 fields and calls
  \<open>processArgs\<close> for each. A row is a setting (Namespace, Filename, ...), starts an object or adds a
  member to the current object. \<open>importComplete\<close> then computes the derived flags and the type
  table. \<open>saveCPP\<close> opens two \<open>CodePrinter\<close>s and lets every object print itself through the
  emitters; a printer collects its text and \<open>finalize\<close> writes the file if its contents changed.

  \<^bold>\<open>Theories.\<close>
  \<^item> \<open>Prelude\<close>: faults (the undefined behaviour and the assertions of the program as values),
    C strings, \<open>snprintf\<close> with the conversions the program uses, decimal text, \<open>strtoll\<close>.
  \<^item> \<open>CodeSink\<close>: \<open>CodePrinter\<close>. The emitters only call \<open>printCode\<close> and \<open>linefeed\<close>, so the model
    of an emitter is its list of calls (type \<open>code\<close>; \<open>pc\<close> is a call of \<open>printCode\<close>, \<open>lf\<close> of
    \<open>linefeed\<close>) and \<open>run_code\<close> runs the list on a printer. The locale \<open>code_sink\<close> is the interface.
  \<^item> \<open>DomModel\<close>: \<open>MemberVariable\<close>, \<open>Object\<close>, \<open>DOM\<close>, the type names of the target languages and
    \<open>importComplete\<close>. \<open>mObjectMap\<close> maps a name to the index of the object it points to. The
    locale \<open>type_table\<close> states what the emitters rely on when they look a type up.
  \<^item> \<open>CsvReader\<close>: the scanner of \<open>parseCSV\<close> (\<open>scan_field\<close>, \<open>scan_row\<close>, \<open>csv_loop\<close>) and
    \<open>processArgs\<close>. The locale \<open>row_handler\<close> is the virtual call between them.
  \<^item> \<open>Schema\<close>: rows that express a given schema, and reading them back.
  \<^item> \<open>ValueText\<close>: default values in Python and C++ (\<open>getPythonArgDef\<close>, \<open>getCppValueInitializer\<close>,
    \<open>getCppRValue\<close>). Reading and printing a floating-point number (\<open>strtod\<close>, \<open>sscanf\<close>,
    \<open>ostream\<close>) is the parameter \<open>float_io\<close>.
  \<^item> \<open>EmitSerialize\<close>, \<open>EmitDeserialize\<close>, \<open>EmitEnum\<close>, \<open>EmitCpp\<close>, \<open>EmitPod\<close>, \<open>EmitPython\<close>,
    \<open>EmitProto\<close>: the \<open>save\<close> methods of \<open>Object\<close>, one definition per lambda, loop or branch.
    \<open>EmitDom\<close>: the file-level \<open>save\<close> methods of \<open>DOM\<close>.
  \<^item> \<open>Faults\<close>: which emitters can assert, and \<open>generates\<close>, the condition on a schema under which
    none does.
  \<^item> \<open>GeneratedKeys\<close>: the JSON keys in the generated serializers, deserializers and \<open>isMember\<close>.
  \<^item> \<open>GeneratedBraces\<close>: the generated C++ opens and closes its braces in order (\<open>closed\<close> calls).
  \<^item> \<open>GeneratedFiles\<close>: from call lists to file contents.
  \<^item> \<open>Driver\<close>: the path helpers, the \<open>save\<close> methods of \<open>CreateDOMDef\<close> and \<open>main\<close>.
  \<^item> \<open>StringHelper\<close>: hexadecimal, decimal and vector readers and \<open>stristr\<close>.
  \<^item> \<open>Itoa\<close>: \<open>u32toa_jeaiii\<close> and its relatives, with the macros as lists of byte stores that run
    on a byte memory. The locale \<open>digit_emitter\<close> is the contract of the macro family \<open>L0\<close> to \<open>L9\<close>.
  \<^item> \<open>RapidJson\<close>: values, flags, type tests and accessors of \<open>rapidjson::GenericValue\<close>.
    \<open>RapidItoa\<close>: its integer printers. \<open>RapidWriter\<close>: \<open>Accept\<close> and the writer.
  \<^item> \<open>CppRead\<close>, \<open>CppWrite\<close>: the C++ statements that the JSON emitters print, as syntax trees with a
    semantics: reading a JSON value into an object, writing an object into a JSON value.
    \<open>JsonStatements\<close>: the statements of a class, branch by branch as in \<open>saveDeserialize\<close> and
    \<open>saveSerialize\<close> (\<open>read_member\<close> goes with \<open>deser_member\<close>, \<open>write_member\<close> with \<open>ser_member\<close>, and so on).
  \<^item> \<open>SolidText\<close>, \<open>ReadText\<close>, \<open>WriteText\<close>, \<open>JsonText\<close>: the text of these statements is the text the
    emitters print.
  \<^item> \<open>GeneratedJson\<close>: the generated program as far as JSON goes (\<open>serialize\<close>, \<open>deserializeFrom\<close>, the
    enum functions, default-constructed objects). \<open>JsonRoundTrip\<close>: what is written is read back.
    \<open>JsonErrors\<close>: missing members, lost arrays, values that are no object.
  \<^item> \<open>RapidReader\<close>: \<open>GenericReader::Parse\<close> (src/include/rapidjson/reader.h) and the events of
    \<open>GenericDocument\<close> that build a value on its stack (\<open>document_event\<close>, \<open>Document_Parse\<close>); the reader
    takes its handler as an argument, as the template does. \<open>ReaderTotal\<close>: the locale
    \<open>value_handler\<close>, the contract between reader and handler, interpreted on the document; parsing ends.
    \<open>RapidText\<close>: the reader on the writer's text.
  \<^item> \<open>GeneratedText\<close>: the generated \<open>serializeDocument\<close>, \<open>deserializeDocument\<close> and \<open>deserialize\<close>, which
    join the generated JSON code to the writer and the reader.

  \<^bold>\<open>What is shown.\<close> Below, the whole program: a CSV file that holds the rows of a schema
  (\<open>schema_rows\<close>, \<open>writable_dom\<close>) makes \<open>main\<close> leave exactly the generated texts on disk
  (\<open>main_generates\<close>), with balanced braces (\<open>main_braces_balance\<close>). For the import: the round
  trip of a schema, the scanner's rows, the invariant of every import and its three surprises (a
  lost last line, members in front of an object, the overflow of \<open>argv\<close>), the derived fields and
  the type table. For the output: the text of a printer and its start columns, when \<open>saveCPP\<close>
  succeeds, that saving again changes nothing and that nothing else is touched. For the generated
  code: equal JSON keys in both directions, the round trip through JSON of every object whose
  members have the types both directions handle, what happens to the others, \<open>isMember\<close>, normalised
  integer defaults, protobuf field numbers. The generated program also reads back the text it writes
  (\<open>text_round_trip\<close>). For RapidJSON: the flags of numbers, the printed integers, the reader's
  totality (every text makes \<open>Parse\<close> end with a value or an error code), and the round trip of
  values through text. For the helpers: the decimal printers on all inputs, the readers of hexadecimal,
  decimal and vector text, substring search.

  \<^bold>\<open>Conventions.\<close> A C string is a HOL string without NUL; fixed buffers truncate as \<open>snprintf\<close>
  and \<open>strncpy\<close> do. \<open>stricmp0\<close> is the case-insensitive comparison. A record field whose C++ name
  occurs in both \<open>MemberVariable\<close> and \<open>Object\<close> has the suffix \<open>O\<close> in \<open>Object\<close>. Faults are the left
  summand of a result. The name \<open>io\<close> is always the floating-point parameter; \<open>temp1\<close> and \<open>temp2\<close>
  are the uninitialised locals that \<open>headerEnd\<close> prints.

  \<^bold>\<open>Bounds and fuel.\<close> The scanner loop ends because each row consumes input. The generator's only fuel is the
  length of the inheritance chain in \<open>savePython\<close>: the walk follows names, so a chain longer than
  the object list meets a cycle and the C++ loop does not end (fault \<open>Diverges\<close>); \<open>parents_fuel\<close> shows that more fuel changes nothing.
  The generated \<open>serializeTo\<close> and \<open>deserializeFrom\<close> have the depth of their calls as fuel: classes may
  contain each other, and \<open>storable\<close> asks for a depth that the object's own nesting needs. The reader's mutual
  recursion has fuel \<open>2 * length + 1\<close> of the text, as each call takes a character or starts a value;
  \<open>reader_total\<close> shows that this is enough and that more never changes the result.

  \<^bold>\<open>Not modelled.\<close> The rest of RapidJSON (allocators and memory, the printer of doubles, the
  iterative and the in-situ parser, other encodings, SIMD variants, schema.h, pointer.h), which the
  generated code does not call or which has no effect on its results; LevelDB (src/src/leveldb), a
  third-party library that no part of the generator uses; the contents of console messages, and
  reading the CSV file from disk (a file is its contents).
\<close>

section \<open>From the schema file to the generated files\<close>

text \<open>The schema that reaches the emitters when the file holds the rows of \<open>dm\<close>.\<close>

definition imported :: "DOM \<Rightarrow> DOM" where
  "imported dm = importComplete (dm\<lparr>mObjects := with_children (mObjects dm)\<rparr>)"

text \<open>A schema that is written, read and generated from without a fault, in the STL flavour.\<close>

definition generable :: "DOM \<Rightarrow> bool" where
  "generable dm \<longleftrightarrow>
     writable_dom dm \<and> mObjects dm \<noteq> [] \<and> mNamespace dm \<noteq> [] \<and> mFilename dm \<noteq> [] \<and>
     length (mFilename dm) \<le> 507 \<and> \<not> mPlainOldData dm \<and> generates (imported dm)"

lemma imported_frame [simp]:
  "mNamespace (imported dm) = mNamespace dm" "mFilename (imported dm) = mFilename dm"
  "mPlainOldData (imported dm) = mPlainOldData dm"
  by (simp_all add: imported_def importComplete_def Let_def split: prod.split)

lemma main_runs:
  assumes "generable dm" "files w csv = Some (print_rows (schema_rows dm))"
  obtains st w' where "mDOM st = imported dm" "mDestDir st = dest" "saves st"
    "CreateDOMDef_saveCPP io temp1 temp2 False st w = Inr w'"
    "main_app io temp1 temp2 [prog, csv, dest] w = Inr w'"
proof -
  let ?st = "(create dest)\<lparr>mDOM := imported dm\<rparr>"
  have parse: "parseCSV (files w csv) (create dest) = Inr ?st"
    using assms schema_parse[of dm dest] by (simp add: generable_def imported_def)
  have "saves ?st" "save_succeeds ?st"
    using assms(1) by (simp_all add: saves_def save_succeeds_def generable_def)
  moreover from save_outcome[of io temp1 temp2 False ?st w] this(2)
  obtain w' where run: "CreateDOMDef_saveCPP io temp1 temp2 False ?st w = Inr w'" by auto
  moreover have "main_app io temp1 temp2 [prog, csv, dest] w = Inr w'"
    by (simp add: main_app_def parse run)
  ultimately show thesis by (intro that[of ?st w']) (simp_all add: create_def)
qed

lemma out_name:
  "length (mFilename (mDOM st)) \<le> 507 \<Longrightarrow>
   out_file st ''%s.h'' = mDestDir st @ ''/'' @ mFilename (mDOM st) @ ''.h''"
  "length (mFilename (mDOM st)) \<le> 507 \<Longrightarrow>
   out_file st ''%s.cpp'' = mDestDir st @ ''/'' @ mFilename (mDOM st) @ ''.cpp''"
  by (simp_all add: out_file_def snprintf_def)

text \<open>The two files of a run, as the contents of printers.\<close>

lemma main_files:
  assumes "generable dm" "files w csv = Some (print_rows (schema_rows dm))"
    and "writable w (dest @ ''/'' @ mFilename dm @ ''.h'')"
    and "writable w (dest @ ''/'' @ mFilename dm @ ''.cpp'')"
  obtains w' where "main_app io temp1 temp2 [prog, csv, dest] w = Inr w'"
    "files w' (dest @ ''/'' @ mFilename dm @ ''.h'') = Some (mOutput
       (printed (header_calls io (imported dm)) (new_printer (dest @ ''/'' @ mFilename dm @ ''.h''))))"
    "files w' (dest @ ''/'' @ mFilename dm @ ''.cpp'') = Some (mOutput
       (printed (impl_calls (imported dm)) (new_printer (dest @ ''/'' @ mFilename dm @ ''.cpp''))))"
proof -
  have g: "length (mFilename dm) \<le> 507" "\<not> mPlainOldData dm" using assms(1) by (simp_all add: generable_def)
  obtain st w' where st: "mDOM st = imported dm" "mDestDir st = dest" "saves st"
    and run: "CreateDOMDef_saveCPP io temp1 temp2 False st w = Inr w'"
    and main: "main_app io temp1 temp2 [prog, csv, dest] w = Inr w'"
    by (rule main_runs[OF assms(1,2)])
  note saved = saved_file(2)[OF run st(3)]
  show thesis
    by (rule that[OF main])
      (use saved[of _ "''%s.h''"] saved[of _ "''%s.cpp''"] st g assms(3,4) in \<open>simp_all add: out_name\<close>)
qed

text \<open>A schema with an enum, a class and a subclass, and a world with its file.\<close>

definition demo_io :: float_io where
  "demo_io = \<lparr>strtof_text = (\<lambda>_. ''1.00000''), strtod_text = (\<lambda>_. ''1.00000''),
     vec3_text = (\<lambda>_. (zero_text, zero_text, zero_text)),
     quat_text = (\<lambda>_. (zero_text, zero_text, zero_text, one_text))\<rparr>"

definition schema_world :: world where
  "schema_world = \<lparr>files = [''s.csv'' \<mapsto> print_rows (schema_rows demo_schema)],
     writable = (\<lambda>_. True), dirs = [], writes = []\<rparr>"

lemma demo_generable: "generable demo_schema"
proof -
  have "generates (imported demo_schema)" by code_simp
  moreover have "mNamespace demo_schema = ''geo''" "mFilename demo_schema = ''shapes''"
    "\<not> mPlainOldData demo_schema"
    by (simp_all add: demo_schema_def new_dom_def)
  ultimately show ?thesis using demo_schema_writable by (simp add: generable_def)
qed

text \<open>
  C1. The whole program, from the schema file to the generated files. When the CSV file holds the
  rows of a schema that can be written down and passes the emitters' assertions, \<open>main\<close> ends
  without a fault, and (where the disk lets it write them) the header and the implementation in
  the destination directory hold exactly the texts the emitters print for the imported schema,
  indentation aside.
\<close>
theorem main_generates:
  assumes "generable dm" "files w csv = Some (print_rows (schema_rows dm))"
    and "writable w (dest @ ''/'' @ mFilename dm @ ''.h'')"
    and "writable w (dest @ ''/'' @ mFilename dm @ ''.cpp'')"
  shows "\<exists>w' h c. main_app io temp1 temp2 [prog, csv, dest] w = Inr w' \<and>
    files w' (dest @ ''/'' @ mFilename dm @ ''.h'') = Some h \<and>
    files w' (dest @ ''/'' @ mFilename dm @ ''.cpp'') = Some c \<and>
    solid h = solid (code_text (header_calls io (imported dm))) \<and>
    solid c = solid (code_text (impl_calls (imported dm)))"
proof -
  have g: "generates (imported dm)" using assms(1) by (simp add: generable_def)
  show ?thesis
    by (rule main_files[OF assms, of io temp1 temp2 prog])
      (simp add: printed_contents file_calls_no_abort[OF g] file_calls_bounded)
qed

theorem main_generates_witness:
  "\<exists>w' h c. main_app demo_io [] [] [''gen'', ''s.csv'', ''out''] schema_world = Inr w' \<and>
    files w' (''out/'' @ ''shapes.h'') = Some h \<and> files w' (''out/'' @ ''shapes.cpp'') = Some c \<and>
    solid h = solid (code_text (header_calls demo_io (imported demo_schema))) \<and>
    solid c = solid (code_text (impl_calls (imported demo_schema)))"
proof -
  have "files schema_world ''s.csv'' = Some (print_rows (schema_rows demo_schema))"
    "writable schema_world f" "mFilename demo_schema = ''shapes''" for f
    by (simp_all add: schema_world_def demo_schema_def new_dom_def)
  then show ?thesis
    using main_generates[OF demo_generable, of schema_world "''s.csv''" "''out''" demo_io "[]" "[]" "''gen''"]
    by simp
qed

text \<open>
  C20. The generated C++ is balanced. If neither the schema nor the printed numbers contain braces
  and the names fit their buffers, then in both generated files every brace that is opened is
  closed, in the right order, and no other is closed.
\<close>
theorem main_braces_balance:
  assumes "generable dm" "files w csv = Some (print_rows (schema_rows dm))"
    and "writable w (dest @ ''/'' @ mFilename dm @ ''.h'')"
    and "writable w (dest @ ''/'' @ mFilename dm @ ''.cpp'')"
    and "tidy_dom (imported dm)" "tidy_io io"
  shows "\<exists>w' h c. main_app io temp1 temp2 [prog, csv, dest] w = Inr w' \<and>
    files w' (dest @ ''/'' @ mFilename dm @ ''.h'') = Some h \<and> scan braces 0 h = Some 0 \<and>
    files w' (dest @ ''/'' @ mFilename dm @ ''.cpp'') = Some c \<and> scan braces 0 c = Some 0"
proof -
  have g: "generates (imported dm)" using assms(1) by (simp add: generable_def)
  have blank: "braces q CHR '' '' = Some q" for q by (simp add: braces_def)
  show ?thesis
    by (rule main_files[OF assms(1-4), of io temp1 temp2 prog])
      (simp add: printed_contents(2)[where d = braces, OF _ _ blank] file_calls_no_abort[OF g] file_calls_bounded
        file_calls_closed[OF assms(6,5) g])
qed

theorem main_braces_balance_witness:
  "\<exists>w' h c. main_app demo_io [] [] [''gen'', ''s.csv'', ''out''] schema_world = Inr w' \<and>
    files w' (''out/'' @ ''shapes.h'') = Some h \<and> scan braces 0 h = Some 0 \<and>
    files w' (''out/'' @ ''shapes.cpp'') = Some c \<and> scan braces 0 c = Some 0"
proof -
  have "files schema_world ''s.csv'' = Some (print_rows (schema_rows demo_schema))"
    "writable schema_world f" "mFilename demo_schema = ''shapes''" for f
    by (simp_all add: schema_world_def demo_schema_def new_dom_def)
  moreover have "tidy_dom (imported demo_schema)"
    by code_simp
  moreover have "tidy_io demo_io"
    by (simp add: tidy_io_def demo_io_def short_def zero_text_def one_text_def)
  ultimately show ?thesis
    using main_braces_balance[OF demo_generable, of schema_world "''s.csv''" "''out''" demo_io "[]" "[]" "''gen''"]
    by simp
qed

text \<open>
  What the integer printer writes, the number reader reads: \<open>u32toa_jeaiii\<close> writes a
  NUL-terminated text from which \<open>getUintValue\<close> gets the value back, leaving nothing behind it.
\<close>
theorem printed_uint_reads_back:
  "\<exists>s. u32toa_jeaiii u b m = Inr (write_text m b (s @ [nul])) \<and>
    getUintValue (Some s) next = (u, Some [])"
  using getUintValue_dec[of "[]" "[]" u "next"]
  by (intro exI[of _ "dec (unat u)"]) (simp add: u32toa_jeaiii_def digits.LG_LZ gap_def)

end
